(* ===== verification/Prelude.thy ===== *)
theory Prelude
  imports Main "HOL-Library.Word" "HOL-Library.AList" "HOL-Library.Char_ord"
    "HOL-Library.List_Lexorder" "HOL-Library.Multiset"
begin

text \<open>
  Shared vocabulary of the development: the names of the Go types the client uses
  (bytes, strings, 64-bit integers, maps), the generic lemmas on lists that the
  components share, and the two interfaces that several components have in common:
  \<open>codec\<close> (an encoder with a decoder that inverts it) and \<open>step_system\<close> (a
  transition system with an inductive invariant), together with the interface of Go's
  built-in map, \<open>finite_map\<close>, which is interpreted here on association lists.
\<close>

named_theorems codec_simps \<open>equations of the byte and text encodings\<close>
named_theorems client_defs \<open>definitions of the client's operations, for unfolding in proofs\<close>


section \<open>Bytes, strings and integers\<close>

text \<open>
  A Go \<^verbatim>\<open>[]byte\<close> is a list of 8-bit words. A Go \<^verbatim>\<open>string\<close> is a sequence of
  bytes too; it is a HOL string, whose characters are exactly the 256 byte values.
\<close>

type_synonym byte = "8 word"
type_synonym bytes = "byte list"
type_synonym uint64 = "64 word"
type_synonym uint32 = "32 word"

definition bytes_of_string :: "string \<Rightarrow> bytes" where
  "bytes_of_string s = map of_char s"

definition string_of_bytes :: "bytes \<Rightarrow> string" where
  "string_of_bytes b = map (\<lambda>w. char_of (unat w)) b"

lemma length_bytes_of_string [simp]: "length (bytes_of_string s) = length s"
  by (simp add: bytes_of_string_def)

lemma length_string_of_bytes [simp]: "length (string_of_bytes b) = length b"
  by (simp add: string_of_bytes_def)

lemma unat_of_char [simp]: "unat (of_char c :: byte) = of_char c"
proof -
  have "unat (of_nat (of_char c) :: byte) = of_char c"
    by (simp add: unat_of_nat)
  then show ?thesis by (simp only: of_nat_of_char)
qed

lemma string_of_bytes_of_string [simp]: "string_of_bytes (bytes_of_string s) = s"
  by (induction s) (simp_all add: string_of_bytes_def bytes_of_string_def)

lemma bytes_of_string_inject [simp]:
  "bytes_of_string s = bytes_of_string t \<longleftrightarrow> s = t"
  by (metis string_of_bytes_of_string)

text \<open>Go's \<^verbatim>\<open>int64\<close> arithmetic wraps around; \<open>i64\<close> is the value it leaves.\<close>

definition i64 :: "int \<Rightarrow> int" where
  "i64 x = (x + 2 ^ 63) mod 2 ^ 64 - 2 ^ 63"

lemma i64_id [simp]: "- (2 ^ 63) \<le> x \<Longrightarrow> x < 2 ^ 63 \<Longrightarrow> i64 x = x"
  by (simp add: i64_def)

lemma i64_range: "- (2 ^ 63) \<le> i64 x \<and> i64 x < 2 ^ 63"
  by (simp add: i64_def)


section \<open>Lists\<close>

lemma append_sep_eq_iff:
  assumes "c \<notin> set xs" "c \<notin> set ys"
  shows "xs @ c # us = ys @ c # vs \<longleftrightarrow> xs = ys \<and> us = vs"
  using assms
proof (induction xs arbitrary: ys)
  case Nil
  then show ?case by (cases ys) auto
next
  case (Cons x xs)
  then show ?case by (cases ys) auto
qed

lemma sorted_distinct_mset_unique:
  "mset xs = mset ys \<Longrightarrow> sort xs = sort ys"
  by (simp add: properties_for_sort)

lemma sum_list_map_update:
  fixes f :: "'a \<Rightarrow> int"
  assumes "i < length xs"
  shows "sum_list (map f (xs[i := x])) = sum_list (map f xs) - f (xs ! i) + f x"
  using assms
proof (induction xs arbitrary: i)
  case Nil
  then show ?case by simp
next
  case (Cons y ys)
  then show ?case by (cases i) simp_all
qed

lemma sum_list_map_all_zero:
  fixes f :: "'a \<Rightarrow> int"
  assumes "\<forall>x \<in> set xs. f x = 0"
  shows "sum_list (map f xs) = 0"
  using assms by (induction xs) auto

lemma member_le_sum_list_map:
  fixes f :: "'a \<Rightarrow> int"
  assumes "\<And>x. 0 \<le> f x" "i < length xs"
  shows "f (xs ! i) \<le> sum_list (map f xs)"
  using assms(2)
proof (induction xs arbitrary: i)
  case Nil
  then show ?case by simp
next
  case (Cons y ys)
  have nonneg: "0 \<le> sum_list (map f ys)"
    by (rule sum_list_nonneg) (auto simp: assms(1))
  show ?case
  proof (cases i)
    case 0
    then show ?thesis using nonneg by simp
  next
    case (Suc j)
    with Cons have "f (ys ! j) \<le> sum_list (map f ys)" by simp
    with Suc assms(1) [of y] show ?thesis by simp
  qed
qed


section \<open>Interface: encoders and decoders\<close>

text \<open>
  An encoding with a decoder that inverts it. \<open>sep\<close> is a set of characters the encoder
  never emits, so that encoded fields joined by such a character can be told apart.
\<close>

locale codec =
  fixes enc :: "'a \<Rightarrow> string"
    and dec :: "string \<Rightarrow> 'a option"
    and sep :: "char set"
  assumes dec_enc: "dec (enc x) = Some x"
    and enc_no_sep: "c \<in> sep \<Longrightarrow> c \<notin> set (enc x)"
begin

lemma enc_inject: "enc x = enc y \<longleftrightarrow> x = y"
  by (metis dec_enc option.inject)

lemma enc_join_inject:
  assumes "c \<in> sep"
  shows "enc x @ c # us = enc y @ c # vs \<longleftrightarrow> x = y \<and> us = vs"
  using append_sep_eq_iff [of c "enc x" "enc y" us vs] enc_no_sep [OF assms]
  by (simp add: enc_inject)

end


section \<open>Interface: transition systems with an invariant\<close>

text \<open>
  States reachable from an initial one by any number of steps, in any order: the form in
  which interleavings of goroutines are explored.
\<close>

inductive reachable :: "('s \<Rightarrow> bool) \<Rightarrow> ('s \<Rightarrow> 's \<Rightarrow> bool) \<Rightarrow> 's \<Rightarrow> bool" for init step where
  reach_init: "init s \<Longrightarrow> reachable init step s"
| reach_step: "reachable init step s \<Longrightarrow> step s t \<Longrightarrow> reachable init step t"

locale step_system =
  fixes init :: "'s \<Rightarrow> bool"
    and step :: "'s \<Rightarrow> 's \<Rightarrow> bool"
    and inv :: "'s \<Rightarrow> bool"
  assumes inv_init: "init s \<Longrightarrow> inv s"
    and inv_step: "inv s \<Longrightarrow> step s t \<Longrightarrow> inv t"
begin

lemma reachable_inv: "reachable init step s \<Longrightarrow> inv s"
proof (induction rule: reachable.induct)
  case (reach_init s)
  then show ?case by (rule inv_init)
next
  case (reach_step s t)
  then show ?case by (blast intro: inv_step)
qed

lemma steps_inv: "step\<^sup>*\<^sup>* s t \<Longrightarrow> inv s \<Longrightarrow> inv t"
  by (induction rule: rtranclp_induct) (auto intro: inv_step)

end


section \<open>Interface: Go's built-in map\<close>

text \<open>
  What the client uses of a Go map: looking a key up, storing a value, the number of
  entries. \<open>wf\<close> is the representation invariant of the provider.
\<close>

locale finite_map =
  fixes lookup :: "'m \<Rightarrow> 'k \<Rightarrow> 'v option"
    and put :: "'k \<Rightarrow> 'v \<Rightarrow> 'm \<Rightarrow> 'm"
    and len :: "'m \<Rightarrow> nat"
    and wf :: "'m \<Rightarrow> bool"
  assumes lookup_put: "lookup (put k v m) = (lookup m)(k \<mapsto> v)"
    and wf_put: "wf m \<Longrightarrow> wf (put k v m)"
    and finite_dom: "finite (dom (lookup m))"
    and len_card: "wf m \<Longrightarrow> len m = card (dom (lookup m))"
begin

lemma dom_put: "dom (lookup (put k v m)) = insert k (dom (lookup m))"
  by (simp add: lookup_put)

text \<open>Storing a value for every key of a list, in order, as a \<^verbatim>\<open>for range\<close> loop does.\<close>

lemma lookup_put_all:
  "lookup (fold (\<lambda>k. put k (f k)) ks m) k = (if k \<in> set ks then Some (f k) else lookup m k)"
  by (induction ks arbitrary: m) (auto simp: lookup_put)

lemma dom_put_all: "dom (lookup (fold (\<lambda>k. put k (f k)) ks m)) = dom (lookup m) \<union> set ks"
  by (auto simp: lookup_put_all split: if_splits)

lemma wf_put_all: "wf m \<Longrightarrow> wf (fold (\<lambda>k. put k (f k)) ks m)"
  by (induction ks arbitrary: m) (auto simp: wf_put)

lemma len_put_all: "wf m \<Longrightarrow> len (fold (\<lambda>k. put k (f k)) ks m) = card (dom (lookup m) \<union> set ks)"
  by (simp add: len_card wf_put_all dom_put_all)

end

text \<open>
  The provider: an association list with distinct keys. The order of its entries stands
  for the iteration order of a \<^verbatim>\<open>for range\<close> loop, which Go leaves unspecified; a
  component that iterates over a map shows that its result does not depend on it.
\<close>

type_synonym ('k, 'v) gomap = "('k \<times> 'v) list"

definition gm_wf :: "('k, 'v) gomap \<Rightarrow> bool" where
  "gm_wf m = distinct (map fst m)"

abbreviation gm_get :: "('k, 'v) gomap \<Rightarrow> 'k \<Rightarrow> 'v option" where
  "gm_get m k \<equiv> map_of m k"

abbreviation gm_put :: "'k \<Rightarrow> 'v \<Rightarrow> ('k, 'v) gomap \<Rightarrow> ('k, 'v) gomap" where
  "gm_put \<equiv> AList.update"

text \<open>Reading a missing key of a Go map gives the zero value of the element type.\<close>

definition gm_get_or :: "'v \<Rightarrow> ('k, 'v) gomap \<Rightarrow> 'k \<Rightarrow> 'v" where
  "gm_get_or z m k = (case gm_get m k of None \<Rightarrow> z | Some v \<Rightarrow> v)"

abbreviation gm_keys :: "('k, 'v) gomap \<Rightarrow> 'k list" where
  "gm_keys m \<equiv> map fst m"

lemma gm_wf_Nil [simp]: "gm_wf []"
  by (simp add: gm_wf_def)

lemma set_gm_keys: "set (gm_keys m) = dom (gm_get m)"
  by (simp add: dom_map_of_conv_image_fst)

lemma gm_wf_length: "gm_wf m \<Longrightarrow> length m = card (dom (gm_get m))"
  unfolding gm_wf_def by (metis distinct_card length_map set_gm_keys)

interpretation gm: finite_map "map_of :: ('k, 'v) gomap \<Rightarrow> 'k \<Rightarrow> 'v option"
  gm_put length gm_wf
proof unfold_locales
  show "map_of (gm_put k v m) = (map_of m)(k \<mapsto> v)" for k v and m :: "('k, 'v) gomap"
    by (rule update_conv')
  show "gm_wf m \<Longrightarrow> gm_wf (gm_put k v m)" for k v and m :: "('k, 'v) gomap"
    by (simp add: gm_wf_def distinct_update)
qed (simp_all add: finite_dom_map_of gm_wf_length)


text \<open>Filling a map in the order of a list of new keys lists the entries in that order.\<close>

lemma gm_put_fresh: "k \<notin> set (gm_keys m) \<Longrightarrow> gm_put k v m = m @ [(k, v)]"
  by (induction m) auto

lemma fold_gm_put_fresh:
  assumes "distinct ks" "set ks \<inter> set (gm_keys m) = {}"
  shows "fold (\<lambda>k. gm_put k (f k)) ks m = m @ map (\<lambda>k. (k, f k)) ks"
  using assms
proof (induction ks arbitrary: m)
  case Nil
  then show ?case by simp
next
  case (Cons k ks)
  then have "gm_put k (f k) m = m @ [(k, f k)]" by (intro gm_put_fresh) auto
  with Cons.IH [of "m @ [(k, f k)]"] Cons.prems show ?case by auto
qed

end
