(* ===== verification/Go_Text.thy ===== *)
theory Go_Text
  imports Prelude
begin

text \<open>
  The text encodings of Go's standard library that the client calls: \<^verbatim>\<open>encoding/hex\<close>
  (fingerprints, nonces, signatures, instance ids), decimal integers of
  \<^verbatim>\<open>strconv\<close> and \<^verbatim>\<open>fmt\<close>, \<^verbatim>\<open>url.QueryEscape\<close>, the standard base64
  alphabet that \<^verbatim>\<open>encoding/json\<close> uses for byte slices, and the ASCII part of
  \<^verbatim>\<open>strings.EqualFold\<close> and \<^verbatim>\<open>bytes.TrimSpace\<close>. Each encoder is an
  interpretation of the \<open>codec\<close> interface, so that injectivity and unambiguous joining
  come from there.
\<close>


section \<open>Hexadecimal\<close>

definition hexdigit :: "nat \<Rightarrow> char" where
  "hexdigit n = (if n < 10 then char_of (48 + n) else char_of (87 + n))"

definition hexval :: "char \<Rightarrow> nat option" where
  "hexval c = (let n = of_char c in
     if 48 \<le> n \<and> n \<le> 57 then Some (n - 48)
     else if 97 \<le> n \<and> n \<le> 102 then Some (n - 87)
     else if 65 \<le> n \<and> n \<le> 70 then Some (n - 55)
     else None)"

text \<open>\<^verbatim>\<open>hex.EncodeToString\<close>: two lower-case digits per byte.\<close>

fun hex_EncodeToString :: "bytes \<Rightarrow> string" where
  "hex_EncodeToString [] = []"
| "hex_EncodeToString (b # bs) =
     hexdigit (unat b div 16) # hexdigit (unat b mod 16) # hex_EncodeToString bs"

text \<open>\<^verbatim>\<open>hex.DecodeString\<close>: either case; \<open>None\<close> is its error (bad digit, odd length).\<close>

fun hex_DecodeString :: "string \<Rightarrow> bytes option" where
  "hex_DecodeString [] = Some []"
| "hex_DecodeString [_] = None"
| "hex_DecodeString (c # d # s) =
     (case hexval c of None \<Rightarrow> None | Some x \<Rightarrow>
      (case hexval d of None \<Rightarrow> None | Some y \<Rightarrow>
       (case hex_DecodeString s of None \<Rightarrow> None | Some bs \<Rightarrow> Some (of_nat (16 * x + y) # bs))))"

lemma hexval_hexdigit [simp]: "n < 16 \<Longrightarrow> hexval (hexdigit n) = Some n"
  by (auto simp: hexval_def hexdigit_def Let_def)

lemma hexval_less: "hexval c = Some n \<Longrightarrow> n < 16"
  by (auto simp: hexval_def Let_def split: if_splits)

lemma unat_byte_less: "unat (b :: byte) < 256"
  using unsigned_less [of b] by simp

lemma byte_nibbles [simp]: "(of_nat (16 * (unat b div 16) + unat b mod 16) :: byte) = b"
  by (simp del: of_nat_add of_nat_mult)

lemma hex_decode_encode [codec_simps]: "hex_DecodeString (hex_EncodeToString b) = Some b"
proof (induction b)
  case Nil
  then show ?case by simp
next
  case (Cons b bs)
  have "unat b div 16 < 16" using unat_byte_less [of b] by simp
  moreover have "unat b mod 16 < 16" by simp
  ultimately show ?case using Cons.IH byte_nibbles [of b]
    by (simp del: of_nat_add of_nat_mult)
qed

lemma length_hex_encode [simp]: "length (hex_EncodeToString b) = 2 * length b"
  by (induction b) auto

lemma length_hex_decode: "hex_DecodeString s = Some b \<Longrightarrow> length s = 2 * length b"
  by (induction s arbitrary: b rule: hex_DecodeString.induct) (auto split: option.splits)

definition is_lower_hex :: "char \<Rightarrow> bool" where
  "is_lower_hex c \<longleftrightarrow> (let n = (of_char c :: nat) in 48 \<le> n \<and> n \<le> 57 \<or> 97 \<le> n \<and> n \<le> 102)"

lemma is_lower_hex_hexdigit [simp]: "n < 16 \<Longrightarrow> is_lower_hex (hexdigit n)"
  by (auto simp: is_lower_hex_def hexdigit_def Let_def)

lemma hex_encode_lower: "c \<in> set (hex_EncodeToString b) \<Longrightarrow> is_lower_hex c"
proof (induction b)
  case Nil
  then show ?case by simp
next
  case (Cons b bs)
  have "unat b div 16 < 16" using unat_byte_less [of b] by simp
  with Cons show ?case by auto
qed

interpretation hexc: codec hex_EncodeToString hex_DecodeString "{c. \<not> is_lower_hex c}"
  by unfold_locales (auto simp: hex_decode_encode dest: hex_encode_lower)

text \<open>
  \<^verbatim>\<open>strings.EqualFold\<close> on ASCII strings. The client only folds two strings of hex
  digits, so the ASCII letters are the only ones whose case matters.
\<close>

definition ascii_lower :: "char \<Rightarrow> char" where
  "ascii_lower c = (let n = (of_char c :: nat) in if 65 \<le> n \<and> n \<le> 90 then char_of (n + 32) else c)"

definition EqualFold :: "string \<Rightarrow> string \<Rightarrow> bool" where
  "EqualFold s t \<longleftrightarrow> map ascii_lower s = map ascii_lower t"

lemma hexdigit_of_hexval: "hexval c = Some n \<Longrightarrow> hexdigit n = ascii_lower c"
proof -
  assume a: "hexval c = Some n"
  have c: "char_of (of_char c :: nat) = c" by simp
  show ?thesis
    using a c by (auto simp: hexval_def hexdigit_def ascii_lower_def Let_def split: if_splits)
qed

lemma hex_nibbles:
  assumes "x < 16" "y < 16"
  shows "unat (of_nat (16 * x + y) :: byte) div 16 = x" (is ?hi)
    and "unat (of_nat (16 * x + y) :: byte) mod 16 = y" (is ?lo)
proof -
  have "16 * x + y < 256" using assms by simp
  then have "unat (of_nat (16 * x + y) :: byte) = 16 * x + y"
    by (simp add: unat_of_nat del: of_nat_add of_nat_mult)
  then show ?hi ?lo using assms by simp_all
qed

lemma hex_encode_decode:
  "hex_DecodeString s = Some b \<Longrightarrow> hex_EncodeToString b = map ascii_lower s"
proof (induction s arbitrary: b rule: hex_DecodeString.induct)
  case (3 c d s)
  then obtain x y bs where x: "hexval c = Some x" and y: "hexval d = Some y"
    and bs: "hex_DecodeString s = Some bs" and b: "b = of_nat (16 * x + y) # bs"
    by (auto split: option.splits)
  have "hex_EncodeToString bs = map ascii_lower s"
    using 3 x y bs by simp
  then show ?case
    using b hex_nibbles [OF hexval_less [OF x] hexval_less [OF y]]
      hexdigit_of_hexval [OF x] hexdigit_of_hexval [OF y]
    by (simp del: of_nat_add of_nat_mult)
qed auto

lemma EqualFold_hex_iff:
  assumes "hex_DecodeString s = Some b"
  shows "EqualFold s (hex_EncodeToString d) \<longleftrightarrow> b = d"
proof -
  have "map ascii_lower (hex_EncodeToString d) = hex_EncodeToString d"
    using hex_encode_decode [OF hex_decode_encode [of d]] by simp
  then show ?thesis
    using hex_encode_decode [OF assms] hexc.enc_inject [of b d] by (simp add: EqualFold_def)
qed


section \<open>Decimal integers\<close>

text \<open>\<^verbatim>\<open>strconv.Itoa\<close>, \<^verbatim>\<open>strconv.FormatInt(_, 10)\<close> and the verb \<^verbatim>\<open>%d\<close>.\<close>

fun dec_nat :: "nat \<Rightarrow> string" where
  "dec_nat n = (if n < 10 then [char_of (48 + n)] else dec_nat (n div 10) @ [char_of (48 + n mod 10)])"

declare dec_nat.simps [simp del]

definition FormatInt :: "int \<Rightarrow> string" where
  "FormatInt i = (if i < 0 then CHR ''-'' # dec_nat (nat (- i)) else dec_nat (nat i))"

definition is_digit :: "char \<Rightarrow> bool" where
  "is_digit c \<longleftrightarrow> (let n = (of_char c :: nat) in 48 \<le> n \<and> n \<le> 57)"

definition dec_value :: "string \<Rightarrow> nat" where
  "dec_value s = foldl (\<lambda>a c. 10 * a + (of_char c - 48)) 0 s"

lemma is_digit_char_of [simp]: "(n :: nat) < 10 \<Longrightarrow> is_digit (char_of (48 + n))"
  by (simp add: is_digit_def Let_def)

lemma dec_nat_digits: "c \<in> set (dec_nat n) \<Longrightarrow> is_digit c"
proof (induction n rule: dec_nat.induct)
  case (1 n)
  show ?case
  proof (cases "n < 10")
    case True
    with 1 show ?thesis by (simp add: dec_nat.simps [of n])
  next
    case False
    with 1 show ?thesis by (auto simp: dec_nat.simps [of n])
  qed
qed

lemma dec_value_snoc: "n < 10 \<Longrightarrow> dec_value (s @ [char_of (48 + n)]) = 10 * dec_value s + n"
  by (simp add: dec_value_def)

lemma dec_value_dec_nat [codec_simps]: "dec_value (dec_nat n) = n"
proof (induction n rule: dec_nat.induct)
  case (1 n)
  show ?case
  proof (cases "n < 10")
    case True
    then show ?thesis using dec_value_snoc [of n "[]"]
      by (simp add: dec_nat.simps [of n] dec_value_def)
  next
    case False
    with 1 have "dec_value (dec_nat (n div 10)) = n div 10" by simp
    then show ?thesis
      using False dec_value_snoc [of "n mod 10" "dec_nat (n div 10)"]
      by (simp add: dec_nat.simps [of n])
  qed
qed

lemma dec_nat_nonempty [simp]: "dec_nat n \<noteq> []"
  by (subst dec_nat.simps) simp

text \<open>The reader of a decimal number, used to show that the printed form is unambiguous.\<close>

definition ParseInt :: "string \<Rightarrow> int option" where
  "ParseInt s = (case s of [] \<Rightarrow> None | c # t \<Rightarrow>
     if c = CHR ''-'' then Some (- int (dec_value t)) else Some (int (dec_value s)))"

lemma minus_not_digit [simp]: "\<not> is_digit (CHR ''-'')"
  by (simp add: is_digit_def Let_def)

lemma ParseInt_FormatInt [codec_simps]: "ParseInt (FormatInt i) = Some i"
proof (cases "i < 0")
  case True
  then show ?thesis by (simp add: ParseInt_def FormatInt_def dec_value_dec_nat)
next
  case False
  obtain c t where ct: "dec_nat (nat i) = c # t"
    by (cases "dec_nat (nat i)") auto
  then have "c \<noteq> CHR ''-''"
    using dec_nat_digits [of c "nat i"] by auto
  then show ?thesis
    using False ct dec_value_dec_nat [of "nat i"] by (simp add: ParseInt_def FormatInt_def)
qed

lemma FormatInt_chars: "c \<in> set (FormatInt i) \<Longrightarrow> is_digit c \<or> c = CHR ''-''"
  by (auto simp: FormatInt_def dest: dec_nat_digits split: if_splits)

interpretation decc: codec FormatInt ParseInt "{c. \<not> is_digit c \<and> c \<noteq> CHR ''-''}"
  by unfold_locales (auto simp: ParseInt_FormatInt dest: FormatInt_chars)


section \<open>Query escaping\<close>

text \<open>
  \<^verbatim>\<open>url.QueryEscape\<close>: letters, digits and \<^verbatim>\<open>-_.~\<close> stay, a space becomes \<^verbatim>\<open>+\<close>,
  every other byte becomes \<^verbatim>\<open>%XX\<close> with upper-case digits.
\<close>

definition upperhex :: "nat \<Rightarrow> char" where
  "upperhex n = (if n < 10 then char_of (48 + n) else char_of (55 + n))"

definition unreserved :: "char \<Rightarrow> bool" where
  "unreserved c \<longleftrightarrow> (let n = (of_char c :: nat) in
     97 \<le> n \<and> n \<le> 122 \<or> 65 \<le> n \<and> n \<le> 90 \<or> 48 \<le> n \<and> n \<le> 57 \<or>
     c \<in> {CHR ''-'', CHR ''_'', CHR ''.'', CHR ''~''})"

definition escape_char :: "char \<Rightarrow> string" where
  "escape_char c =
     (if c = CHR '' '' then ''+''
      else if unreserved c then [c]
      else [CHR ''%'', upperhex (of_char c div 16), upperhex (of_char c mod 16)])"

definition QueryEscape :: "string \<Rightarrow> string" where
  "QueryEscape s = concat (map escape_char s)"

fun QueryUnescape :: "string \<Rightarrow> string option" where
  "QueryUnescape [] = Some []"
| "QueryUnescape (c # s) =
     (if c = CHR ''%'' then
        (case s of a # b # r \<Rightarrow>
           (case hexval a of None \<Rightarrow> None | Some x \<Rightarrow>
            (case hexval b of None \<Rightarrow> None | Some y \<Rightarrow>
              map_option ((#) (char_of (16 * x + y))) (QueryUnescape r)))
         | _ \<Rightarrow> None)
      else map_option ((#) (if c = CHR ''+'' then CHR '' '' else c)) (QueryUnescape s))"

lemma hexval_upperhex [simp]: "n < 16 \<Longrightarrow> hexval (upperhex n) = Some n"
  by (auto simp: hexval_def upperhex_def Let_def)

lemma unreserved_not_special:
  "unreserved c \<Longrightarrow> c \<noteq> CHR ''%'' \<and> c \<noteq> CHR ''+'' \<and> c \<noteq> CHR ''&'' \<and> c \<noteq> CHR ''=''"
  by (auto simp: unreserved_def Let_def)

lemma unescape_escape_char:
  "QueryUnescape (escape_char c @ s) = map_option ((#) c) (QueryUnescape s)"
proof -
  have "of_char c div 16 < (16 :: nat)" by (simp add: less_mult_imp_div_less)
  then show ?thesis
    using unreserved_not_special [of c] by (simp add: escape_char_def)
qed

lemma QueryUnescape_QueryEscape [codec_simps]: "QueryUnescape (QueryEscape s) = Some s"
  by (induction s) (simp_all add: QueryEscape_def unescape_escape_char)

lemma upperhex_not_sep: "n < 16 \<Longrightarrow> upperhex n \<noteq> CHR ''&'' \<and> upperhex n \<noteq> CHR ''=''"
  by (auto simp: upperhex_def char_of_eq_iff take_bit_eq_mod)

lemma escape_char_no_sep: "CHR ''&'' \<notin> set (escape_char c) \<and> CHR ''='' \<notin> set (escape_char c)"
proof -
  have "of_char c div 16 < (16 :: nat)" by (simp add: less_mult_imp_div_less)
  then have "upperhex (of_char c div 16) \<noteq> CHR ''&'' \<and> upperhex (of_char c div 16) \<noteq> CHR ''=''"
    and "upperhex (of_char c mod 16) \<noteq> CHR ''&'' \<and> upperhex (of_char c mod 16) \<noteq> CHR ''=''"
    by (simp_all add: upperhex_not_sep)
  then show ?thesis
    using unreserved_not_special [of c] by (auto simp: escape_char_def)
qed

interpretation qryc: codec QueryEscape QueryUnescape "{CHR ''&'', CHR ''=''}"
proof unfold_locales
  show "QueryUnescape (QueryEscape x) = Some x" for x
    by (rule QueryUnescape_QueryEscape)
  show "c \<notin> set (QueryEscape x)" if "c \<in> {CHR ''&'', CHR ''=''}" for c x
    using that by (auto simp: QueryEscape_def escape_char_no_sep)
qed

end
