(* ===== verification/Go_Json.thy ===== *)
theory Go_Json
  imports Go_Text
begin

text \<open>
  What the client uses of \<^verbatim>\<open>encoding/json\<close> to write messages: JSON values, the text that
  \<^verbatim>\<open>json.Marshal\<close> and \<^verbatim>\<open>json.Encoder\<close> print for them, and the encodings of
  Go's slices, maps, pointers and \<^verbatim>\<open>omitempty\<close> fields. A nil slice, map or pointer is
  \<open>None\<close>: it prints as \<^verbatim>\<open>null\<close>, unlike an empty one.
\<close>


section \<open>Base64\<close>

definition base64_alphabet :: string where
  "base64_alphabet = ''ABCDEFGHIJKLMNOPQRSTUVWXYZabcdefghijklmnopqrstuvwxyz0123456789+/''"

definition b64 :: "nat \<Rightarrow> char" where
  "b64 n = base64_alphabet ! n"

fun base64_Encode :: "bytes \<Rightarrow> string" where
  "base64_Encode [] = []"
| "base64_Encode [a] = [b64 (unat a div 4), b64 (unat a mod 4 * 16), CHR ''='', CHR ''='']"
| "base64_Encode [a, b] =
     [b64 (unat a div 4), b64 (unat a mod 4 * 16 + unat b div 16), b64 (unat b mod 16 * 4), CHR ''='']"
| "base64_Encode (a # b # c # r) =
     b64 (unat a div 4) # b64 (unat a mod 4 * 16 + unat b div 16) #
     b64 (unat b mod 16 * 4 + unat c div 64) # b64 (unat c mod 64) # base64_Encode r"


section \<open>JSON values and their text\<close>

datatype json =
    JNull
  | JBool bool
  | JNum string
  | JStr string
  | JArr "json list"
  | JObj "(string \<times> json) list"

text \<open>
  The length of the valid multi-byte UTF-8 sequence a string starts with, if any
  (\<^verbatim>\<open>utf8.DecodeRuneInString\<close> of a string that starts with a byte of at least 128).
\<close>

definition in_range :: "nat \<Rightarrow> nat \<Rightarrow> char \<Rightarrow> bool" where
  "in_range lo hi c \<longleftrightarrow> lo \<le> of_char c \<and> of_char c \<le> hi"

abbreviation cont :: "char \<Rightarrow> bool" where
  "cont \<equiv> in_range 128 191"

definition utf8_len :: "string \<Rightarrow> nat option" where
  "utf8_len s = (case s of
     a # b # r \<Rightarrow>
       (if in_range 194 223 a then (if cont b then Some 2 else None)
        else case r of
          c # r' \<Rightarrow>
            (if in_range 224 239 a then
               (if in_range (if of_char a = (224::nat) then 160 else 128)
                            (if of_char a = (237::nat) then 159 else 191) b \<and> cont c
                then Some 3 else None)
             else case r' of
               d # _ \<Rightarrow>
                 (if in_range 240 244 a \<and>
                     in_range (if of_char a = (240::nat) then 144 else 128)
                              (if of_char a = (244::nat) then 143 else 191) b \<and> cont c \<and> cont d
                  then Some 4 else None)
             | [] \<Rightarrow> None)
        | [] \<Rightarrow> None)
   | _ \<Rightarrow> None)"

lemma utf8_len_bounds: "utf8_len s = Some k \<Longrightarrow> 2 \<le> k \<and> k \<le> 4 \<and> k \<le> length s"
  by (auto simp: utf8_len_def split: list.splits if_splits)

text \<open>The two line separators U+2028 and U+2029, which the encoder always escapes.\<close>

definition line_sep :: "string \<Rightarrow> char option" where
  "line_sep s = (case s of a # b # c # _ \<Rightarrow>
      if of_char a = (226::nat) \<and> of_char b = (128::nat) \<and> of_char c = (168::nat) then Some (CHR ''8'')
      else if of_char a = (226::nat) \<and> of_char b = (128::nat) \<and> of_char c = (169::nat) then Some (CHR ''9'')
      else None
    | _ \<Rightarrow> None)"

definition backslash :: char where "backslash = char_of (92 :: nat)"
definition dquote :: char where "dquote = char_of (34 :: nat)"

text \<open>The escaped form of one ASCII byte (\<open>html\<close> is the encoder's \<^verbatim>\<open>escapeHTML\<close>).\<close>

definition json_escape_ascii :: "bool \<Rightarrow> char \<Rightarrow> string" where
  "json_escape_ascii html c = (let n = (of_char c :: nat) in
     if n = 34 \<or> n = 92 then [backslash, c]
     else if n = 8 then [backslash, CHR ''b'']
     else if n = 12 then [backslash, CHR ''f'']
     else if n = 10 then [backslash, CHR ''n'']
     else if n = 13 then [backslash, CHR ''r'']
     else if n = 9 then [backslash, CHR ''t'']
     else if n < 32 \<or> html \<and> c \<in> {CHR ''<'', CHR ''>'', CHR ''&''}
       then backslash # ''u00'' @ [hexdigit (n div 16), hexdigit (n mod 16)]
     else [c])"

function json_string_body :: "bool \<Rightarrow> string \<Rightarrow> string" where
  "json_string_body html [] = []"
| "json_string_body html (c # s) =
     (if of_char c < (128 :: nat) then json_escape_ascii html c @ json_string_body html s
      else case utf8_len (c # s) of
          None \<Rightarrow> backslash # ''ufffd'' @ json_string_body html s
        | Some k \<Rightarrow> (case line_sep (c # s) of
              Some d \<Rightarrow> backslash # ''u202'' @ d # json_string_body html (drop k (c # s))
            | None \<Rightarrow> take k (c # s) @ json_string_body html (drop k (c # s))))"
  by pat_completeness auto
termination
  by (relation "measure (\<lambda>(_, s). length s)") (auto dest: utf8_len_bounds)

definition json_string :: "bool \<Rightarrow> string \<Rightarrow> string" where
  "json_string html s = dquote # json_string_body html s @ [dquote]"

fun join_comma :: "string list \<Rightarrow> string" where
  "join_comma [] = []"
| "join_comma [x] = x"
| "join_comma (x # y # r) = x @ CHR '','' # join_comma (y # r)"

fun json_text :: "bool \<Rightarrow> json \<Rightarrow> string" where
  "json_text html JNull = ''null''"
| "json_text html (JBool b) = (if b then ''true'' else ''false'')"
| "json_text html (JNum n) = n"
| "json_text html (JStr s) = json_string html s"
| "json_text html (JArr vs) = CHR ''['' # join_comma (map (json_text html) vs) @ '']''"
| "json_text html (JObj ms) = CHR ''{'' #
     join_comma (map (\<lambda>(k, v). json_string html k @ CHR '':'' # json_text html v) ms) @ ''}''"

text \<open>\<^verbatim>\<open>json.Marshal\<close> escapes HTML characters; it cannot fail on the types used here.\<close>

definition json_Marshal :: "json \<Rightarrow> bytes" where
  "json_Marshal v = bytes_of_string (json_text True v)"

text \<open>\<^verbatim>\<open>json.Encoder\<close> with \<^verbatim>\<open>SetEscapeHTML(false)\<close> ends the value with a newline.\<close>

definition json_Encode_raw :: "json \<Rightarrow> bytes" where
  "json_Encode_raw v = bytes_of_string (json_text False v @ [char_of (10 :: nat)])"


section \<open>Go values as JSON values\<close>

definition j_nat :: "nat \<Rightarrow> json" where
  "j_nat n = JNum (dec_nat n)"

definition j_strings :: "string list option \<Rightarrow> json" where
  "j_strings xs = (case xs of None \<Rightarrow> JNull | Some l \<Rightarrow> JArr (map JStr l))"

definition j_bytes :: "bytes option \<Rightarrow> json" where
  "j_bytes b = (case b of None \<Rightarrow> JNull | Some x \<Rightarrow> JStr (base64_Encode x))"

text \<open>A map is printed with its keys in increasing byte order.\<close>

definition j_string_map :: "(string, string) gomap option \<Rightarrow> json" where
  "j_string_map m = (case m of None \<Rightarrow> JNull
     | Some l \<Rightarrow> JObj (map (\<lambda>k. (k, JStr (gm_get_or [] l k))) (sort (gm_keys l))))"

text \<open>A field with \<^verbatim>\<open>omitempty\<close> is left out when its value is empty.\<close>

definition field :: "string \<Rightarrow> json \<Rightarrow> (string \<times> json) list" where
  "field k v = [(k, v)]"

definition field_unless :: "bool \<Rightarrow> string \<Rightarrow> json \<Rightarrow> (string \<times> json) list" where
  "field_unless is_zero k v = (if is_zero then [] else [(k, v)])"

definition j_ptr_string :: "string option \<Rightarrow> json" where
  "j_ptr_string p = (case p of None \<Rightarrow> JNull | Some s \<Rightarrow> JStr s)"

lemma j_string_map_order:
  assumes "gm_wf m" "mset m = mset m'"
  shows "j_string_map (Some m) = j_string_map (Some m')"
proof -
  have "mset (gm_keys m) = mset (gm_keys m')"
    using assms(2) by (metis mset_map)
  then have keys: "sort (gm_keys m) = sort (gm_keys m')"
    by (rule sorted_distinct_mset_unique)
  have "distinct (gm_keys m')"
    using assms \<open>mset (gm_keys m) = mset (gm_keys m')\<close>
    by (metis gm_wf_def mset_eq_imp_distinct_iff)
  moreover have "set m = set m'"
    using assms(2) by (rule mset_eq_setD)
  ultimately have "gm_get m = gm_get m'"
    using assms(1) by (auto intro!: map_of_inject_set [THEN iffD2] simp: gm_wf_def)
  then have "gm_get_or [] m = gm_get_or [] m'"
    by (simp add: gm_get_or_def fun_eq_iff)
  with keys show ?thesis by (simp add: j_string_map_def)
qed

end
