(* ===== verification/Errors.thy ===== *)
theory Errors
  imports Go_Text
begin

text \<open>
  \<^verbatim>\<open>error.go\<close>, \<^verbatim>\<open>util.go\<close> and \<^verbatim>\<open>response.go\<close>: the error values the client
  returns, the accessors of its error struct, the status-only snapshot of a response, and
  the small helpers. Every \<^verbatim>\<open>errors.New\<close>, sentinel, context error and wrapped library
  error of the source is a value of \<open>go_error\<close>; a fallible function returns
  \<open>go_error + 'a\<close>.
\<close>


section \<open>HTTP responses\<close>

text \<open>
  What the client reads of a \<^verbatim>\<open>fasthttp.Response\<close>: its status code, its body and its
  header fields.
\<close>

record http_response =
  StatusCode :: int
  Body :: bytes
  RespHeader :: "(string \<times> string) list"


section \<open>Error values\<close>

datatype ErrCode = SYSErr | CLIENTErr | PARAMETERErr

text \<open>
  \<open>ErrorString\<close> is \<^verbatim>\<open>errors.New\<close>; the three sentinels are the package variables;
  \<open>Canceled\<close> and \<open>DeadlineExceeded\<close> are what a context's \<^verbatim>\<open>Err\<close> returns;
  \<open>CloseError\<close> is a WebSocket close frame with its code; \<open>LibError\<close> is any other
  error of a library, by its text; \<open>Error\<close> is the struct of \<^verbatim>\<open>error.go\<close>.
\<close>

datatype go_error =
    ErrorString string
  | ErrNoConnected
  | ErrAlreadyStarted
  | ErrNotStarted
  | Canceled
  | DeadlineExceeded
  | CloseError nat
  | LibError string
  | Error (err_typ: ErrCode) (err_origin: go_error) (err_message: string)
      (err_code: int) (err_status: int) (err_response: "http_response option")

type_synonym 'a result = "go_error + 'a"

text \<open>The text of an error (\<^verbatim>\<open>err.Error()\<close>).\<close>

fun error_text :: "go_error \<Rightarrow> string" where
  "error_text (ErrorString s) = s"
| "error_text ErrNoConnected = ''websocket: not connected''"
| "error_text ErrAlreadyStarted = ''already started''"
| "error_text ErrNotStarted = ''not started yet''"
| "error_text Canceled = ''context canceled''"
| "error_text DeadlineExceeded = ''context deadline exceeded''"
| "error_text (CloseError n) = ''websocket: close '' @ dec_nat n"
| "error_text (LibError s) = s"
| "error_text (Error t orig msg c st r) = msg"

text \<open>
  The accessors of \<^verbatim>\<open>*Error\<close>. \<open>err_Type\<close>, \<open>err_Code\<close> and \<open>err_Status\<close> read
  a field; \<open>err_Unwrap\<close> and \<open>err_Origin\<close> both give the wrapped error, which
  \<^verbatim>\<open>errors.Is\<close> follows.
\<close>

definition err_Type :: "go_error \<Rightarrow> ErrCode" where "err_Type = err_typ"
definition err_Origin :: "go_error \<Rightarrow> go_error" where "err_Origin = err_origin"
definition err_Code :: "go_error \<Rightarrow> int" where "err_Code = err_code"
definition err_Status :: "go_error \<Rightarrow> int" where "err_Status = err_status"

fun err_Unwrap :: "go_error \<Rightarrow> go_error option" where
  "err_Unwrap (Error t orig msg c st r) = Some orig"
| "err_Unwrap _ = None"

text \<open>A snapshot keeps the status only: no header and no body of the pooled response.\<close>

definition fasthttp_Response_zero :: http_response where
  "fasthttp_Response_zero = \<lparr>StatusCode = 200, Body = [], RespHeader = []\<rparr>"

definition responseSnapshot :: "http_response option \<Rightarrow> http_response option" where
  "responseSnapshot resp = (case resp of None \<Rightarrow> None
     | Some r \<Rightarrow> Some (fasthttp_Response_zero\<lparr>StatusCode := StatusCode r\<rparr>))"

definition err_Response :: "go_error \<Rightarrow> http_response option" where
  "err_Response e = responseSnapshot (err_response e)"

text \<open>\<^verbatim>\<open>errors.Is\<close>: the error or one it wraps is the target.\<close>

fun errors_Is :: "go_error \<Rightarrow> go_error \<Rightarrow> bool" where
  "errors_Is (Error t orig msg c st r) target =
     (Error t orig msg c st r = target \<or> errors_Is orig target)"
| "errors_Is e target = (e = target)"

lemma responseSnapshot_idem [simp]:
  "responseSnapshot (responseSnapshot r) = responseSnapshot r"
  by (auto simp: responseSnapshot_def split: option.splits)

lemma responseSnapshot_no_payload:
  assumes "responseSnapshot r = Some s"
  shows "Body s = [] \<and> RespHeader s = [] \<and> (\<exists>q. r = Some q \<and> StatusCode s = StatusCode q)"
  using assms
  by (auto simp: responseSnapshot_def fasthttp_Response_zero_def split: option.splits)


section \<open>Helpers (util.go)\<close>

text \<open>The first non-empty string, or the empty one.\<close>

fun StringOR :: "string list \<Rightarrow> string" where
  "StringOR [] = []"
| "StringOR (v # vs) = (if v \<noteq> [] then v else StringOR vs)"

text \<open>
  \<^verbatim>\<open>InArray\<close> searches a slice with \<^verbatim>\<open>reflect.DeepEqual\<close>. A slice argument is
  \<open>Some\<close> of its elements; an argument that is not a slice is \<open>None\<close>.
\<close>

fun InArray_loop :: "'a \<Rightarrow> 'a list \<Rightarrow> int \<Rightarrow> bool \<times> int" where
  "InArray_loop val [] i = (False, -1)"
| "InArray_loop val (x # xs) i = (if val = x then (True, i) else InArray_loop val xs (i + 1))"

definition InArray :: "'a \<Rightarrow> 'a list option \<Rightarrow> bool \<times> int \<times> go_error option" where
  "InArray val array = (case array of
     None \<Rightarrow> (False, 0, Some (ErrorString ''invalid value. expected value type is slice''))
   | Some xs \<Rightarrow> (let (e, i) = InArray_loop val xs 0 in (e, i, None)))"

lemma StringOR_find: "StringOR vs = (case find (\<lambda>v. v \<noteq> []) vs of None \<Rightarrow> [] | Some v \<Rightarrow> v)"
  by (induction vs) auto

lemma InArray_loop_spec:
  "InArray_loop v xs i = (if v \<in> set xs
     then (True, i + int (length (takeWhile (\<lambda>x. x \<noteq> v) xs))) else (False, -1))"
  by (induction xs arbitrary: i) auto


section \<open>Responses of the read node (response.go)\<close>

record 'd Response =
  rsp_Message :: "string option"
  rsp_Data :: "'d option"
  rsp_TotalCount :: uint64
  rsp_Error :: bool
  rsp_Errors :: "(string, string) gomap option"
  rsp_Detail :: "string option"

definition GetMessage :: "'d Response \<Rightarrow> string" where
  "GetMessage r = (case rsp_Message r of Some m \<Rightarrow> m | None \<Rightarrow> [])"

definition GetData :: "'d Response \<Rightarrow> 'd option" where
  "GetData r = (case rsp_Data r of Some d \<Rightarrow> Some d | None \<Rightarrow> None)"

definition GetDetail :: "'d Response \<Rightarrow> string" where
  "GetDetail r = (case rsp_Detail r of Some m \<Rightarrow> m | None \<Rightarrow> [])"

end
