(* ===== verification/Wire_Types.thy ===== *)
theory Wire_Types
  imports Go_Json Errors
begin

text \<open>
  The data the client exchanges with the read node: the transaction types and their
  validity check (\<^verbatim>\<open>transaction.go\<close>), transactions, blocks, name-service entries
  (\<^verbatim>\<open>block.go\<close>, \<^verbatim>\<open>last_block.go\<close>, \<^verbatim>\<open>ns.go\<close>, \<^verbatim>\<open>received.go\<close>), the
  connection modes (\<^verbatim>\<open>mode.go\<close>) and the WebSocket messages with their JSON form
  (\<^verbatim>\<open>message.go\<close>).
\<close>


section \<open>Transaction types\<close>

type_synonym Type = string

definition TypeMaster :: Type where "TypeMaster = ''initial_storage''"
definition TypeAddress :: Type where "TypeAddress = ''interim_storage''"
definition TypeAddresses :: Type where "TypeAddresses = ''interim_storages''"
definition TypeSubMaster :: Type where "TypeSubMaster = ''initial_sub_storage''"
definition TypeSubAddresses :: Type where "TypeSubAddresses = ''interim_sub_storages''"
definition TypeAccount :: Type where "TypeAccount = ''initial_account''"
definition TypeAccountInitialTXS :: Type where "TypeAccountInitialTXS = ''initial_account_txs''"
definition TypeNS :: Type where "TypeNS = ''ns''"
definition TypeMessage :: Type where "TypeMessage = ''message''"
definition TypeMessageSent :: Type where "TypeMessageSent = ''inherit_message''"
definition TypeMessageThreadDelete :: Type where "TypeMessageThreadDelete = ''inherit_message_recv''"
definition TypeTransfer :: Type where "TypeTransfer = ''transfer''"
definition TypeTransferCancel :: Type where "TypeTransferCancel = ''transfer_Cancel''"
definition TypeTransferSent :: Type where "TypeTransferSent = ''transfer_sent''"
definition TypeTransferReceiveDelete :: Type where "TypeTransferReceiveDelete = ''transfer_receive_delete''"
definition TypeTransferInfo :: Type where "TypeTransferInfo = ''transfer_info''"
definition TypeStorage :: Type where "TypeStorage = ''storage''"
definition TypeStorageDelete :: Type where "TypeStorageDelete = ''storage_delete''"
definition TypeBackup :: Type where "TypeBackup = ''backup''"
definition TypeContact :: Type where "TypeContact = ''interim_message''"
definition TypeFileVirtual :: Type where "TypeFileVirtual = ''fs_virt''"
definition TypeFileFs :: Type where "TypeFileFs = ''fs_real''"
definition TypeRfileVirtual :: Type where "TypeRfileVirtual = ''fs_rvirt''"
definition TypeRfileFs :: Type where "TypeRfileFs = ''fs_rreal''"
definition TypeDfileVirtual :: Type where "TypeDfileVirtual = ''fs_dvirt''"
definition TypeDfileFs :: Type where "TypeDfileFs = ''fs_dreal''"
definition TypePfileVirtual :: Type where "TypePfileVirtual = ''fs_pvirt''"
definition TypeRequest :: Type where "TypeRequest = ''request''"
definition TypeRequestIn :: Type where "TypeRequestIn = ''request_in''"
definition TypeRequestUpload :: Type where "TypeRequestUpload = ''request_upload''"
definition TypeRequestCancel :: Type where "TypeRequestCancel = ''request_Cancel''"
definition TypeDataRoom :: Type where "TypeDataRoom = ''data_room''"
definition TypeDataRoomPolicy :: Type where "TypeDataRoomPolicy = ''data_room_policy''"
definition TypeDataRoomF :: Type where "TypeDataRoomF = ''data_roomF''"
definition TypeDataRoomData :: Type where "TypeDataRoomData = ''data_room_data''"
definition TypeDataRoomDataDelete :: Type where "TypeDataRoomDataDelete = ''data_room_data_delete''"
definition TypeDataRoomDataPolicy :: Type where "TypeDataRoomDataPolicy = ''data_room_data_policy''"
definition TypeDataRoomE :: Type where "TypeDataRoomE = ''data_roomE''"
definition TypeDataRoomEData :: Type where "TypeDataRoomEData = ''data_roomE_data''"
definition TypeMultiStorage :: Type where "TypeMultiStorage = ''multi_storage''"
definition TypeMultiTransfer :: Type where "TypeMultiTransfer = ''multi_transfer''"
definition TypeMultiTransferSent :: Type where "TypeMultiTransferSent = ''multi_transfer_sent''"
definition TypeMultiBackup :: Type where "TypeMultiBackup = ''multi_backup''"
definition TypeMultiDataRoom :: Type where "TypeMultiDataRoom = ''multi_data_room''"
definition TypeMultiCollection :: Type where "TypeMultiCollection = ''multi_collection''"
definition TypeMultiDataV2 :: Type where "TypeMultiDataV2 = ''multi_dataV2''"
definition TypeMultiPasswd :: Type where "TypeMultiPasswd = ''multi_passwd''"
definition TypePasswdData :: Type where "TypePasswdData = ''passwd_data''"
definition TypePasswdRoom :: Type where "TypePasswdRoom = ''passwd_room''"
definition TypePasswdRoomPolicy :: Type where "TypePasswdRoomPolicy = ''passwd_room_policy''"
definition TypePasswdRoomF :: Type where "TypePasswdRoomF = ''passwd_roomF''"
definition TypePasswdRoomData :: Type where "TypePasswdRoomData = ''passwd_room_data''"
definition TypePasswdRoomDataDelete :: Type where "TypePasswdRoomDataDelete = ''passwd_room_data_delete''"
definition TypePasswdRoomDataPolicy :: Type where "TypePasswdRoomDataPolicy = ''passwd_room_data_policy''"
definition TypeDataV2 :: Type where "TypeDataV2 = ''datav2''"
definition TypeDataV2Policy :: Type where "TypeDataV2Policy = ''datav2_policy''"
definition TypeCollection :: Type where "TypeCollection = ''coll''"
definition TypeCollectionPolicy :: Type where "TypeCollectionPolicy = ''coll_policy''"
definition TypeCollectionF :: Type where "TypeCollectionF = ''collF''"
definition TypeDataV2Collection :: Type where "TypeDataV2Collection = ''datav2_coll''"
definition TypeDataV2F :: Type where "TypeDataV2F = ''datav2F''"

lemmas type_const_defs =
  TypeMaster_def TypeAddress_def TypeAddresses_def TypeSubMaster_def TypeSubAddresses_def
  TypeAccount_def TypeAccountInitialTXS_def TypeNS_def TypeMessage_def TypeMessageSent_def
  TypeMessageThreadDelete_def TypeTransfer_def TypeTransferCancel_def TypeTransferSent_def
  TypeTransferReceiveDelete_def TypeTransferInfo_def TypeStorage_def TypeStorageDelete_def
  TypeBackup_def TypeContact_def TypeFileVirtual_def TypeFileFs_def TypeRfileVirtual_def
  TypeRfileFs_def TypeDfileVirtual_def TypeDfileFs_def TypePfileVirtual_def TypeRequest_def
  TypeRequestIn_def TypeRequestUpload_def TypeRequestCancel_def TypeDataRoom_def
  TypeDataRoomPolicy_def TypeDataRoomF_def TypeDataRoomData_def TypeDataRoomDataDelete_def
  TypeDataRoomDataPolicy_def TypeDataRoomE_def TypeDataRoomEData_def TypeMultiStorage_def
  TypeMultiTransfer_def TypeMultiTransferSent_def TypeMultiBackup_def TypeMultiDataRoom_def
  TypeMultiCollection_def TypeMultiDataV2_def TypeMultiPasswd_def TypePasswdData_def
  TypePasswdRoom_def TypePasswdRoomPolicy_def TypePasswdRoomF_def TypePasswdRoomData_def
  TypePasswdRoomDataDelete_def TypePasswdRoomDataPolicy_def TypeDataV2_def
  TypeDataV2Policy_def TypeCollection_def TypeCollectionPolicy_def TypeCollectionF_def
  TypeDataV2Collection_def TypeDataV2F_def

definition TypesSlice :: "Type list" where
  "TypesSlice = [TypeMaster, TypeAddress, TypeAddresses, TypeSubMaster, TypeSubAddresses, TypeAccount,
     TypeAccountInitialTXS, TypeNS, TypeMessage, TypeMessageSent, TypeMessageThreadDelete,
     TypeTransfer, TypeTransferCancel, TypeTransferSent, TypeTransferReceiveDelete,
     TypeTransferInfo, TypeStorage, TypeStorageDelete, TypeBackup, TypeContact,
     TypeFileVirtual, TypeFileFs, TypeRfileVirtual, TypeRfileFs, TypeDfileVirtual,
     TypeDfileFs, TypePfileVirtual, TypeRequest, TypeRequestIn, TypeRequestUpload,
     TypeRequestCancel, TypeDataRoom, TypeDataRoomPolicy, TypeDataRoomF, TypeDataRoomData,
     TypeDataRoomDataDelete, TypeDataRoomDataPolicy, TypeDataRoomE, TypeDataRoomEData,
     TypeMultiStorage, TypeMultiTransfer, TypeMultiTransferSent, TypeMultiBackup,
     TypeMultiDataRoom, TypeMultiCollection, TypeMultiDataV2, TypePasswdData,
     TypePasswdRoom, TypePasswdRoomPolicy, TypePasswdRoomF, TypePasswdRoomData,
     TypePasswdRoomDataDelete, TypePasswdRoomDataPolicy, TypeDataV2, TypeDataV2Policy,
     TypeCollection, TypeCollectionPolicy, TypeDataV2Collection, TypeDataV2F,
     TypeMultiPasswd, TypeCollectionF]"

text \<open>The scan of \<^verbatim>\<open>Type.IsValid\<close>: stop at the first entry that is the type.\<close>

fun IsValid_scan :: "Type list \<Rightarrow> Type \<Rightarrow> bool" where
  "IsValid_scan [] t = False"
| "IsValid_scan (x # xs) t = (if x = t then True else IsValid_scan xs t)"

definition Type_IsValid :: "Type \<Rightarrow> bool" where
  "Type_IsValid t = IsValid_scan TypesSlice t"

lemma IsValid_scan_iff: "IsValid_scan xs t \<longleftrightarrow> t \<in> set xs"
  by (induction xs) auto

lemma Type_IsValid_iff: "Type_IsValid t \<longleftrightarrow> t \<in> set TypesSlice"
  by (simp add: Type_IsValid_def IsValid_scan_iff)

lemma Type_IsValid_nonempty: "Type_IsValid t \<Longrightarrow> t \<noteq> []"
  by (auto simp: Type_IsValid_iff TypesSlice_def type_const_defs)


section \<open>Transactions, blocks and names\<close>

record Bytea =
  ba_Bytes :: "bytes option"
  ba_Status :: int

text \<open>
  \<^verbatim>\<open>ID\<close> is an interface value: whatever JSON value the node sent. The time stamp is
  kept as its RFC 3339 text.
\<close>

record Transaction =
  tx_Order :: "uint64 option"
  tx_ID :: json
  tx_Height :: uint64
  tx_Identifier :: string
  tx_Version :: uint64
  tx_Typ :: Type
  tx_SenderAddr :: string
  tx_RecipientAddr :: string
  tx_Data :: Bytea
  tx_AdditionalData :: "Bytea option"
  tx_CipherData :: "Bytea option"
  tx_Sign :: Bytea
  tx_Fee :: uint64
  tx_Hash :: string
  tx_InsertedAt :: string

record Block =
  bl_Height :: uint64
  bl_TXS :: int
  bl_Hash :: "string option"
  bl_Transactions :: "Transaction option list option"
  bl_ChainName :: "string option"
  bl_ChainVersion :: "string option"

record LastBlock =
  lb_Blocks :: "Transaction option list option"
  lb_TotalCount :: uint64

record NS =
  ns_Identifier :: string
  ns_PublicIDs :: "string list option"


section \<open>Modes and messages\<close>

datatype Mode = Subscription | Listen | Push

text \<open>The state of an acknowledgement is an integer on the wire; two values have a name.\<close>

type_synonym State = int

definition OK :: State where "OK = 1"
definition Fail :: State where "Fail = 2"

type_synonym MessageType = string

definition SubscribeMessage :: MessageType where "SubscribeMessage = ''subscribe''"
definition UnsubscribeMessage :: MessageType where "UnsubscribeMessage = ''unsubscribe''"
definition ListenMessage :: MessageType where "ListenMessage = ''listen''"

lemmas message_type_defs = SubscribeMessage_def UnsubscribeMessage_def ListenMessage_def

record Message =
  msg_ClientInstanceID :: string
  msg_IsWeb :: bool
  msg_Type :: MessageType
  msg_Addrs :: "string list option"
  msg_SignedAddrs :: "(string, string) gomap option"
  msg_TXTypes :: "Type list option"
  msg_Data :: "bytes option"

text \<open>Two structs that the package declares and no code of it uses.\<close>

record IncomingMessage =
  im_Type :: json
  im_Data :: json
  im_State :: "State option"

record Received =
  rc_MessageType :: int
  rc_ReadingMessage :: "bytes option"
  rc_Err :: "go_error option"

text \<open>The zero value of the message: what a composite literal leaves out.\<close>

definition Message_zero :: Message where
  "Message_zero = \<lparr>msg_ClientInstanceID = [], msg_IsWeb = False, msg_Type = [], msg_Addrs = None,
     msg_SignedAddrs = None, msg_TXTypes = None, msg_Data = None\<rparr>"

definition json_of_Message :: "Message \<Rightarrow> json" where
  "json_of_Message m = JObj (
     field_unless (msg_ClientInstanceID m = []) ''client_instance_id'' (JStr (msg_ClientInstanceID m)) @
     field ''is_web'' (JBool (msg_IsWeb m)) @
     field ''type'' (JStr (msg_Type m)) @
     field ''addrs'' (j_strings (msg_Addrs m)) @
     field ''signed_addrs'' (j_string_map (msg_SignedAddrs m)) @
     field ''tx_types'' (j_strings (msg_TXTypes m)) @
     field_unless (msg_Data m \<in> {None, Some []}) ''data'' (j_bytes (msg_Data m)))"

definition marshal_Message :: "Message \<Rightarrow> bytes" where
  "marshal_Message m = json_Marshal (json_of_Message m)"

end
