(* ===== verification/Requests.thy ===== *)
theory Requests
  imports Wire_Types
begin

text \<open>
  \<^verbatim>\<open>search.go\<close>, \<^verbatim>\<open>summary.go\<close> and \<^verbatim>\<open>broadcast.go\<close>: the three request bodies,
  their validation and their JSON form, and the HTTP request they are put into. The header
  of a request belongs to \<^verbatim>\<open>fasthttp\<close>, so its operations are a parameter
  (\<open>header_ops\<close>) of every definition that uses them.
\<close>


section \<open>Requests as they are handed to fasthttp\<close>

record 'h header_ops =
  h_empty :: 'h
  h_Set :: "string \<Rightarrow> string \<Rightarrow> 'h \<Rightarrow> 'h"
  h_Add :: "string \<Rightarrow> string \<Rightarrow> 'h \<Rightarrow> 'h"
  h_Del :: "string \<Rightarrow> 'h \<Rightarrow> 'h"
  h_All :: "'h \<Rightarrow> (string \<times> string) list"

text \<open>
  The values the client gives to the setters of a request and of its URI. A method that is
  never set is \<open>None\<close>.
\<close>

record 'h http_request =
  req_Method :: "string option"
  req_Scheme :: string
  req_Host :: string
  req_Path :: string
  req_Query :: string
  req_Header :: 'h
  req_Body :: bytes

definition AcquireRequest :: "'h header_ops \<Rightarrow> 'h http_request" where
  "AcquireRequest H = \<lparr>req_Method = None, req_Scheme = [], req_Host = [], req_Path = [],
     req_Query = [], req_Header = h_empty H, req_Body = []\<rparr>"

definition slice_len :: "'a list option \<Rightarrow> nat" where
  "slice_len xs = (case xs of None \<Rightarrow> 0 | Some l \<Rightarrow> length l)"

definition slice_elems :: "'a list option \<Rightarrow> 'a list" where
  "slice_elems xs = (case xs of None \<Rightarrow> [] | Some l \<Rightarrow> l)"


lemma slice_elems_simps [simp]: "slice_elems None = []" "slice_elems (Some l) = l"
  by (simp_all add: slice_elems_def)

lemma slice_len_elems: "slice_len xs = length (slice_elems xs)"
  by (simp add: slice_len_def slice_elems_def split: option.split)


section \<open>Search (search.go)\<close>

type_synonym OrderBy = string
type_synonym HeightOperator = string

definition ASC :: OrderBy where "ASC = ''ASC''"
definition DESC :: OrderBy where "DESC = ''DESC''"

definition OrderBy_IsValid :: "OrderBy \<Rightarrow> bool" where
  "OrderBy_IsValid t = (if t = ASC then True else if t = DESC then True else False)"

definition Equal :: HeightOperator where "Equal = ''=''"
definition Less :: HeightOperator where "Less = ''<''"
definition Greater :: HeightOperator where "Greater = ''>''"
definition EqualOrLess :: HeightOperator where "EqualOrLess = ''<=''"
definition EqualOrGreater :: HeightOperator where "EqualOrGreater = ''>=''"

lemmas height_operator_defs = Equal_def Less_def Greater_def EqualOrLess_def EqualOrGreater_def

definition HeightOperator_IsValid :: "HeightOperator \<Rightarrow> bool" where
  "HeightOperator_IsValid ho =
     (if ho = Equal then True
      else if ho = Less then True
      else if ho = Greater then True
      else if ho = EqualOrLess then True
      else if ho = EqualOrGreater then True
      else False)"

record Search =
  s_Limit :: uint64
  s_Height :: uint64
  s_Offset :: uint64
  s_MaxHeight :: uint64
  s_LastOrder :: uint64
  s_Type :: Type
  s_Types :: "Type list option"
  s_PHeight :: string
  s_OrderBy :: OrderBy
  s_OrderField :: string
  s_HeightOperator :: HeightOperator
  s_RecipientAddresses :: "string list option"
  s_SenderAddresses :: "string list option"
  s_SignedAddresses :: "(string, string) gomap option"
  s_Hashes :: "string list option"
  s_ChainName :: "string option"
  s_ChainVersion :: "string option"

definition Search_URI :: "Search \<Rightarrow> string" where
  "Search_URI s = ''/v1/tx_search/p''"

text \<open>The loop over \<^verbatim>\<open>s.Types\<close>: false at the first invalid entry.\<close>

fun all_types_valid :: "Type list \<Rightarrow> bool" where
  "all_types_valid [] = True"
| "all_types_valid (t # ts) = (if \<not> Type_IsValid t then False else all_types_valid ts)"

definition Search_IsValid :: "Search \<Rightarrow> bool" where
  "Search_IsValid s =
     (if s_Height s < 0 then False
      else if \<not> HeightOperator_IsValid (s_HeightOperator s) then False
      else if slice_len (s_SignedAddresses s) = 0 then False
      else if slice_len (s_RecipientAddresses s) > 251 then False
      else if slice_len (s_SenderAddresses s) > 251 then False
      else if slice_len (s_RecipientAddresses s) > 0 \<and>
              slice_len (s_SignedAddresses s) \<noteq> slice_len (s_RecipientAddresses s) then False
      else if slice_len (s_SenderAddresses s) > 0 \<and>
              slice_len (s_SignedAddresses s) \<noteq> slice_len (s_SenderAddresses s) then False
      else if slice_len (s_Hashes s) > 100 then False
      else if s_Type s \<noteq> [] \<and> \<not> Type_IsValid (s_Type s) then False
      else if slice_len (s_Types s) > 0 \<and> \<not> all_types_valid (slice_elems (s_Types s)) then False
      else if s_Limit s > 100 then False
      else if s_OrderBy s \<noteq> [] \<and> \<not> OrderBy_IsValid (s_OrderBy s) then False
      else True)"

text \<open>\<^verbatim>\<open>fmt.Sprintf("%s %d", s.HeightOperator, s.Height)\<close>\<close>

definition Search_PHeight :: "Search \<Rightarrow> string" where
  "Search_PHeight s = s_HeightOperator s @ CHR '' '' # dec_nat (unat (s_Height s))"

definition json_of_Search :: "Search \<Rightarrow> json" where
  "json_of_Search s = JObj (
     field ''limit'' (j_nat (unat (s_Limit s))) @
     field ''offset'' (j_nat (unat (s_Offset s))) @
     field ''max_height'' (j_nat (unat (s_MaxHeight s))) @
     field ''last_order'' (j_nat (unat (s_LastOrder s))) @
     field_unless (s_Type s = []) ''typ'' (JStr (s_Type s)) @
     field_unless (slice_len (s_Types s) = 0) ''types'' (j_strings (s_Types s)) @
     field_unless (s_PHeight s = []) ''height'' (JStr (s_PHeight s)) @
     field_unless (s_OrderBy s = []) ''order_by'' (JStr (s_OrderBy s)) @
     field_unless (s_OrderField s = []) ''order_field'' (JStr (s_OrderField s)) @
     field_unless (slice_len (s_RecipientAddresses s) = 0) ''recipient_addrs''
       (j_strings (s_RecipientAddresses s)) @
     field_unless (slice_len (s_SenderAddresses s) = 0) ''sender_addrs''
       (j_strings (s_SenderAddresses s)) @
     field_unless (slice_len (s_SignedAddresses s) = 0) ''signed_addrs''
       (j_string_map (s_SignedAddresses s)) @
     field_unless (slice_len (s_Hashes s) = 0) ''hashes'' (j_strings (s_Hashes s)) @
     field_unless (s_ChainName s = None) ''chain_name'' (j_ptr_string (s_ChainName s)) @
     field_unless (s_ChainVersion s = None) ''chain_version'' (j_ptr_string (s_ChainVersion s)))"

text \<open>The caller's struct is copied; only the copy gets the rendered height.\<close>

definition Search_ToJSON :: "Search \<Rightarrow> bytes result" where
  "Search_ToJSON s0 = (let s = s0\<lparr>s_PHeight := Search_PHeight s0\<rparr>
     in Inr (json_Encode_raw (json_of_Search s)))"

definition Search_ToRequest :: "'h header_ops \<Rightarrow> Search \<Rightarrow> 'h http_request result" where
  "Search_ToRequest H s = (case Search_ToJSON s of Inl e \<Rightarrow> Inl e
     | Inr b \<Rightarrow> Inr ((AcquireRequest H)\<lparr>req_Body := b\<rparr>))"

record SearchResponse =
  sr_TXS :: "Transaction option list option"
  sr_TotalCount :: uint64


section \<open>Summary (summary.go)\<close>

record Summary =
  sm_RecipientAddresses :: "string list option"
  sm_SenderAddresses :: "string list option"
  sm_Type :: Type
  sm_ChainName :: "string option"
  sm_ChainVersion :: "string option"
  sm_SignedAddresses :: "(string, string) gomap option"

definition Summary_URI :: "Summary \<Rightarrow> string" where
  "Summary_URI s = ''/v1/tx_summary''"

definition Summary_IsValid :: "Summary \<Rightarrow> bool" where
  "Summary_IsValid s =
     (if slice_len (sm_RecipientAddresses s) > 251 then False
      else if slice_len (sm_SenderAddresses s) > 251 then False
      else if slice_len (sm_RecipientAddresses s) > 0 \<and>
              slice_len (sm_RecipientAddresses s) \<noteq> slice_len (sm_SignedAddresses s) then False
      else if slice_len (sm_SenderAddresses s) > 0 \<and>
              slice_len (sm_SenderAddresses s) \<noteq> slice_len (sm_SignedAddresses s) then False
      else if sm_Type s \<noteq> [] \<and> \<not> Type_IsValid (sm_Type s) then False
      else True)"

definition json_of_Summary :: "Summary \<Rightarrow> json" where
  "json_of_Summary s = JObj (
     field_unless (slice_len (sm_RecipientAddresses s) = 0) ''recipient_addrs''
       (j_strings (sm_RecipientAddresses s)) @
     field_unless (slice_len (sm_SenderAddresses s) = 0) ''sender_addrs''
       (j_strings (sm_SenderAddresses s)) @
     field_unless (sm_Type s = []) ''typ'' (JStr (sm_Type s)) @
     field_unless (sm_ChainName s = None) ''chain_name'' (j_ptr_string (sm_ChainName s)) @
     field_unless (sm_ChainVersion s = None) ''chain_version'' (j_ptr_string (sm_ChainVersion s)) @
     field_unless (slice_len (sm_SignedAddresses s) = 0) ''signed_addrs''
       (j_string_map (sm_SignedAddresses s)))"

definition Summary_ToJSON :: "Summary \<Rightarrow> bytes result" where
  "Summary_ToJSON s = Inr (json_Marshal (json_of_Summary s))"

definition Summary_ToRequest :: "'h header_ops \<Rightarrow> Summary \<Rightarrow> 'h http_request result" where
  "Summary_ToRequest H s = (case Summary_ToJSON s of Inl e \<Rightarrow> Inl e
     | Inr b \<Rightarrow> Inr ((AcquireRequest H)\<lparr>req_Body := b\<rparr>))"

record SummaryResponse =
  smr_LastBlockHeight :: uint64
  smr_LastTransaction :: "Transaction option"
  smr_TotalCount :: uint64


section \<open>Broadcast (broadcast.go)\<close>

record Broadcast =
  b_ID :: string
  b_Version :: uint32
  b_Type :: Type
  b_SenderAddr :: string
  b_RecipientAddr :: string
  b_Data :: "bytes option"
  b_AdditionalData :: "bytes option option"
  b_CipherData :: "bytes option option"
  b_Sign :: "bytes option"
  b_Fee :: uint64

definition Broadcast_URI :: "Broadcast \<Rightarrow> bool \<Rightarrow> bool \<Rightarrow> string" where
  "Broadcast_URI b commit sync =
     (if commit then ''/v1/tx/commit''
      else if sync then ''/v1/tx/sync''
      else ''/v1/tx'')"

text \<open>A pointer to a byte slice prints as the slice it points to.\<close>

definition j_ptr_bytes :: "bytes option option \<Rightarrow> json" where
  "j_ptr_bytes p = (case p of None \<Rightarrow> JNull | Some b \<Rightarrow> j_bytes b)"

definition json_of_Broadcast :: "Broadcast \<Rightarrow> json" where
  "json_of_Broadcast b = JObj (
     field ''id'' (JStr (b_ID b)) @
     field ''version'' (j_nat (unat (b_Version b))) @
     field ''type'' (JStr (b_Type b)) @
     field ''sender_addr'' (JStr (b_SenderAddr b)) @
     field ''recipient_addr'' (JStr (b_RecipientAddr b)) @
     field ''data'' (j_bytes (b_Data b)) @
     field_unless (b_AdditionalData b = None) ''additional_data'' (j_ptr_bytes (b_AdditionalData b)) @
     field_unless (b_CipherData b = None) ''cipher_data'' (j_ptr_bytes (b_CipherData b)) @
     field ''sign'' (j_bytes (b_Sign b)) @
     field ''fee'' (j_nat (unat (b_Fee b))))"

definition Broadcast_ToJSON :: "Broadcast \<Rightarrow> bytes result" where
  "Broadcast_ToJSON b = Inr (json_Marshal (json_of_Broadcast b))"

definition Broadcast_ToRequest :: "'h header_ops \<Rightarrow> Broadcast \<Rightarrow> 'h http_request result" where
  "Broadcast_ToRequest H b = (case Broadcast_ToJSON b of Inl e \<Rightarrow> Inl e
     | Inr body \<Rightarrow> Inr ((AcquireRequest H)\<lparr>req_Body := body\<rparr>))"

record BroadcastResponse =
  br_Hash :: string
  br_Code :: uint32
  br_Data :: "bytes option"
  br_Log :: string
  br_Codespace :: string


section \<open>What validation guarantees\<close>

lemma all_types_valid_iff: "all_types_valid ts \<longleftrightarrow> (\<forall>t \<in> set ts. Type_IsValid t)"
  by (induction ts) auto

lemma slice_elems_empty: "slice_len xs = 0 \<Longrightarrow> slice_elems xs = []"
  by (auto simp: slice_len_def slice_elems_def split: option.splits)

lemma HeightOperator_no_space: "HeightOperator_IsValid ho \<Longrightarrow> CHR '' '' \<notin> set ho"
  by (auto simp: HeightOperator_IsValid_def height_operator_defs split: if_splits)

lemma Search_IsValid_types:
  assumes "Search_IsValid s" "t \<in> set (slice_elems (s_Types s))"
  shows "Type_IsValid t"
proof (cases "slice_len (s_Types s) = 0")
  case True
  then show ?thesis using assms(2) by (simp add: slice_elems_empty)
next
  case False
  then show ?thesis using assms
    by (auto simp: Search_IsValid_def all_types_valid_iff split: if_splits)
qed



text \<open>A search at which the properties are evaluated.\<close>

definition example_search :: Search where
  "example_search = \<lparr>s_Limit = 10, s_Height = 42, s_Offset = 0, s_MaxHeight = 0, s_LastOrder = 0,
     s_Type = [], s_Types = Some [TypeTransfer], s_PHeight = ''ignored'', s_OrderBy = ASC, s_OrderField = [],
     s_HeightOperator = EqualOrGreater, s_RecipientAddresses = Some [''r''], s_SenderAddresses = None,
     s_SignedAddresses = Some [(''r'', ''sig'')], s_Hashes = None, s_ChainName = None, s_ChainVersion = None\<rparr>"

lemma example_search_valid: "Search_IsValid example_search"
  by (simp add: Search_IsValid_def example_search_def HeightOperator_IsValid_def height_operator_defs
      slice_len_def OrderBy_IsValid_def ASC_def DESC_def Type_IsValid_iff TypesSlice_def)


section \<open>Properties\<close>

text \<open>
  C37. A search that passes validation stays within the limits of the read node: at most 100
  results and 100 hashes, at most 251 recipients and senders, as many signatures as there
  are recipients and as there are senders (and at least one), and only known transaction
  types and orders.
\<close>

theorem Search_IsValid_limits:
  assumes "Search_IsValid s"
  shows "s_Limit s \<le> 100 \<and> slice_len (s_Hashes s) \<le> 100 \<and>
    1 \<le> slice_len (s_SignedAddresses s) \<and>
    slice_len (s_RecipientAddresses s) \<in> {0, slice_len (s_SignedAddresses s)} \<and>
    slice_len (s_SenderAddresses s) \<in> {0, slice_len (s_SignedAddresses s)} \<and>
    slice_len (s_RecipientAddresses s) \<le> 251 \<and> slice_len (s_SenderAddresses s) \<le> 251 \<and>
    set (slice_elems (s_Types s)) \<union> ({s_Type s} - {[]}) \<subseteq> set TypesSlice \<and>
    s_OrderBy s \<in> {[], ''ASC'', ''DESC''} \<and> s_HeightOperator s \<in> {''='', ''<'', ''>'', ''<='', ''>=''}"
proof -
  have "set (slice_elems (s_Types s)) \<subseteq> set TypesSlice"
    using Search_IsValid_types [OF assms] by (auto simp: Type_IsValid_iff)
  moreover have "{s_Type s} - {[]} \<subseteq> set TypesSlice"
    using assms by (auto simp: Search_IsValid_def Type_IsValid_iff split: if_splits)
  moreover have "s_OrderBy s \<in> {[], ''ASC'', ''DESC''}"
    using assms by (auto simp: Search_IsValid_def OrderBy_IsValid_def ASC_def DESC_def split: if_splits)
  moreover have "s_HeightOperator s \<in> {''='', ''<'', ''>'', ''<='', ''>=''}"
    using assms by (auto simp: Search_IsValid_def HeightOperator_IsValid_def height_operator_defs split: if_splits)
  moreover have "s_Limit s \<le> 100" "slice_len (s_Hashes s) \<le> 100" "1 \<le> slice_len (s_SignedAddresses s)"
    "slice_len (s_RecipientAddresses s) \<le> 251" "slice_len (s_SenderAddresses s) \<le> 251"
    "slice_len (s_RecipientAddresses s) \<in> {0, slice_len (s_SignedAddresses s)}"
    "slice_len (s_SenderAddresses s) \<in> {0, slice_len (s_SignedAddresses s)}"
    using assms by (auto simp: Search_IsValid_def not_less split: if_splits)
  ultimately show ?thesis by blast
qed

theorem Search_IsValid_limits_witness:
  "Search_IsValid example_search \<and> s_Limit example_search \<le> 100"
  using example_search_valid Search_IsValid_limits [OF example_search_valid] by blast

text \<open>
  C38. The rendered height condition is unambiguous: among valid searches, two render to the
  same text exactly when they have the same operator and the same height.
\<close>

theorem Search_PHeight_unambiguous:
  assumes "Search_IsValid s" "Search_IsValid t"
  shows "Search_PHeight s = Search_PHeight t \<longleftrightarrow>
    s_HeightOperator s = s_HeightOperator t \<and> s_Height s = s_Height t"
proof -
  have op: "CHR '' '' \<notin> set (s_HeightOperator u)" if "Search_IsValid u" for u
    using that HeightOperator_no_space by (auto simp: Search_IsValid_def split: if_splits)
  have "dec_nat (unat (s_Height s)) = dec_nat (unat (s_Height t)) \<longleftrightarrow> s_Height s = s_Height t"
    by (metis dec_value_dec_nat unsigned_word_eqI)
  then show ?thesis
    using append_sep_eq_iff [OF op op] assms by (simp add: Search_PHeight_def)
qed

theorem Search_PHeight_unambiguous_witness:
  "Search_PHeight example_search \<noteq> Search_PHeight (example_search\<lparr>s_Height := 43\<rparr>)"
proof -
  have "Search_IsValid (example_search\<lparr>s_Height := 43\<rparr>)"
    by (simp add: Search_IsValid_def example_search_def HeightOperator_IsValid_def height_operator_defs
        slice_len_def OrderBy_IsValid_def ASC_def DESC_def Type_IsValid_iff TypesSlice_def)
  from Search_PHeight_unambiguous [OF example_search_valid this] show ?thesis
    by (simp add: example_search_def)
qed

end
