(* ===== verification/Go_Json_Parse.thy ===== *)
theory Go_Json_Parse
  imports Go_Json
begin

text \<open>
  What the client uses of \<^verbatim>\<open>encoding/json\<close> to read messages: the scanner, which accepts
  exactly the JSON texts that Go accepts (with its limit on nesting), and the values that
  come out of it. A string, and the key of an object member, is kept as the raw text between
  its quotes, as \<^verbatim>\<open>json.RawMessage\<close> keeps it; \<open>unquote\<close> decodes it.
\<close>


section \<open>Raw values\<close>

datatype jraw =
    RNull
  | RBool bool
  | RNum string
  | RStr string
  | RArr "jraw list"
  | RObj "(string \<times> jraw) list"

definition is_ws :: "char \<Rightarrow> bool" where
  "is_ws c \<longleftrightarrow> (of_char c :: nat) \<in> {9, 10, 13, 32}"

definition skip_ws :: "string \<Rightarrow> string" where
  "skip_ws s = dropWhile is_ws s"

definition is_hex :: "char \<Rightarrow> bool" where
  "is_hex c \<longleftrightarrow> hexval c \<noteq> None"

text \<open>The text of a string literal after its opening quote, up to the closing one.\<close>

fun scan_string :: "string \<Rightarrow> (string \<times> string) option" where
  "scan_string [] = None"
| "scan_string (c # s) =
     (if c = dquote then Some ([], s)
      else if c = backslash then
        (case s of
           [] \<Rightarrow> None
         | e # r \<Rightarrow>
             if e \<in> set [dquote, backslash, CHR ''/'', CHR ''b'', CHR ''f'', CHR ''n'', CHR ''r'', CHR ''t'']
             then map_option (\<lambda>(b, r). (c # e # b, r)) (scan_string r)
             else if e = CHR ''u'' \<and> 4 \<le> length r \<and> list_all is_hex (take 4 r)
             then map_option (\<lambda>(b, q). (c # e # take 4 r @ b, q)) (scan_string (drop 4 r))
             else None)
      else if (of_char c :: nat) < 32 then None
      else map_option (\<lambda>(b, r). (c # b, r)) (scan_string s))"

text \<open>
  A number literal: an optional sign, an integer part without leading zeros, an optional
  fraction and an optional exponent.
\<close>

definition scan_digits :: "string \<Rightarrow> (string \<times> string) option" where
  "scan_digits s = (if takeWhile is_digit s = [] then None else Some (takeWhile is_digit s, dropWhile is_digit s))"

definition scan_int :: "string \<Rightarrow> (string \<times> string) option" where
  "scan_int s = (case s of
     [] \<Rightarrow> None
   | c # r \<Rightarrow> if c = CHR ''0'' then Some ([c], r) else scan_digits s)"

definition scan_frac :: "string \<Rightarrow> (string \<times> string) option" where
  "scan_frac s = (case s of
     [] \<Rightarrow> Some ([], s)
   | c # r \<Rightarrow> if c = CHR ''.'' then map_option (\<lambda>(d, q). (c # d, q)) (scan_digits r) else Some ([], s))"

definition scan_exp :: "string \<Rightarrow> (string \<times> string) option" where
  "scan_exp s = (case s of
     [] \<Rightarrow> Some ([], s)
   | c # r \<Rightarrow>
       if c = CHR ''e'' \<or> c = CHR ''E'' then
         (case r of
            [] \<Rightarrow> None
          | d # q \<Rightarrow>
              if d = CHR ''+'' \<or> d = CHR ''-'' then map_option (\<lambda>(x, t). (c # d # x, t)) (scan_digits q)
              else map_option (\<lambda>(x, t). (c # x, t)) (scan_digits r))
       else Some ([], s))"

definition scan_unsigned :: "string \<Rightarrow> (string \<times> string) option" where
  "scan_unsigned s =
     (case scan_int s of None \<Rightarrow> None | Some (i, s1) \<Rightarrow>
     (case scan_frac s1 of None \<Rightarrow> None | Some (f, s2) \<Rightarrow>
     (case scan_exp s2 of None \<Rightarrow> None | Some (e, s3) \<Rightarrow> Some (i @ f @ e, s3))))"

definition scan_number :: "string \<Rightarrow> (string \<times> string) option" where
  "scan_number s = (case s of
     [] \<Rightarrow> None
   | c # r \<Rightarrow> if c = CHR ''-'' then map_option (\<lambda>(n, q). (c # n, q)) (scan_unsigned r) else scan_unsigned s)"

definition scan_literal :: "string \<Rightarrow> jraw \<Rightarrow> string \<Rightarrow> (jraw \<times> string) option" where
  "scan_literal w v s = (if take (length w) s = w then Some (v, drop (length w) s) else None)"

definition maxNestingDepth :: nat where "maxNestingDepth = 10000"

lemma length_skip_ws: "length (skip_ws s) \<le> length s"
  by (simp add: skip_ws_def length_dropWhile_le)

lemma skip_ws_decreases: "length q < n \<Longrightarrow> 2 * length (skip_ws q) < Suc (2 * n)"
  using length_skip_ws [of q] by simp

text \<open>
  Values, the elements of an array after its bracket or a comma, and the members of an object
  after its brace or a comma. \<open>d\<close> is the number of brackets and braces that are open. The
  test on the length of the rest is always true and makes the recursion visibly decrease.
\<close>

function (sequential) scan_value :: "nat \<Rightarrow> string \<Rightarrow> (jraw \<times> string) option"
  and scan_elems :: "nat \<Rightarrow> string \<Rightarrow> (jraw list \<times> string) option"
  and scan_members :: "nat \<Rightarrow> string \<Rightarrow> ((string \<times> jraw) list \<times> string) option" where
  "scan_value d s =
     (case s of
        [] \<Rightarrow> None
      | c # r \<Rightarrow>
          if c = CHR ''{'' then
            (if maxNestingDepth \<le> d then None
             else if skip_ws r \<noteq> [] \<and> hd (skip_ws r) = CHR ''}'' then Some (RObj [], tl (skip_ws r))
             else map_option (\<lambda>(ms, q). (RObj ms, q)) (scan_members (Suc d) r))
          else if c = CHR ''['' then
            (if maxNestingDepth \<le> d then None
             else if skip_ws r \<noteq> [] \<and> hd (skip_ws r) = CHR '']'' then Some (RArr [], tl (skip_ws r))
             else map_option (\<lambda>(vs, q). (RArr vs, q)) (scan_elems (Suc d) r))
          else if c = dquote then map_option (\<lambda>(b, q). (RStr b, q)) (scan_string r)
          else if c = CHR ''n'' then scan_literal ''null'' RNull s
          else if c = CHR ''t'' then scan_literal ''true'' (RBool True) s
          else if c = CHR ''f'' then scan_literal ''false'' (RBool False) s
          else map_option (\<lambda>(n, q). (RNum n, q)) (scan_number s))"
| "scan_elems d s =
     (case scan_value d (skip_ws s) of
        None \<Rightarrow> None
      | Some (v, r) \<Rightarrow>
          (case skip_ws r of
             [] \<Rightarrow> None
           | c # q \<Rightarrow>
               if c = CHR '']'' then Some ([v], q)
               else if c = CHR '','' \<and> length q < length s
               then map_option (\<lambda>(vs, t). (v # vs, t)) (scan_elems d q)
               else None))"
| "scan_members d s =
     (case skip_ws s of
        [] \<Rightarrow> None
      | c0 # s0 \<Rightarrow>
          if c0 \<noteq> dquote then None
          else (case scan_string s0 of
             None \<Rightarrow> None
           | Some (k, s1) \<Rightarrow>
               (case skip_ws s1 of
                  [] \<Rightarrow> None
                | c1 # s2 \<Rightarrow>
                    if c1 \<noteq> CHR '':'' \<or> \<not> length s2 < length s then None
                    else (case scan_value d (skip_ws s2) of
                       None \<Rightarrow> None
                     | Some (v, r) \<Rightarrow>
                         (case skip_ws r of
                            [] \<Rightarrow> None
                          | c # q \<Rightarrow>
                              if c = CHR ''}'' then Some ([(k, v)], q)
                              else if c = CHR '','' \<and> length q < length s
                              then map_option (\<lambda>(ms, t). ((k, v) # ms, t)) (scan_members d q)
                              else None)))))"
  by pat_completeness auto

termination
  by (relation "measure (\<lambda>x. case x of Inl (d, s) \<Rightarrow> 2 * length s
        | Inr (Inl (d, s)) \<Rightarrow> 2 * length s + 1 | Inr (Inr (d, s)) \<Rightarrow> 2 * length s + 1)")
    (auto simp: le_imp_less_Suc length_skip_ws skip_ws_decreases)

declare scan_value.simps [simp del] scan_elems.simps [simp del] scan_members.simps [simp del]

text \<open>The whole text is one value, with white space around it.\<close>

definition json_Parse :: "string \<Rightarrow> jraw option" where
  "json_Parse s = (case scan_value 0 (skip_ws s) of
     None \<Rightarrow> None
   | Some (v, r) \<Rightarrow> if skip_ws r = [] then Some v else None)"



section \<open>Decoding string literals\<close>

definition utf8_encode :: "nat \<Rightarrow> string" where
  "utf8_encode n =
     (if n < 128 then [char_of n]
      else if n < 2048 then [char_of (192 + n div 64), char_of (128 + n mod 64)]
      else if 1114111 < n \<or> 55296 \<le> n \<and> n \<le> 57343
      then [char_of (239 :: nat), char_of (191 :: nat), char_of (189 :: nat)]
      else if n < 65536
      then [char_of (224 + n div 4096), char_of (128 + n div 64 mod 64), char_of (128 + n mod 64)]
      else [char_of (240 + n div 262144), char_of (128 + n div 4096 mod 64),
            char_of (128 + n div 64 mod 64), char_of (128 + n mod 64)])"

definition replacement_char :: string where
  "replacement_char = utf8_encode 65533"

definition hex4 :: "string \<Rightarrow> nat" where
  "hex4 s = foldl (\<lambda>a c. 16 * a + (case hexval c of Some x \<Rightarrow> x | None \<Rightarrow> 0)) 0 (take 4 s)"

text \<open>\<^verbatim>\<open>getu4\<close>: the code of an escape of the form backslash, u and four hex digits.\<close>

definition getu4 :: "string \<Rightarrow> nat option" where
  "getu4 s = (case s of
     c # e # r \<Rightarrow> if c = backslash \<and> e = CHR ''u'' \<and> 4 \<le> length r \<and> list_all is_hex (take 4 r)
       then Some (hex4 r) else None
   | _ \<Rightarrow> None)"

definition is_surrogate :: "nat \<Rightarrow> bool" where
  "is_surrogate n \<longleftrightarrow> 55296 \<le> n \<and> n < 57344"

text \<open>\<^verbatim>\<open>utf16.DecodeRune\<close>: a high and a low surrogate make one code point.\<close>

definition decode_surrogates :: "nat \<Rightarrow> nat \<Rightarrow> nat option" where
  "decode_surrogates a b =
     (if 55296 \<le> a \<and> a < 56320 \<and> 56320 \<le> b \<and> b < 57344
      then Some ((a - 55296) * 1024 + (b - 56320) + 65536) else None)"

definition unescape :: "char \<Rightarrow> char" where
  "unescape e =
     (if e = CHR ''b'' then char_of (8 :: nat)
      else if e = CHR ''f'' then char_of (12 :: nat)
      else if e = CHR ''n'' then char_of (10 :: nat)
      else if e = CHR ''r'' then char_of (13 :: nat)
      else if e = CHR ''t'' then char_of (9 :: nat)
      else e)"

function unquote :: "string \<Rightarrow> string" where
  "unquote [] = []"
| "unquote (c # s) =
     (if c = backslash then
        (case s of
           [] \<Rightarrow> []
         | e # r \<Rightarrow>
             if e = CHR ''u'' then
               (case decode_surrogates (hex4 r) (case getu4 (drop 4 r) of None \<Rightarrow> 0 | Some n \<Rightarrow> n) of
                  Some n \<Rightarrow> utf8_encode n @ unquote (drop 10 r)
                | None \<Rightarrow> utf8_encode (if is_surrogate (hex4 r) then 65533 else hex4 r) @ unquote (drop 4 r))
             else unescape e # unquote r)
      else if (of_char c :: nat) < 128 then c # unquote s
      else (case utf8_len (c # s) of
              None \<Rightarrow> replacement_char @ unquote s
            | Some k \<Rightarrow> take k (c # s) @ unquote (drop k (c # s))))"
  by pat_completeness auto
termination
  by (relation "measure length") (auto dest: utf8_len_bounds)

declare unquote.simps [simp del]

lemma unquote_Nil [simp]: "unquote [] = []"
  by (simp add: unquote.simps)


section \<open>Progress of the scanner\<close>

lemma scan_string_split: "scan_string s = Some (b, r) \<Longrightarrow> s = b @ dquote # r"
proof (induction s arbitrary: b r rule: scan_string.induct)
  case 1
  then show ?case by simp
next
  case (2 c s)
  show ?case
  proof (cases "c = backslash")
    case True
    then obtain e t where s: "s = e # t" using 2(4) by (cases s) (auto simp: dquote_def backslash_def)
    have split: "t = take 4 t @ x" if "drop 4 t = x" for x
      using that append_take_drop_id [of 4 t] by simp
    show ?thesis
      using True s 2(4) 2(1) [OF _ True s] 2(2) [OF _ True s]
      by (auto simp: dquote_def backslash_def split: if_splits intro!: split)
  next
    case False
    then show ?thesis using 2(3,4) by (auto split: if_splits)
  qed
qed

lemma scan_digits_split: "scan_digits s = Some (n, r) \<Longrightarrow> s = n @ r \<and> n \<noteq> []"
  by (auto simp: scan_digits_def split: if_splits)

lemma scan_unsigned_split: "scan_unsigned s = Some (n, r) \<Longrightarrow> s = n @ r \<and> n \<noteq> []"
  by (auto simp: scan_unsigned_def scan_int_def scan_frac_def scan_exp_def
      split: option.splits list.splits if_splits dest!: scan_digits_split)

lemma scan_number_split: "scan_number s = Some (n, r) \<Longrightarrow> s = n @ r \<and> n \<noteq> []"
  by (auto simp: scan_number_def split: list.splits if_splits dest!: scan_unsigned_split)

lemma scan_literal_split: "scan_literal w v s = Some (x, r) \<Longrightarrow> s = w @ r \<and> x = v"
  by (auto simp: scan_literal_def split: if_splits) (metis append_take_drop_id)

lemma length_tl_skip: "skip_ws s \<noteq> [] \<Longrightarrow> length (tl (skip_ws s)) < length s"
  using length_skip_ws [of s] by (cases "skip_ws s") auto

lemma skip_ws_Cons: "skip_ws s = c # q \<Longrightarrow> length q < length s"
  using length_skip_ws [of s] by simp

text \<open>Every successful scan consumes something, so the length tests are always true.\<close>

lemma scan_consumes:
  "scan_value d s = Some (v, r) \<Longrightarrow> length r < length s"
  "scan_elems d s = Some (vs, r) \<Longrightarrow> length r < length s"
  "scan_members d s = Some (ms, r) \<Longrightarrow> length r < length s"
proof (induction d s and d s and d s arbitrary: v r and vs r and ms r
    rule: scan_value_scan_elems_scan_members.induct)
  case (1 d s)
  then obtain c t where s: "s = c # t"
    by (cases s) (simp_all add: scan_value.simps [of d "[]"])
  have lit: "length q < length s" if "scan_literal w x s = Some (y, q)" "w \<noteq> []" for w x y q
    using scan_literal_split [OF that(1)] that(2) by auto
  have num: "length q < length s" if "scan_number s = Some (n, q)" for n q
    using scan_number_split [OF that] by auto
  have str: "length q < length s" if "scan_string t = Some (b, q)" for b q
    using scan_string_split [OF that] s by auto
  have emp: "length (tl (skip_ws t)) < length s" if "skip_ws t \<noteq> []"
    using length_tl_skip [OF that] s by simp
  show ?case
    using 1(3) s lit num str emp 1(1) [OF s] 1(2) [OF s]
    by (subst (asm) scan_value.simps) (auto split: if_splits)
next
  case (2 d s)
  obtain v r1 c q where v: "scan_value d (skip_ws s) = Some (v, r1)" and c: "skip_ws r1 = c # q"
    and fin: "c = CHR '']'' \<and> r = q \<or> c = CHR '','' \<and> length q < length s \<and> (\<exists>x. scan_elems d q = Some (x, r))"
    using 2(3) by (subst (asm) scan_elems.simps) (auto split: option.splits list.splits if_splits)
  have "length q < length s"
    using 2(1) [OF v] skip_ws_Cons [OF c] length_skip_ws [of s] by simp
  moreover have "length r < length q" if "scan_elems d q = Some (x, r)" "c = CHR '',''" for x
    using 2(2) [OF v refl c _ _ that(1)] that(2) \<open>length q < length s\<close> by simp
  ultimately show ?case using fin by auto
next
  case (3 d s)
  obtain s0 k s1 s2 v r1 c q where k: "skip_ws s = dquote # s0" "scan_string s0 = Some (k, s1)"
      "skip_ws s1 = CHR '':'' # s2" and v: "scan_value d (skip_ws s2) = Some (v, r1)"
    and c: "skip_ws r1 = c # q" and sm: "length s2 < length s"
    and fin: "c = CHR ''}'' \<and> r = q \<or> c = CHR '','' \<and> length q < length s \<and> (\<exists>x. scan_members d q = Some (x, r))"
    using 3(3) by (subst (asm) scan_members.simps) (auto split: option.splits list.splits if_splits)
  have "length r1 < length (skip_ws s2)" using 3(1) [OF k(1) _ k(2) refl k(3) _ v] sm by simp
  then have q: "length q < length s"
    using skip_ws_Cons [OF c] length_skip_ws [of s2] sm by simp
  have "length r < length q" if "scan_members d q = Some (x, r)" "c = CHR '',''" for x
    using 3(2) [OF k(1) _ k(2) refl k(3) _ v refl c _ _ that(1)] that(2) sm q by simp
  then show ?case using fin q by auto
qed

text \<open>The defining equations without the tests.\<close>

lemma scan_elems_eq:
  "scan_elems d s =
     (case scan_value d (skip_ws s) of
        None \<Rightarrow> None
      | Some (v, r) \<Rightarrow>
          (case skip_ws r of
             [] \<Rightarrow> None
           | c # q \<Rightarrow>
               if c = CHR '']'' then Some ([v], q)
               else if c = CHR '','' then map_option (\<lambda>(vs, t). (v # vs, t)) (scan_elems d q)
               else None))"
proof -
  have "length q < length s" if "scan_value d (skip_ws s) = Some (v, r)" "skip_ws r = c # q" for v r c q
    using scan_consumes(1) [OF that(1)] skip_ws_Cons [OF that(2)] length_skip_ws [of s] by simp
  then show ?thesis
    by (subst scan_elems.simps) (auto split: option.split list.split)
qed

lemma scan_members_eq:
  assumes "skip_ws s = dquote # s0" "scan_string s0 = Some (k, s1)" "skip_ws s1 = CHR '':'' # s2"
  shows "scan_members d s =
     (case scan_value d (skip_ws s2) of
        None \<Rightarrow> None
      | Some (v, r) \<Rightarrow>
          (case skip_ws r of
             [] \<Rightarrow> None
           | c # q \<Rightarrow>
               if c = CHR ''}'' then Some ([(k, v)], q)
               else if c = CHR '','' then map_option (\<lambda>(ms, t). ((k, v) # ms, t)) (scan_members d q)
               else None))"
proof -
  have s2: "length s2 < length s"
    using skip_ws_Cons [OF assms(3)] skip_ws_Cons [OF assms(1)] scan_string_split [OF assms(2)] by simp
  have "length q < length s" if "scan_value d (skip_ws s2) = Some (v, r)" "skip_ws r = c # q" for v r c q
    using scan_consumes(1) [OF that(1)] skip_ws_Cons [OF that(2)] length_skip_ws [of s2] s2 by simp
  with assms s2 show ?thesis
    by (subst scan_members.simps) (auto split: option.split list.split)
qed


section \<open>Printed values are read back\<close>

text \<open>The raw value of a printed one, and the values that print as JSON.\<close>

fun raw_of :: "bool \<Rightarrow> json \<Rightarrow> jraw" where
  "raw_of html JNull = RNull"
| "raw_of html (JBool b) = RBool b"
| "raw_of html (JNum n) = RNum n"
| "raw_of html (JStr s) = RStr (json_string_body html s)"
| "raw_of html (JArr vs) = RArr (map (raw_of html) vs)"
| "raw_of html (JObj ms) = RObj (map (\<lambda>(k, v). (json_string_body html k, raw_of html v)) ms)"

fun json_depth :: "json \<Rightarrow> nat" where
  "json_depth (JArr vs) = Suc (foldr max (map json_depth vs) 0)"
| "json_depth (JObj ms) = Suc (foldr max (map (\<lambda>(k, v). json_depth v) ms) 0)"
| "json_depth _ = 0"

fun json_nums_ok :: "json \<Rightarrow> bool" where
  "json_nums_ok (JNum n) = (scan_number n = Some (n, []))"
| "json_nums_ok (JArr vs) = list_all json_nums_ok vs"
| "json_nums_ok (JObj ms) = list_all (\<lambda>(k, v). json_nums_ok v) ms"
| "json_nums_ok _ = True"

lemma foldr_max_bound: "x \<in> set xs \<Longrightarrow> (x :: nat) \<le> foldr max xs 0"
  by (induction xs) auto

text \<open>What may follow a number.\<close>

definition num_end :: "string \<Rightarrow> bool" where
  "num_end r \<longleftrightarrow> (case r of [] \<Rightarrow> True
     | c # _ \<Rightarrow> \<not> is_digit c \<and> c \<noteq> CHR ''.'' \<and> c \<noteq> CHR ''e'' \<and> c \<noteq> CHR ''E'')"

lemma num_end_chars [simp]:
  "num_end []" "num_end (CHR '','' # r)" "num_end (CHR '']'' # r)" "num_end (CHR ''}'' # r)"
  "num_end [char_of (10 :: nat)]"
  by (simp_all add: num_end_def is_digit_def Let_def char_of_eq_iff)

lemma scan_digits_append:
  assumes "scan_digits s = Some (a, b)" "num_end r"
  shows "scan_digits (s @ r) = Some (a, b @ r)"
proof -
  have r: "takeWhile is_digit r = []" "dropWhile is_digit r = r"
    using assms(2) by (cases r; simp add: num_end_def)+
  have ab: "a = takeWhile is_digit s" "a \<noteq> []" "b = dropWhile is_digit s"
    using assms(1) by (auto simp: scan_digits_def split: if_splits)
  show ?thesis
  proof (cases "b = []")
    case True
    then have all: "\<forall>c \<in> set s. is_digit c" using ab(3) by (simp add: dropWhile_eq_Nil_conv)
    then have "takeWhile is_digit (s @ r) = s" "dropWhile is_digit (s @ r) = r"
      using r by (simp_all add: takeWhile_append2 dropWhile_append2)
    moreover have "a = s" using all ab(1) by (simp add: takeWhile_eq_all_conv)
    ultimately show ?thesis using True ab(2) by (simp add: scan_digits_def)
  next
    case False
    then obtain c where "c \<in> set s" "\<not> is_digit c" using ab(3) by (auto simp: dropWhile_eq_Nil_conv)
    then show ?thesis using ab by (simp add: scan_digits_def takeWhile_append1 dropWhile_append1)
  qed
qed

lemma scan_int_append:
  "scan_int s = Some (a, b) \<Longrightarrow> num_end r \<Longrightarrow> scan_int (s @ r) = Some (a, b @ r)"
  using scan_digits_append [of s a b r] by (cases s) (auto simp: scan_int_def split: if_splits)

lemma scan_frac_append:
  assumes "scan_frac s = Some (a, b)" "num_end r"
  shows "scan_frac (s @ r) = Some (a, b @ r)"
proof (cases s)
  case Nil
  then show ?thesis using assms by (cases r) (auto simp: scan_frac_def num_end_def)
next
  case (Cons c t)
  then show ?thesis
    using assms(1) scan_digits_append [OF _ assms(2)] by (auto simp: scan_frac_def split: if_splits)
qed

lemma scan_exp_append:
  assumes "scan_exp s = Some (a, b)" "num_end r"
  shows "scan_exp (s @ r) = Some (a, b @ r)"
proof (cases s)
  case Nil
  then show ?thesis using assms by (cases r) (auto simp: scan_exp_def num_end_def)
next
  case (Cons c t)
  then show ?thesis
    using assms scan_digits_append [OF _ assms(2)]
    by (cases t) (force simp: scan_exp_def split: if_splits)+
qed

lemma scan_number_append:
  assumes "scan_number s = Some (a, b)" "num_end r"
  shows "scan_number (s @ r) = Some (a, b @ r)"
proof -
  have un: "scan_unsigned (t @ r) = Some (x, y @ r)" if u: "scan_unsigned t = Some (x, y)" for t x y
  proof -
    obtain i s1 f s2 e where "scan_int t = Some (i, s1)" "scan_frac s1 = Some (f, s2)"
      "scan_exp s2 = Some (e, y)" "x = i @ f @ e"
      using u by (auto simp: scan_unsigned_def split: option.splits)
    with assms(2) show ?thesis
      by (simp add: scan_unsigned_def scan_int_append scan_frac_append scan_exp_append)
  qed
  show ?thesis
  proof (cases s)
    case Nil
    then show ?thesis using assms(1) by (simp add: scan_number_def)
  next
    case (Cons c t)
    then show ?thesis
      using assms(1) un [of t] un [of "c # t" a b] by (auto simp: scan_number_def split: if_splits)
  qed
qed

text \<open>Strings.\<close>

lemma special_chars [simp]:
  "backslash \<noteq> dquote" "CHR ''u'' \<noteq> dquote" "CHR ''u'' \<noteq> backslash" "CHR ''u'' \<noteq> CHR ''/''"
  "dquote \<noteq> CHR ''{''" "dquote \<noteq> CHR ''[''" "dquote \<noteq> CHR ''}''" "dquote \<noteq> CHR '']''"
  "CHR ''-'' \<noteq> dquote" "CHR ''n'' \<noteq> dquote" "CHR ''t'' \<noteq> dquote" "CHR ''f'' \<noteq> dquote"
  by code_simp+

lemma scan_string_plain:
  "c \<noteq> dquote \<Longrightarrow> c \<noteq> backslash \<Longrightarrow> 32 \<le> (of_char c :: nat) \<Longrightarrow>
     scan_string (c # s) = map_option (\<lambda>(b, r). (c # b, r)) (scan_string s)"
  by simp

lemma scan_string_escape:
  "e \<in> {dquote, backslash, CHR ''/'', CHR ''b'', CHR ''f'', CHR ''n'', CHR ''r'', CHR ''t''} \<Longrightarrow>
     scan_string (backslash # e # s) = map_option (\<lambda>(b, r). (backslash # e # b, r)) (scan_string s)"
  by (subst scan_string.simps) (auto simp: special_chars)

lemma scan_string_u:
  "list_all is_hex [a, b, c, d] \<Longrightarrow>
     scan_string (backslash # CHR ''u'' # a # b # c # d # s) =
       map_option (\<lambda>(x, r). (backslash # CHR ''u'' # a # b # c # d # x, r)) (scan_string s)"
  by (subst scan_string.simps) (simp add: special_chars)

lemma high_not_special:
  "128 \<le> (of_char c :: nat) \<Longrightarrow> c \<noteq> dquote \<and> c \<noteq> backslash"
  by (auto simp: dquote_def backslash_def)

lemma scan_string_high:
  "\<forall>c \<in> set u. 128 \<le> (of_char c :: nat) \<Longrightarrow>
     scan_string (u @ s) = map_option (\<lambda>(b, r). (u @ b, r)) (scan_string s)"
proof (induction u)
  case Nil
  then show ?case by (cases "scan_string s") auto
next
  case (Cons c u)
  then have "scan_string (c # u @ s) = map_option (\<lambda>(b, r). (c # b, r)) (scan_string (u @ s))"
    using high_not_special [of c] by (intro scan_string_plain) auto
  with Cons show ?case by (cases "scan_string s") auto
qed

lemma utf8_len_high:
  assumes "utf8_len s = Some k"
  shows "\<forall>c \<in> set (take k s). 128 \<le> (of_char c :: nat)"
  using assms
  by (auto simp: utf8_len_def in_range_def split: list.splits if_splits)

lemma is_hex_hexdigit: "n < 16 \<Longrightarrow> is_hex (hexdigit n)"
  by (simp add: is_hex_def hexval_hexdigit)

lemma is_hex_consts [simp]:
  "is_hex (CHR ''0'')" "is_hex (CHR ''f'')" "is_hex (CHR ''d'')" "is_hex (CHR ''2'')" "is_hex (CHR ''8'')"
  "is_hex (CHR ''9'')"
  by (simp_all add: is_hex_def hexval_def)

lemma scan_string_ascii:
  assumes "(of_char c :: nat) < 128"
  shows "scan_string (json_escape_ascii html c @ s) =
    map_option (\<lambda>(b, r). (json_escape_ascii html c @ b, r)) (scan_string s)"
proof -
  let ?n = "of_char c :: nat"
  have c: "char_of ?n = c" by simp
  consider (quote) "?n = 34" | (slash) "?n = 92" | (named) "?n = 8 \<or> ?n = 12 \<or> ?n = 10 \<or> ?n = 13 \<or> ?n = 9"
    | (u) "?n \<noteq> 34" "?n \<noteq> 92" "?n \<notin> {8, 9, 10, 12, 13}" "?n < 32 \<or> html \<and> c \<in> {CHR ''<'', CHR ''>'', CHR ''&''}"
    | (plain) "?n \<noteq> 34" "?n \<noteq> 92" "\<not> ?n < 32" "\<not> (html \<and> c \<in> {CHR ''<'', CHR ''>'', CHR ''&''})"
    by blast
  then show ?thesis
  proof cases
    case quote
    with c have "c = dquote" by (simp add: dquote_def)
    with quote show ?thesis by (simp add: json_escape_ascii_def Let_def scan_string_escape)
  next
    case slash
    with c have "c = backslash" by (simp add: backslash_def)
    with slash show ?thesis by (simp add: json_escape_ascii_def Let_def scan_string_escape)
  next
    case named
    then obtain e where "json_escape_ascii html c = [backslash, e]"
      "e \<in> {CHR ''b'', CHR ''f'', CHR ''n'', CHR ''r'', CHR ''t''}"
      by (elim disjE) (simp_all add: json_escape_ascii_def Let_def)
    then show ?thesis using scan_string_escape [of e s] by auto
  next
    case u
    have "?n div 16 < 16" using assms by simp
    with u show ?thesis
      using scan_string_u [of "CHR ''0''" "CHR ''0''" "hexdigit (?n div 16)" "hexdigit (?n mod 16)" s]
      by (simp add: json_escape_ascii_def Let_def is_hex_hexdigit)
  next
    case plain
    then have "c \<noteq> dquote" "c \<noteq> backslash" by (auto simp: dquote_def backslash_def)
    moreover from plain have "json_escape_ascii html c = [c]"
      by (auto simp: json_escape_ascii_def Let_def)
    ultimately show ?thesis using plain scan_string_plain [of c s] by simp
  qed
qed

lemma scan_string_body:
  "scan_string (json_string_body html s @ dquote # r) = Some (json_string_body html s, r)"
proof (induction html s rule: json_string_body.induct)
  case (1 html)
  then show ?case by simp
next
  case (2 html c s)
  show ?case
  proof (cases "(of_char c :: nat) < 128")
    case True
    with 2(1) show ?thesis by (simp add: scan_string_ascii)
  next
    case high: False
    show ?thesis
    proof (cases "utf8_len (c # s)")
      case None
      with 2(2) [OF high None] high show ?thesis
        using scan_string_u [of "CHR ''f''" "CHR ''f''" "CHR ''f''" "CHR ''d''"] by simp
    next
      case (Some k)
      show ?thesis
      proof (cases "line_sep (c # s)")
        case None
        with 2(3) [OF high Some None] high Some show ?thesis
          using scan_string_high [OF utf8_len_high [OF Some]] by simp
      next
        case sep: (Some d)
        then have "is_hex d" by (auto simp: line_sep_def split: list.splits if_splits)
        with 2(4) [OF high Some sep] high Some sep show ?thesis
          using scan_string_u [of "CHR ''2''" "CHR ''0''" "CHR ''2''" d] by simp
      qed
    qed
  qed
qed

text \<open>How a value starts: never with white space or a closing bracket.\<close>

definition value_start :: "string \<Rightarrow> bool" where
  "value_start s \<longleftrightarrow> s \<noteq> [] \<and> \<not> is_ws (hd s) \<and> hd s \<noteq> CHR '']'' \<and> hd s \<noteq> CHR ''}''"

lemma skip_ws_start: "value_start s \<Longrightarrow> skip_ws (s @ r) = s @ r"
  by (cases s) (simp_all add: value_start_def skip_ws_def)

lemma skip_ws_punct [simp]:
  "skip_ws (CHR '','' # s) = CHR '','' # s" "skip_ws (CHR '']'' # s) = CHR '']'' # s"
  "skip_ws (CHR ''}'' # s) = CHR ''}'' # s" "skip_ws (CHR '':'' # s) = CHR '':'' # s"
  "skip_ws (dquote # s) = dquote # s"
  by (simp_all add: skip_ws_def is_ws_def dquote_def)

lemma scan_number_hd:
  assumes "scan_number n = Some (n, [])"
  shows "n \<noteq> [] \<and> (is_digit (hd n) \<or> hd n = CHR ''-'')"
proof (cases n)
  case Nil
  then show ?thesis using assms by (simp add: scan_number_def)
next
  case (Cons c t)
  have "is_digit (hd s)" if "scan_unsigned s = Some (x, y)" for s x y
    using that
    by (cases s) (auto simp: scan_unsigned_def scan_int_def scan_digits_def is_digit_def Let_def
        split: option.splits if_splits)
  with Cons assms show ?thesis by (fastforce simp: scan_number_def split: if_splits)
qed

lemma digit_not_special:
  assumes "is_digit c \<or> c = CHR ''-''"
  shows "c \<noteq> CHR ''{'' \<and> c \<noteq> CHR ''['' \<and> c \<noteq> dquote \<and> c \<noteq> CHR ''n'' \<and> c \<noteq> CHR ''t'' \<and> c \<noteq> CHR ''f'' \<and>
    \<not> is_ws c \<and> c \<noteq> CHR '']'' \<and> c \<noteq> CHR ''}''"
proof (cases "c = CHR ''-''")
  case True
  then show ?thesis by (simp add: is_ws_def)
next
  case False
  then show ?thesis using assms by (auto simp: is_digit_def is_ws_def dquote_def Let_def)
qed

lemma ws_chars [simp]:
  "\<not> is_ws dquote" "\<not> is_ws (CHR ''n'')" "\<not> is_ws (CHR ''t'')" "\<not> is_ws (CHR ''f'')"
  "\<not> is_ws (CHR ''['')" "\<not> is_ws (CHR ''{'')"
  by (simp_all add: is_ws_def dquote_def)

lemma json_text_start: "json_nums_ok j \<Longrightarrow> value_start (json_text html j)"
  by (cases j) (auto simp: value_start_def json_string_def
      dest!: scan_number_hd digit_not_special)

lemma scan_value_Cons:
  "scan_value d (CHR ''['' # s) = (if maxNestingDepth \<le> d then None
     else if skip_ws s \<noteq> [] \<and> hd (skip_ws s) = CHR '']'' then Some (RArr [], tl (skip_ws s))
     else map_option (\<lambda>(vs, q). (RArr vs, q)) (scan_elems (Suc d) s))"
  "scan_value d (CHR ''{'' # s) = (if maxNestingDepth \<le> d then None
     else if skip_ws s \<noteq> [] \<and> hd (skip_ws s) = CHR ''}'' then Some (RObj [], tl (skip_ws s))
     else map_option (\<lambda>(ms, q). (RObj ms, q)) (scan_members (Suc d) s))"
  "scan_value d (dquote # s) = map_option (\<lambda>(b, q). (RStr b, q)) (scan_string s)"
  by (subst scan_value.simps; simp)+

lemma scan_elems_text:
  assumes "vs \<noteq> []"
    and "\<And>v t. v \<in> set vs \<Longrightarrow> num_end t \<Longrightarrow> scan_value d (json_text html v @ t) = Some (raw_of html v, t)"
    and "\<And>v. v \<in> set vs \<Longrightarrow> json_nums_ok v"
  shows "scan_elems d (join_comma (map (json_text html) vs) @ CHR '']'' # r) = Some (map (raw_of html) vs, r)"
  using assms
proof (induction vs rule: induct_list012)
  case (2 v)
  then show ?case
    by (subst scan_elems_eq) (simp add: skip_ws_start [OF json_text_start])
next
  case (3 v w vs)
  let ?rest = "CHR '','' # join_comma (map (json_text html) (w # vs)) @ CHR '']'' # r"
  have "scan_value d (json_text html v @ ?rest) = Some (raw_of html v, ?rest)" using 3 by simp
  moreover have "skip_ws (json_text html v @ ?rest) = json_text html v @ ?rest"
    using 3 by (intro skip_ws_start json_text_start) simp
  moreover have "scan_elems d (join_comma (map (json_text html) (w # vs)) @ CHR '']'' # r) =
      Some (map (raw_of html) (w # vs), r)" using 3 by simp
  ultimately show ?case by (subst scan_elems_eq) simp
qed simp

lemma scan_members_text:
  assumes "ms \<noteq> []"
    and "\<And>k v t. (k, v) \<in> set ms \<Longrightarrow> num_end t \<Longrightarrow> scan_value d (json_text html v @ t) = Some (raw_of html v, t)"
    and "\<And>k v. (k, v) \<in> set ms \<Longrightarrow> json_nums_ok v"
  shows "scan_members d (join_comma (map (\<lambda>(k, v). json_string html k @ CHR '':'' # json_text html v) ms) @ CHR ''}'' # r) =
    Some (map (\<lambda>(k, v). (json_string_body html k, raw_of html v)) ms, r)"
  using assms
proof (induction ms rule: induct_list012)
  case (2 m)
  obtain k v where m: "m = (k, v)" by fastforce
  have v: "json_nums_ok v" "scan_value d (json_text html v @ CHR ''}'' # r) = Some (raw_of html v, CHR ''}'' # r)"
    using 2 m by auto
  note eq = scan_members_eq [of "json_string html k @ CHR '':'' # json_text html v @ CHR ''}'' # r"
      "json_string_body html k @ dquote # CHR '':'' # json_text html v @ CHR ''}'' # r"
      "json_string_body html k" "CHR '':'' # json_text html v @ CHR ''}'' # r"
      "json_text html v @ CHR ''}'' # r" d]
  show ?case using v m eq by (simp add: json_string_def scan_string_body skip_ws_start [OF json_text_start])
next
  case (3 m n ms)
  obtain k v where m: "m = (k, v)" by fastforce
  let ?more = "join_comma (map (\<lambda>(k, v). json_string html k @ CHR '':'' # json_text html v) (n # ms)) @ CHR ''}'' # r"
  have v: "json_nums_ok v" "scan_value d (json_text html v @ CHR '','' # ?more) = Some (raw_of html v, CHR '','' # ?more)"
    using 3(4) [of k v "CHR '','' # ?more"] 3(5) [of k v] m by simp_all
  have ih: "scan_members d ?more = Some (map (\<lambda>(k, v). (json_string_body html k, raw_of html v)) (n # ms), r)"
    using 3(2) 3(4,5) by (metis list.distinct(1) list.set_intros(2))
  note eq = scan_members_eq [of "json_string html k @ CHR '':'' # json_text html v @ CHR '','' # ?more"
      "json_string_body html k @ dquote # CHR '':'' # json_text html v @ CHR '','' # ?more"
      "json_string_body html k" "CHR '':'' # json_text html v @ CHR '','' # ?more"
      "json_text html v @ CHR '','' # ?more" d]
  show ?case
    using v m eq ih
    by (simp add: json_string_def scan_string_body skip_ws_start [OF json_text_start])
qed simp

lemma not_closing: "value_start s \<Longrightarrow> skip_ws (s @ r) \<noteq> [] \<and> hd (skip_ws (s @ r)) \<notin> {CHR '']'', CHR ''}''}"
  by (simp add: skip_ws_start) (auto simp: value_start_def)

lemma join_comma_start: "xs \<noteq> [] \<Longrightarrow> value_start (hd xs) \<Longrightarrow> value_start (join_comma xs)"
  by (cases xs rule: join_comma.cases) (auto simp: value_start_def)

lemma scan_value_num:
  assumes "scan_number n = Some (n, [])" "num_end r"
  shows "scan_value d (n @ r) = Some (RNum n, r)"
proof -
  obtain c t where n: "n = c # t" and c: "is_digit c \<or> c = CHR ''-''"
    using scan_number_hd [OF assms(1)] by (cases n) auto
  show ?thesis
    using digit_not_special [OF c] scan_number_append [OF assms] n by (subst scan_value.simps) simp
qed

lemma scan_value_text:
  assumes "json_nums_ok j" "json_depth j + d \<le> maxNestingDepth" "num_end r"
  shows "scan_value d (json_text html j @ r) = Some (raw_of html j, r)"
  using assms
proof (induction j arbitrary: d r)
  case JNull
  then show ?case by (subst scan_value.simps) (simp add: scan_literal_def)
next
  case (JBool b)
  then show ?case by (subst scan_value.simps) (simp add: scan_literal_def)
next
  case (JNum n)
  then show ?case by (simp add: scan_value_num)
next
  case (JStr s)
  then show ?case by (simp add: json_string_def scan_value_Cons scan_string_body)
next
  case (JArr vs)
  have d: "d < maxNestingDepth" using JArr(3) by simp
  have ok: "json_nums_ok v" if "v \<in> set vs" for v using JArr(2) that by (simp add: list_all_iff)
  have el: "scan_value (Suc d) (json_text html v @ t) = Some (raw_of html v, t)"
    if v: "v \<in> set vs" "num_end t" for v t
    using JArr(1) [OF v(1) ok [OF v(1)] _ v(2), of "Suc d"] JArr(3) foldr_max_bound [of "json_depth v" "map json_depth vs"] v(1)
    by fastforce
  show ?case
  proof (cases "vs = []")
    case True
    then show ?thesis using d by (simp add: scan_value_Cons)
  next
    case False
    let ?s = "join_comma (map (json_text html) vs)"
    have "value_start ?s"
      using False ok by (intro join_comma_start) (auto simp: hd_map intro!: json_text_start)
    from not_closing [OF this, of "CHR '']'' # r"] show ?thesis
      using d False scan_elems_text [OF False el ok, of r] by (simp add: scan_value_Cons)
  qed
next
  case (JObj ms)
  have d: "d < maxNestingDepth" using JObj(3) by simp
  have ok: "json_nums_ok v" if "(k, v) \<in> set ms" for k v
    using JObj(2) that by (auto simp: list_all_iff)
  have el: "scan_value (Suc d) (json_text html v @ t) = Some (raw_of html v, t)"
    if v: "(k, v) \<in> set ms" "num_end t" for k v t
  proof -
    have "json_depth v \<le> foldr max (map (\<lambda>(k, v). json_depth v) ms) 0"
      using v(1) by (intro foldr_max_bound) force
    then show ?thesis using JObj(1) [OF v(1), of v "Suc d" t] ok [OF v(1)] v(2) JObj(3) by simp
  qed
  show ?case
  proof (cases "ms = []")
    case True
    then show ?thesis using d by (simp add: scan_value_Cons)
  next
    case False
    let ?f = "\<lambda>(k, v). json_string html k @ CHR '':'' # json_text html v"
    have "value_start (?f m)" for m
      by (cases m) (simp add: value_start_def json_string_def)
    then have "value_start (join_comma (map ?f ms))"
      using False by (intro join_comma_start) (auto simp: hd_map)
    from not_closing [OF this, of "CHR ''}'' # r"] show ?thesis
      using d False scan_members_text [OF False el ok] by (simp add: scan_value_Cons)
  qed
qed

text \<open>Both printers write texts the parser accepts, and it gives the value that was printed.\<close>

lemma json_Parse_text:
  assumes "json_nums_ok j" "json_depth j \<le> maxNestingDepth" "skip_ws r = []" "num_end r"
  shows "json_Parse (json_text html j @ r) = Some (raw_of html j)"
  using scan_value_text [OF assms(1) _ assms(4), where d = 0 and html = html] assms
  by (simp add: json_Parse_def skip_ws_start json_text_start)


section \<open>Strings are read back\<close>

text \<open>The string with every byte that is not part of a valid UTF-8 sequence replaced.\<close>

function to_valid_utf8 :: "string \<Rightarrow> string" where
  "to_valid_utf8 [] = []"
| "to_valid_utf8 (c # s) =
     (if (of_char c :: nat) < 128 then c # to_valid_utf8 s
      else (case utf8_len (c # s) of
              None \<Rightarrow> replacement_char @ to_valid_utf8 s
            | Some k \<Rightarrow> take k (c # s) @ to_valid_utf8 (drop k (c # s))))"
  by pat_completeness auto
termination
  by (relation "measure length") (auto dest: utf8_len_bounds)

definition valid_utf8 :: "string \<Rightarrow> bool" where
  "valid_utf8 s \<longleftrightarrow> to_valid_utf8 s = s"

lemma utf8_len_cases:
  assumes "utf8_len s = Some k"
  obtains (two) a b t where "s = a # b # t" "k = 2" "in_range 194 223 a" "cont b"
  | (three) a b c t where "s = a # b # c # t" "k = 3" "\<not> in_range 194 223 a" "in_range 224 239 a"
      "in_range (if of_char a = (224::nat) then 160 else 128) (if of_char a = (237::nat) then 159 else 191) b" "cont c"
  | (four) a b c d t where "s = a # b # c # d # t" "k = 4" "\<not> in_range 194 223 a" "\<not> in_range 224 239 a"
      "in_range 240 244 a"
      "in_range (if of_char a = (240::nat) then 144 else 128) (if of_char a = (244::nat) then 143 else 191) b"
      "cont c" "cont d"
proof -
  obtain a b t where s: "s = a # b # t"
    using assms by (cases s; cases "tl s") (simp_all add: utf8_len_def)
  show thesis
  proof (cases "in_range 194 223 a")
    case True
    with two s assms show ?thesis by (simp add: utf8_len_def split: if_splits)
  next
    case a: False
    obtain c u where t: "t = c # u"
      using assms s a by (cases t) (simp_all add: utf8_len_def)
    show ?thesis
    proof (cases "in_range 224 239 a")
      case True
      with three [of a b c u] s t a assms show ?thesis by (simp add: utf8_len_def split: if_splits)
    next
      case False
      obtain d w where u: "u = d # w"
        using assms s t a False by (cases u) (simp_all add: utf8_len_def)
      with four [of a b c d w] s t a False assms show ?thesis
        by (simp add: utf8_len_def split: if_splits)
    qed
  qed
qed

lemma utf8_len_take: "utf8_len s = Some k \<Longrightarrow> utf8_len (take k s @ r) = Some k"
  by (erule utf8_len_cases) (simp_all add: utf8_len_def)

lemma unquote_u:
  assumes "hex4 [a, b, c, d] = n" "\<not> is_surrogate n"
  shows "unquote (backslash # CHR ''u'' # a # b # c # d # s) = utf8_encode n @ unquote s"
proof -
  have "hex4 (a # b # c # d # s) = n" using assms(1) by (simp add: hex4_def)
  moreover have "decode_surrogates n m = None" for m
    using assms(2) by (auto simp: decode_surrogates_def is_surrogate_def)
  ultimately show ?thesis using assms(2) by (subst unquote.simps) simp
qed

lemma unquote_escape:
  "e \<noteq> CHR ''u'' \<Longrightarrow> unquote (backslash # e # s) = unescape e # unquote s"
  by (subst unquote.simps) simp

lemma unquote_plain:
  "c \<noteq> backslash \<Longrightarrow> (of_char c :: nat) < 128 \<Longrightarrow> unquote (c # s) = c # unquote s"
  by (subst unquote.simps) simp

lemma unquote_high:
  assumes "utf8_len s = Some k" "128 \<le> (of_char (hd s) :: nat)"
  shows "unquote (take k s @ r) = take k s @ unquote r"
proof -
  obtain c t where s: "s = c # t" using assms(1) by (cases s) (auto simp: utf8_len_def)
  then have k: "0 < k" "k \<le> length s" using utf8_len_bounds [OF assms(1)] by auto
  then obtain m where m: "k = Suc m" by (cases k) auto
  have "c \<noteq> backslash" using assms(2) s high_not_special by simp
  then show ?thesis
    using assms s m k utf8_len_take [OF assms(1), of r] by (simp add: unquote.simps(2) [of c])
qed

lemma hexval_0: "hexval (CHR ''0'') = Some 0"
  by (simp add: hexval_def)

lemma unquote_ascii:
  assumes "(of_char c :: nat) < 128"
  shows "unquote (json_escape_ascii html c @ s) = c # unquote s"
proof -
  let ?n = "of_char c :: nat"
  have ch: "char_of ?n = c" by simp
  consider (quote) "?n = 34 \<or> ?n = 92" | (named) "?n = 8 \<or> ?n = 12 \<or> ?n = 10 \<or> ?n = 13 \<or> ?n = 9"
    | (u) "?n \<notin> {34, 92, 8, 12, 10, 13, 9}" "?n < 32 \<or> html \<and> c \<in> {CHR ''<'', CHR ''>'', CHR ''&''}"
    | (plain) "?n \<notin> {34, 92, 8, 12, 10, 13, 9}" "\<not> (?n < 32 \<or> html \<and> c \<in> {CHR ''<'', CHR ''>'', CHR ''&''})"
    by blast
  then show ?thesis
  proof cases
    case quote
    then have "unescape c = c" "c \<noteq> CHR ''u''" by (auto simp: unescape_def)
    with quote show ?thesis by (simp add: json_escape_ascii_def Let_def unquote_escape)
  next
    case named
    then show ?thesis using ch
      by (elim disjE) (simp_all add: json_escape_ascii_def Let_def unquote_escape unescape_def)
  next
    case u
    have hex: "hex4 [CHR ''0'', CHR ''0'', hexdigit (?n div 16), hexdigit (?n mod 16)] = ?n"
      using assms by (simp add: hex4_def hexval_0)
    have "utf8_encode ?n = [c]" using assms by (simp add: utf8_encode_def)
    with u show ?thesis
      using unquote_u [OF hex] assms by (simp add: json_escape_ascii_def Let_def is_surrogate_def)
  next
    case plain
    then have "c \<noteq> backslash" by (auto simp: backslash_def)
    with plain show ?thesis using assms
      by (auto simp: json_escape_ascii_def Let_def unquote_plain)
  qed
qed

lemma line_sep_value:
  assumes "line_sep s = Some d" "utf8_len s = Some k"
  shows "\<exists>n. hex4 [CHR ''2'', CHR ''0'', CHR ''2'', d] = n \<and> \<not> is_surrogate n \<and> utf8_encode n = take k s"
proof -
  have hex: "hex4 ''2028'' = 8232" "hex4 ''2029'' = 8233" by (simp_all add: hex4_def hexval_def)
  have enc: "utf8_encode 8232 = [char_of (226 :: nat), char_of (128 :: nat), char_of (168 :: nat)]"
    "utf8_encode 8233 = [char_of (226 :: nat), char_of (128 :: nat), char_of (169 :: nat)]" by (simp_all add: utf8_encode_def)
  obtain a b c r where s: "s = a # b # c # r"
    and n: "(of_char a :: nat) = 226" "(of_char b :: nat) = 128"
      "d = CHR ''8'' \<and> (of_char c :: nat) = 168 \<or> d = CHR ''9'' \<and> (of_char c :: nat) = 169"
    using assms(1) by (auto simp: line_sep_def split: list.splits if_splits)
  have ch: "a = char_of (226 :: nat)" "b = char_of (128 :: nat)"
    "d = CHR ''8'' \<and> c = char_of (168 :: nat) \<or> d = CHR ''9'' \<and> c = char_of (169 :: nat)"
    using n by (metis char_of_char)+
  have "k = 3" using assms(2) s n by (auto simp: utf8_len_def in_range_def split: if_splits)
  with s ch hex enc show ?thesis by (auto simp: is_surrogate_def)
qed

lemma unquote_body: "unquote (json_string_body html s) = to_valid_utf8 s"
proof (induction html s rule: json_string_body.induct)
  case (1 html)
  then show ?case by simp
next
  case (2 html c s)
  show ?case
  proof (cases "(of_char c :: nat) < 128")
    case True
    with 2(1) show ?thesis by (simp add: unquote_ascii)
  next
    case high: False
    show ?thesis
    proof (cases "utf8_len (c # s)")
      case None
      have "hex4 [CHR ''f'', CHR ''f'', CHR ''f'', CHR ''d''] = 65533" by (simp add: hex4_def hexval_def)
      with 2(2) [OF high None] high None show ?thesis
        by (simp add: unquote_u is_surrogate_def replacement_char_def)
    next
      case (Some k)
      show ?thesis
      proof (cases "line_sep (c # s)")
        case None
        with 2(3) [OF high Some None] high Some show ?thesis
          using unquote_high [OF Some] by simp
      next
        case sep: (Some d)
        from line_sep_value [OF sep Some] 2(4) [OF high Some sep] high Some sep show ?thesis
          using unquote_u [OF refl, of "CHR ''2''" "CHR ''0''" "CHR ''2''" d] by auto
      qed
    qed
  qed
qed


section \<open>Values\<close>

fun json_of_raw :: "jraw \<Rightarrow> json" where
  "json_of_raw RNull = JNull"
| "json_of_raw (RBool b) = JBool b"
| "json_of_raw (RNum n) = JNum n"
| "json_of_raw (RStr s) = JStr (unquote s)"
| "json_of_raw (RArr vs) = JArr (map json_of_raw vs)"
| "json_of_raw (RObj ms) = JObj (map (\<lambda>(k, v). (unquote k, json_of_raw v)) ms)"

fun json_strings_ok :: "json \<Rightarrow> bool" where
  "json_strings_ok (JStr s) = valid_utf8 s"
| "json_strings_ok (JArr vs) = list_all json_strings_ok vs"
| "json_strings_ok (JObj ms) = list_all (\<lambda>(k, v). valid_utf8 k \<and> json_strings_ok v) ms"
| "json_strings_ok _ = True"

definition json_ok :: "json \<Rightarrow> bool" where
  "json_ok j \<longleftrightarrow> json_nums_ok j \<and> json_strings_ok j \<and> json_depth j \<le> maxNestingDepth"

lemma json_of_raw_of: "json_strings_ok j \<Longrightarrow> json_of_raw (raw_of html j) = j"
  by (induction j) (auto simp: unquote_body valid_utf8_def list_all_iff map_idI split: prod.splits)

definition json_Unmarshal :: "bytes \<Rightarrow> jraw option" where
  "json_Unmarshal b = json_Parse (string_of_bytes b)"

lemma json_Unmarshal_text:
  assumes "json_ok j"
  shows "json_Unmarshal (json_Marshal j) = Some (raw_of True j)"
    and "json_Unmarshal (json_Encode_raw j) = Some (raw_of False j)"
  using json_Parse_text [of j "[]" True] json_Parse_text [of j "[char_of (10 :: nat)]" False] assms
  by (simp_all add: json_Unmarshal_def json_Marshal_def json_Encode_raw_def json_ok_def skip_ws_def is_ws_def)

text \<open>The numbers the client prints are JSON numbers.\<close>

lemma dec_nat_hd: "hd (dec_nat n) = CHR ''0'' \<Longrightarrow> n = 0"
proof (induction n rule: dec_nat.induct)
  case (1 n)
  have zero: "char_of (48 + n) = CHR ''0'' \<Longrightarrow> n = 0" if "n < 10"
  proof -
    assume "char_of (48 + n) = CHR ''0''"
    then have "(of_char (char_of (48 + n)) :: nat) = 48" by simp
    then show "n = 0" using that by simp
  qed
  show ?case
  proof (cases "n < 10")
    case True
    with zero 1(2) show ?thesis by (simp add: dec_nat.simps [of n])
  next
    case False
    with 1(2) have "hd (dec_nat (n div 10)) = CHR ''0''" by (simp add: dec_nat.simps [of n])
    with 1(1) [OF False] have "n div 10 = 0" by blast
    with False show ?thesis by simp
  qed
qed

lemma scan_unsigned_dec_nat: "scan_unsigned (dec_nat n) = Some (dec_nat n, [])"
proof (cases "n = 0")
  case True
  have "char_of (48 :: nat) = CHR ''0''" by code_simp
  with True show ?thesis
    by (simp add: dec_nat.simps [of 0] scan_unsigned_def scan_int_def scan_frac_def scan_exp_def)
next
  case False
  obtain c t where ct: "dec_nat n = c # t" by (cases "dec_nat n") simp_all
  have all: "\<forall>x \<in> set (dec_nat n). is_digit x" using dec_nat_digits by blast
  have "c \<noteq> CHR ''0''" using False ct dec_nat_hd [of n] by auto
  then have "scan_int (dec_nat n) = Some (dec_nat n, [])"
    using all by (simp add: ct scan_int_def scan_digits_def takeWhile_eq_all_conv dropWhile_eq_Nil_conv)
  then show ?thesis by (simp add: scan_unsigned_def scan_frac_def scan_exp_def)
qed

lemma scan_number_dec_nat: "scan_number (dec_nat n) = Some (dec_nat n, [])"
proof -
  obtain c t where ct: "dec_nat n = c # t" by (cases "dec_nat n") simp_all
  then have "c \<noteq> CHR ''-''" using dec_nat_digits [of c n] by auto
  with ct scan_unsigned_dec_nat [of n] show ?thesis by (simp add: scan_number_def)
qed

lemma scan_number_FormatInt: "scan_number (FormatInt i) = Some (FormatInt i, [])"
proof (cases "i < 0")
  case True
  then show ?thesis by (simp add: FormatInt_def scan_number_def scan_unsigned_dec_nat)
next
  case False
  then show ?thesis by (simp add: FormatInt_def scan_number_dec_nat)
qed

end
