(* ===== verification/Go_Decode.thy ===== *)
theory Go_Decode
  imports Go_Json_Parse
begin

text \<open>
  What \<^verbatim>\<open>json.Unmarshal\<close> makes of a scanned value at the types the client decodes. A
  decoder gets the value and what the variable holds, and gives what it holds afterwards, or
  \<open>None\<close> for an error. The JSON \<^verbatim>\<open>null\<close> leaves a number, string, boolean or struct
  as it is and makes a pointer, slice, map or interface nil; a field that appears twice is
  decoded twice, the second time into the result of the first. (Memory beyond the length of
  a slice, which Go can expose again when a field appears three times, counts as zero.)
\<close>

type_synonym 'a decoder = "jraw \<Rightarrow> 'a \<Rightarrow> 'a option"


section \<open>Numbers, strings and booleans\<close>

definition dec_string :: "string decoder" where
  "dec_string v old = (case v of RNull \<Rightarrow> Some old | RStr s \<Rightarrow> Some (unquote s) | _ \<Rightarrow> None)"

definition dec_bool :: "bool decoder" where
  "dec_bool v old = (case v of RNull \<Rightarrow> Some old | RBool b \<Rightarrow> Some b | _ \<Rightarrow> None)"

text \<open>\<^verbatim>\<open>strconv.ParseUint\<close> at the width of the type: digits only, and in range.\<close>

definition dec_uint :: "'n::len word decoder" where
  "dec_uint v old = (case v of
     RNull \<Rightarrow> Some old
   | RNum n \<Rightarrow> if list_all is_digit n \<and> dec_value n < 2 ^ LENGTH('n) then Some (word_of_nat (dec_value n)) else None
   | _ \<Rightarrow> None)"

text \<open>\<^verbatim>\<open>strconv.ParseInt\<close> at 64 bits: an optional sign and digits, and in range.\<close>

definition dec_int :: "int decoder" where
  "dec_int v old = (case v of
     RNull \<Rightarrow> Some old
   | RNum n \<Rightarrow>
       (case n of [] \<Rightarrow> None | c # t \<Rightarrow>
          if list_all is_digit (if c = CHR ''-'' then t else n)
          then (case ParseInt n of None \<Rightarrow> None | Some i \<Rightarrow> if - (2 ^ 63) \<le> i \<and> i < 2 ^ 63 then Some i else None)
          else None)
   | _ \<Rightarrow> None)"


section \<open>Pointers, slices, byte slices and maps\<close>

text \<open>A nil pointer gets a new zero value to decode into.\<close>

definition dec_ptr :: "'a \<Rightarrow> 'a decoder \<Rightarrow> 'a option decoder" where
  "dec_ptr zero d v old = (case v of
     RNull \<Rightarrow> Some None
   | _ \<Rightarrow> map_option Some (d v (case old of None \<Rightarrow> zero | Some x \<Rightarrow> x)))"

fun dec_elems :: "'a \<Rightarrow> 'a decoder \<Rightarrow> jraw list \<Rightarrow> 'a list \<Rightarrow> 'a list option" where
  "dec_elems zero d [] old = Some []"
| "dec_elems zero d (v # vs) old =
     (case d v (case old of [] \<Rightarrow> zero | x # _ \<Rightarrow> x) of
        None \<Rightarrow> None
      | Some x \<Rightarrow> map_option ((#) x) (dec_elems zero d vs (tl old)))"

definition dec_slice :: "'a \<Rightarrow> 'a decoder \<Rightarrow> 'a list option decoder" where
  "dec_slice zero d v old = (case v of
     RNull \<Rightarrow> Some None
   | RArr vs \<Rightarrow> map_option Some (dec_elems zero d vs (case old of None \<Rightarrow> [] | Some l \<Rightarrow> l))
   | _ \<Rightarrow> None)"

text \<open>Standard base64 with padding; line breaks are skipped.\<close>

definition b64val :: "char \<Rightarrow> nat option" where
  "b64val c = (let n = (of_char c :: nat) in
     if 65 \<le> n \<and> n \<le> 90 then Some (n - 65)
     else if 97 \<le> n \<and> n \<le> 122 then Some (n - 71)
     else if 48 \<le> n \<and> n \<le> 57 then Some (n + 4)
     else if n = 43 then Some 62
     else if n = 47 then Some 63
     else None)"

fun b64_quanta :: "string \<Rightarrow> bytes option" where
  "b64_quanta [] = Some []"
| "b64_quanta (a # b # c # d # r) =
     (case (b64val a, b64val b) of
        (Some x, Some y) \<Rightarrow>
          if c = CHR ''='' then
            (if d = CHR ''='' \<and> r = [] then Some [word_of_nat (x * 4 + y div 16)] else None)
          else (case b64val c of
              None \<Rightarrow> None
            | Some z \<Rightarrow>
                if d = CHR ''='' then
                  (if r = [] then Some [word_of_nat (x * 4 + y div 16), word_of_nat (y mod 16 * 16 + z div 4)]
                   else None)
                else (case b64val d of
                    None \<Rightarrow> None
                  | Some w \<Rightarrow>
                      map_option (\<lambda>q. word_of_nat (x * 4 + y div 16) # word_of_nat (y mod 16 * 16 + z div 4) #
                          word_of_nat (z mod 4 * 64 + w) # q) (b64_quanta r)))
      | _ \<Rightarrow> None)"
| "b64_quanta _ = None"

definition base64_Decode :: "string \<Rightarrow> bytes option" where
  "base64_Decode s = b64_quanta (filter (\<lambda>c. (of_char c :: nat) \<notin> {10, 13}) s)"

definition dec_bytes :: "bytes option decoder" where
  "dec_bytes v old = (case v of
     RStr s \<Rightarrow> map_option Some (base64_Decode (unquote s))
   | _ \<Rightarrow> dec_slice 0 dec_uint v old)"

text \<open>A map of strings keeps what it holds and gets the new entries; a null entry is empty.\<close>

fun dec_entries :: "(string \<times> jraw) list \<Rightarrow> (string, string) gomap \<Rightarrow> (string, string) gomap option" where
  "dec_entries [] m = Some m"
| "dec_entries ((k, v) # ms) m =
     (case dec_string v [] of None \<Rightarrow> None | Some x \<Rightarrow> dec_entries ms (gm_put (unquote k) x m))"

definition dec_string_map :: "(string, string) gomap option decoder" where
  "dec_string_map v old = (case v of
     RNull \<Rightarrow> Some None
   | RObj ms \<Rightarrow> map_option Some (dec_entries ms (case old of None \<Rightarrow> [] | Some m \<Rightarrow> m))
   | _ \<Rightarrow> None)"


section \<open>Interface values\<close>

text \<open>
  A number in an interface value becomes a \<^verbatim>\<open>float64\<close>, which fails when it is too
  large: when it is at least half a unit above the largest one. It is kept as its text.
\<close>

definition float_parts :: "string \<Rightarrow> nat \<times> int" where
  "float_parts n =
     (let s = (case n of c # t \<Rightarrow> if c = CHR ''-'' then t else n | [] \<Rightarrow> []);
          i = takeWhile is_digit s; r = dropWhile is_digit s;
          f = (case r of c # t \<Rightarrow> if c = CHR ''.'' then takeWhile is_digit t else [] | [] \<Rightarrow> []);
          q = drop (if f = [] then 0 else Suc (length f)) r;
          e = (case q of [] \<Rightarrow> 0
               | _ # t \<Rightarrow> (case ParseInt (case t of c # u \<Rightarrow> if c = CHR ''+'' then u else t | [] \<Rightarrow> []) of
                            None \<Rightarrow> 0 | Some x \<Rightarrow> x))
      in (dec_value (i @ f), e - int (length f)))"

definition float64_limit :: nat where
  "float64_limit = 2 ^ 1024 - 2 ^ 970"

definition float64_ok :: "string \<Rightarrow> bool" where
  "float64_ok n = (case float_parts n of (m, e) \<Rightarrow>
     m = 0 \<or> (if 0 \<le> e then e \<le> 400 \<and> m * 10 ^ nat e < float64_limit else m < float64_limit * 10 ^ nat (- e)))"

fun dec_value_any :: "jraw \<Rightarrow> json option" where
  "dec_value_any RNull = Some JNull"
| "dec_value_any (RBool b) = Some (JBool b)"
| "dec_value_any (RNum n) = (if float64_ok n then Some (JNum n) else None)"
| "dec_value_any (RStr s) = Some (JStr (unquote s))"
| "dec_value_any (RArr vs) = map_option JArr (those (map dec_value_any vs))"
| "dec_value_any (RObj ms) =
     map_option (\<lambda>l. JObj (fold (\<lambda>(k, v). gm_put k v) l []))
       (those (map (\<lambda>(k, v). map_option (Pair (unquote k)) (dec_value_any v)) ms))"

definition dec_any :: "json decoder" where
  "dec_any v old = dec_value_any v"

text \<open>
  An interface variable that was given a pointer before decoding: a value other than null
  is decoded into the target while the pointer is there; null removes it, and what follows
  is decoded as a plain value. \<open>Some\<close> is the pointer's target, \<open>None\<close> anything else.
\<close>

definition dec_held :: "'a decoder \<Rightarrow> 'a option decoder" where
  "dec_held d v old = (case v of
     RNull \<Rightarrow> Some None
   | _ \<Rightarrow> (case old of Some x \<Rightarrow> map_option Some (d v x) | None \<Rightarrow> map_option (\<lambda>_. None) (dec_value_any v)))"


section \<open>Time stamps\<close>

text \<open>
  \<^verbatim>\<open>time.Time\<close> decodes the text between the quotes, without undoing escapes, as
  \<^verbatim>\<open>time.Parse\<close> reads RFC 3339: the hour may have one digit, a fraction may follow the
  seconds after a period or comma, the offset may go up to 24:60. The accepted text is kept.
\<close>

definition num2 :: "bool \<Rightarrow> string \<Rightarrow> (nat \<times> string) option" where
  "num2 fixed s = (case s of
     a # b # r \<Rightarrow>
       if \<not> is_digit a then None
       else if is_digit b then Some (dec_value [a, b], r)
       else if fixed then None else Some (dec_value [a], b # r)
   | [a] \<Rightarrow> if is_digit a \<and> \<not> fixed then Some (dec_value [a], []) else None
   | [] \<Rightarrow> None)"

definition skip_char :: "char \<Rightarrow> string \<Rightarrow> string option" where
  "skip_char c s = (case s of x # r \<Rightarrow> if x = c then Some r else None | [] \<Rightarrow> None)"

definition days_in :: "nat \<Rightarrow> nat \<Rightarrow> nat" where
  "days_in month year =
     (if month = 2 then (if 4 dvd year \<and> (\<not> 100 dvd year \<or> 400 dvd year) then 29 else 28)
      else if month \<in> {4, 6, 9, 11} then 30 else 31)"

definition zone_ok :: "string \<Rightarrow> bool" where
  "zone_ok s = (case s of
     [c] \<Rightarrow> c = CHR ''Z''
   | [sg, h1, h2, colon, m1, m2] \<Rightarrow>
       (sg = CHR ''+'' \<or> sg = CHR ''-'') \<and> colon = CHR '':'' \<and> list_all is_digit [h1, h2, m1, m2] \<and>
       dec_value [h1, h2] \<le> 24 \<and> dec_value [m1, m2] \<le> 60
   | _ \<Rightarrow> False)"

definition drop_fraction :: "string \<Rightarrow> string" where
  "drop_fraction s = (case s of
     c # d # r \<Rightarrow> if (c = CHR ''.'' \<or> c = CHR '','') \<and> is_digit d then dropWhile is_digit r else s
   | _ \<Rightarrow> s)"

definition rfc3339_clock :: "string \<Rightarrow> bool" where
  "rfc3339_clock s =
     (case num2 False s of None \<Rightarrow> False | Some (hour, s) \<Rightarrow>
     (case skip_char (CHR '':'') s of None \<Rightarrow> False | Some s \<Rightarrow>
     (case num2 True s of None \<Rightarrow> False | Some (mi, s) \<Rightarrow>
     (case skip_char (CHR '':'') s of None \<Rightarrow> False | Some s \<Rightarrow>
     (case num2 True s of None \<Rightarrow> False | Some (sec, s) \<Rightarrow>
        hour < 24 \<and> mi < 60 \<and> sec < 60 \<and> zone_ok (drop_fraction s))))))"

definition rfc3339_ok :: "string \<Rightarrow> bool" where
  "rfc3339_ok s =
     (let y = take 4 s in
      length y = 4 \<and> list_all is_digit y \<and>
     (case skip_char (CHR ''-'') (drop 4 s) of None \<Rightarrow> False | Some s \<Rightarrow>
     (case num2 True s of None \<Rightarrow> False | Some (month, s) \<Rightarrow>
     (case skip_char (CHR ''-'') s of None \<Rightarrow> False | Some s \<Rightarrow>
     (case num2 True s of None \<Rightarrow> False | Some (day, s) \<Rightarrow>
     (case skip_char (CHR ''T'') s of None \<Rightarrow> False | Some s \<Rightarrow>
        1 \<le> month \<and> month \<le> 12 \<and> 1 \<le> day \<and> day \<le> days_in month (dec_value y) \<and> rfc3339_clock s))))))"

definition zero_time :: string where
  "zero_time = ''0001-01-01T00:00:00Z''"

definition dec_time :: "string decoder" where
  "dec_time v old = (case v of
     RNull \<Rightarrow> Some old
   | RStr s \<Rightarrow> if rfc3339_ok s then Some s else None
   | _ \<Rightarrow> None)"


section \<open>Structs\<close>

text \<open>
  Names are compared after folding: ASCII letters to upper case, and the two letters outside
  ASCII (the long s, the Kelvin sign) whose case-folding orbit has an ASCII letter.
\<close>

definition ascii_upper :: "char \<Rightarrow> char" where
  "ascii_upper c = (let n = (of_char c :: nat) in if 97 \<le> n \<and> n \<le> 122 then char_of (n - 32) else c)"

fun foldName :: "string \<Rightarrow> string" where
  "foldName [] = []"
| "foldName (c # s) =
     (if take 2 (c # s) = [char_of (197 :: nat), char_of (191 :: nat)] then CHR ''S'' # foldName (drop 1 s)
      else if take 3 (c # s) = [char_of (226 :: nat), char_of (132 :: nat), char_of (170 :: nat)]
      then CHR ''K'' # foldName (drop 2 s)
      else ascii_upper c # foldName s)"

type_synonym 'r fields = "(string \<times> 'r decoder) list"

definition find_field :: "'r fields \<Rightarrow> string \<Rightarrow> 'r decoder option" where
  "find_field fs k = map_of (map (\<lambda>(n, d). (foldName n, d)) fs) (foldName k)"

fun dec_members :: "'r fields \<Rightarrow> (string \<times> jraw) list \<Rightarrow> 'r \<Rightarrow> 'r option" where
  "dec_members fs [] r = Some r"
| "dec_members fs ((k, v) # ms) r =
     (case find_field fs (unquote k) of
        None \<Rightarrow> dec_members fs ms r
      | Some d \<Rightarrow> (case d v r of None \<Rightarrow> None | Some r' \<Rightarrow> dec_members fs ms r'))"

definition dec_struct :: "'r fields \<Rightarrow> 'r decoder" where
  "dec_struct fs v old = (case v of
     RNull \<Rightarrow> Some old | RObj ms \<Rightarrow> dec_members fs ms old | _ \<Rightarrow> None)"

text \<open>A field: how it is read from the struct, how it is written, and the decoder of its type.\<close>

definition json_field ::
  "string \<Rightarrow> ('r \<Rightarrow> 'a) \<Rightarrow> (('a \<Rightarrow> 'a) \<Rightarrow> 'r \<Rightarrow> 'r) \<Rightarrow> 'a decoder \<Rightarrow> string \<times> 'r decoder" where
  "json_field n get upd d = (n, \<lambda>v r. map_option (\<lambda>x. upd (\<lambda>_. x) r) (d v (get r)))"

text \<open>\<^verbatim>\<open>json.Unmarshal\<close> into a variable of the type.\<close>

definition Unmarshal :: "'a decoder \<Rightarrow> 'a \<Rightarrow> bytes \<Rightarrow> 'a option" where
  "Unmarshal d zero b = (case json_Unmarshal b of None \<Rightarrow> None | Some v \<Rightarrow> d v zero)"


section \<open>Decoding inverts encoding\<close>

lemma to_valid_utf8_ascii: "list_all (\<lambda>c. (of_char c :: nat) < 128) s \<Longrightarrow> to_valid_utf8 s = s"
  by (induction s) simp_all

lemma dec_string_JStr [codec_simps]: "valid_utf8 s \<Longrightarrow> dec_string (raw_of html (JStr s)) old = Some s"
  by (simp add: dec_string_def unquote_body valid_utf8_def)

lemma dec_bool_JBool [codec_simps]: "dec_bool (raw_of html (JBool b)) old = Some b"
  by (simp add: dec_bool_def)

lemma dec_nat_all_digits: "list_all is_digit (dec_nat n)"
  using dec_nat_digits by (auto simp: list_all_iff)

lemma dec_uint_j_nat [codec_simps]: "dec_uint (raw_of html (j_nat (unat w))) old = Some w"
  by (simp add: dec_uint_def j_nat_def dec_nat_all_digits dec_value_dec_nat)

lemma dec_ptr_Some:
  "raw_of html j \<noteq> RNull \<Longrightarrow> d (raw_of html j) zero = Some x \<Longrightarrow> dec_ptr zero d (raw_of html j) None = Some (Some x)"
  by (cases "raw_of html j") (simp_all add: dec_ptr_def)

lemma dec_elems_map:
  "(\<And>x old. x \<in> set xs \<Longrightarrow> d (f x) old = Some (g x)) \<Longrightarrow> dec_elems zero d (map f xs) old = Some (map g xs)"
  by (induction xs arbitrary: old) simp_all

lemma dec_slice_strings [codec_simps]:
  "list_all valid_utf8 (case xs of None \<Rightarrow> [] | Some l \<Rightarrow> l) \<Longrightarrow>
     dec_slice [] dec_string (raw_of html (j_strings xs)) old = Some xs"
  using dec_elems_map [of "case xs of None \<Rightarrow> [] | Some l \<Rightarrow> l" dec_string "\<lambda>s. raw_of html (JStr s)" id "[]"]
  by (cases xs) (auto simp: dec_slice_def j_strings_def comp_def list_all_iff dec_string_JStr simp del: raw_of.simps(4))

text \<open>Base64.\<close>

lemma b64val_alphabet: "map b64val base64_alphabet = map Some [0..<64]"
  by (simp add: base64_alphabet_def b64val_def Let_def upt_conv_Cons)

lemma b64val_b64: "n < 64 \<Longrightarrow> b64val (b64 n) = Some n"
  using arg_cong [OF b64val_alphabet, of "\<lambda>l. l ! n"] by (simp add: b64_def base64_alphabet_def del: list.map)

lemma b64val_chars:
  "b64val c = Some n \<Longrightarrow> c \<noteq> CHR ''='' \<and> (of_char c :: nat) \<noteq> 10 \<and> (of_char c :: nat) \<noteq> 13 \<and> (of_char c :: nat) < 128"
  by (auto simp: b64val_def Let_def split: if_splits)

lemmas b64_chars = b64val_chars [OF b64val_b64]

lemma b64_bounds:
  "unat (a :: byte) div 4 < 64" "unat a mod 4 * 16 < 64" "unat a mod 4 * 16 + unat (b :: byte) div 16 < 64"
  "unat b mod 16 * 4 < 64" "unat b mod 16 * 4 + unat (c :: byte) div 64 < 64" "unat c mod 64 < 64"
  using unsigned_less [of a, where 'a = nat] unsigned_less [of b, where 'a = nat] unsigned_less [of c, where 'a = nat] by simp_all

lemma b64_join:
  "unat (a :: byte) div 4 * 4 + unat a mod 4 * 16 div 16 = unat a"
  "unat a div 4 * 4 + (unat a mod 4 * 16 + unat (b :: byte) div 16) div 16 = unat a"
  "(unat a mod 4 * 16 + unat b div 16) mod 16 * 16 + (unat b mod 16 * 4) div 4 = unat b"
  "(unat a mod 4 * 16 + unat b div 16) mod 16 * 16 + (unat b mod 16 * 4 + unat (c :: byte) div 64) div 4 = unat b"
  "(unat b mod 16 * 4 + unat c div 64) mod 4 * 64 + unat c mod 64 = unat c"
  using unsigned_less [of a, where 'a = nat] unsigned_less [of b, where 'a = nat] unsigned_less [of c, where 'a = nat] by (simp_all add: algebra_simps)

lemma b64_quanta_step:
  assumes "x < 64" "y < 64" "x * 4 + y div 16 = unat a"
  shows "b64_quanta [b64 x, b64 y, CHR ''='', CHR ''=''] = Some [a]"
    and "z < 64 \<Longrightarrow> y mod 16 * 16 + z div 4 = unat b \<Longrightarrow> b64_quanta [b64 x, b64 y, b64 z, CHR ''=''] = Some [a, b]"
    and "z < 64 \<Longrightarrow> w < 64 \<Longrightarrow> y mod 16 * 16 + z div 4 = unat b \<Longrightarrow> z mod 4 * 64 + w = unat c \<Longrightarrow>
      b64_quanta (b64 x # b64 y # b64 z # b64 w # s) = map_option (\<lambda>q. a # b # c # q) (b64_quanta s)"
  using assms by (simp_all add: b64val_b64 b64_chars del: of_nat_add of_nat_mult)

lemma b64_quanta_encode: "b64_quanta (base64_Encode b) = Some b"
proof (induction b rule: base64_Encode.induct)
  case 1
  then show ?case by simp
next
  case (2 a)
  show ?case unfolding base64_Encode.simps by (intro b64_quanta_step b64_bounds b64_join)
next
  case (3 a b)
  show ?case unfolding base64_Encode.simps by (intro b64_quanta_step b64_bounds b64_join)
next
  case (4 a b c r)
  have "b64_quanta (base64_Encode (a # b # c # r)) = map_option (\<lambda>q. a # b # c # q) (b64_quanta (base64_Encode r))"
    unfolding base64_Encode.simps by (intro b64_quanta_step b64_bounds b64_join)
  with 4 show ?case by simp
qed

lemma base64_Encode_chars: "c \<in> set (base64_Encode b) \<Longrightarrow> (of_char c :: nat) < 128 \<and> (of_char c :: nat) \<noteq> 10 \<and> (of_char c :: nat) \<noteq> 13"
  by (induction b rule: base64_Encode.induct) (auto simp: b64_chars b64_bounds)

lemma base64_Decode_Encode [codec_simps]: "base64_Decode (base64_Encode b) = Some b"
proof -
  have "filter (\<lambda>c. (of_char c :: nat) \<notin> {10, 13}) (base64_Encode b) = base64_Encode b"
    by (rule filter_True) (use base64_Encode_chars in auto)
  then show ?thesis by (simp add: base64_Decode_def b64_quanta_encode)
qed

lemma valid_utf8_base64: "valid_utf8 (base64_Encode b)"
  using base64_Encode_chars by (auto simp: valid_utf8_def list_all_iff intro!: to_valid_utf8_ascii)

lemma dec_bytes_j_bytes [codec_simps]: "dec_bytes (raw_of html (j_bytes b)) old = Some b"
  using valid_utf8_base64
  by (cases b) (simp_all add: dec_bytes_def dec_slice_def j_bytes_def unquote_body valid_utf8_def base64_Decode_Encode)


text \<open>Maps: the decoded map has the same entries, in the order of the keys.\<close>

definition gm_sort :: "(string, string) gomap \<Rightarrow> (string, string) gomap" where
  "gm_sort l = map (\<lambda>k. (k, gm_get_or [] l k)) (sort (gm_keys l))"

lemma gm_sort_lookup: "map_of (gm_sort l) = map_of l"
proof
  fix k
  have "map_of (map (\<lambda>k. (k, f k)) ks) k = (if k \<in> set ks then Some (f k) else None)" for f :: "string \<Rightarrow> string" and ks
    by (induction ks) auto
  then show "map_of (gm_sort l) k = map_of l k"
    using set_gm_keys [of l] by (cases "map_of l k") (auto simp: gm_sort_def gm_get_or_def)
qed

definition raw_members :: "bool \<Rightarrow> (string \<times> json) list \<Rightarrow> (string \<times> jraw) list" where
  "raw_members html ms = map (\<lambda>(k, v). (json_string_body html k, raw_of html v)) ms"

lemma dec_entries_strings:
  assumes "\<And>k. k \<in> set ks \<Longrightarrow> valid_utf8 k \<and> valid_utf8 (f k)"
  shows "dec_entries (raw_members html (map (\<lambda>k. (k, JStr (f k))) ks)) m = Some (fold (\<lambda>k. gm_put k (f k)) ks m)"
  using assms
proof (induction ks arbitrary: m)
  case (Cons k ks)
  then have "unquote (json_string_body html k) = k" "dec_string (raw_of html (JStr (f k))) [] = Some (f k)"
    by (simp_all add: unquote_body valid_utf8_def dec_string_def)
  with Cons show ?case by (simp add: raw_members_def)
qed (simp add: raw_members_def)

definition strings_ok :: "(string, string) gomap \<Rightarrow> bool" where
  "strings_ok m \<longleftrightarrow> list_all (\<lambda>(k, v). valid_utf8 k \<and> valid_utf8 v) m"

lemma strings_ok_get: "strings_ok m \<Longrightarrow> k \<in> set (gm_keys m) \<Longrightarrow> valid_utf8 k \<and> valid_utf8 (gm_get_or [] m k)"
  by (auto simp: strings_ok_def gm_get_or_def list_all_iff split: option.split dest!: map_of_SomeD)
    (auto simp: map_of_eq_None_iff image_iff)

lemma dec_string_map_j [codec_simps]:
  assumes "case m of None \<Rightarrow> True | Some l \<Rightarrow> gm_wf l \<and> strings_ok l"
  shows "dec_string_map (raw_of html (j_string_map m)) None = Some (map_option gm_sort m)"
proof (cases m)
  case None
  then show ?thesis by (simp add: dec_string_map_def j_string_map_def)
next
  case (Some l)
  let ?ks = "sort (gm_keys l)"
  have "dec_entries (raw_members html (map (\<lambda>k. (k, JStr (gm_get_or [] l k))) ?ks)) [] =
      Some (fold (\<lambda>k. gm_put k (gm_get_or [] l k)) ?ks [])"
    using assms Some strings_ok_get [of l] by (intro dec_entries_strings) simp
  also have "fold (\<lambda>k. gm_put k (gm_get_or [] l k)) ?ks [] = gm_sort l"
    using assms Some by (subst fold_gm_put_fresh) (simp_all add: gm_sort_def gm_wf_def)
  finally show ?thesis
    using Some by (simp add: dec_string_map_def j_string_map_def raw_members_def)
qed

text \<open>Structs: members with plain names are found by name.\<close>

definition plain_name :: "string \<Rightarrow> bool" where
  "plain_name s \<longleftrightarrow> list_all (\<lambda>c. 90 < (of_char c :: nat) \<and> (of_char c :: nat) < 128) s"

lemma plain_name_ascii: "plain_name s \<Longrightarrow> to_valid_utf8 s = s"
  by (rule to_valid_utf8_ascii) (auto simp: plain_name_def list_all_iff)

lemma plain_name_valid: "plain_name s \<Longrightarrow> valid_utf8 s"
  by (simp add: valid_utf8_def plain_name_ascii)

lemma foldName_ascii: "list_all (\<lambda>c. (of_char c :: nat) < 128) s \<Longrightarrow> foldName s = map ascii_upper s"
proof (induction s rule: foldName.induct)
  case (2 c s)
  then have "c \<noteq> char_of (197 :: nat)" "c \<noteq> char_of (226 :: nat)" by auto
  with 2 show ?case by simp
qed simp

lemma ascii_upper_inject:
  assumes "90 < (of_char c :: nat)" "90 < (of_char d :: nat)" "ascii_upper c = ascii_upper d"
  shows "c = d"
proof -
  have up: "(of_char (ascii_upper x) :: nat) = (if 97 \<le> (of_char x :: nat) \<and> (of_char x :: nat) \<le> 122
      then of_char x - 32 else of_char x)" for x
    by (auto simp: ascii_upper_def Let_def)
  have num: "m = n" if "90 < m" "90 < n" "(if 97 \<le> m \<and> m \<le> 122 then m - 32 else m) =
      (if 97 \<le> n \<and> n \<le> 122 then n - 32 else n)" for m n :: nat
    using that by (auto split: if_splits)
  have "(of_char c :: nat) = of_char d"
    using num [OF assms(1,2)] arg_cong [OF assms(3), of "of_char :: char \<Rightarrow> nat"] unfolding up by blast
  then show ?thesis by simp
qed

lemma foldName_inject: "plain_name a \<Longrightarrow> plain_name b \<Longrightarrow> foldName a = foldName b \<longleftrightarrow> a = b"
proof (induction a arbitrary: b)
  case Nil
  then show ?case by (auto simp: plain_name_def list_all_iff foldName_ascii)
next
  case (Cons x xs)
  have fold: "foldName s = map ascii_upper s" if "plain_name s" for s
    using that by (intro foldName_ascii) (auto simp: plain_name_def list_all_iff)
  show ?case
  proof (cases b)
    case Nil
    then show ?thesis using Cons fold by simp
  next
    case b: (Cons y ys)
    then have "foldName xs = foldName ys \<longleftrightarrow> xs = ys" using Cons by (simp add: plain_name_def)
    with b Cons fold [of "x # xs"] fold [of "y # ys"] fold [of xs] fold [of ys] ascii_upper_inject [of x y]
    show ?thesis by (auto simp: plain_name_def)
  qed
qed

lemma find_field_plain:
  "plain_name k \<Longrightarrow> list_all (\<lambda>(n, d). plain_name n) fs \<Longrightarrow> find_field fs k = map_of fs k"
  by (induction fs) (auto simp: find_field_def foldName_inject)

lemma dec_struct_obj: "dec_struct fs (raw_of html (JObj ms)) r = dec_members fs (raw_members html ms) r"
  by (simp add: dec_struct_def raw_members_def)

text \<open>One member: the decoder of the field with its name runs, and the others follow.\<close>

definition dec_member :: "'r fields \<Rightarrow> string \<Rightarrow> jraw \<Rightarrow> 'r \<Rightarrow> 'r option" where
  "dec_member fs k v r = (case map_of fs k of None \<Rightarrow> Some r | Some d \<Rightarrow> d v r)"

lemma dec_members_field:
  assumes "list_all (\<lambda>(n, d). plain_name n) fs" "plain_name k"
  shows "dec_members fs (raw_members html (field k v @ ms)) r =
      Option.bind (dec_member fs k (raw_of html v) r) (dec_members fs (raw_members html ms))"
    and "dec_members fs (raw_members html (field_unless z k v @ ms)) r =
      Option.bind (if z then Some r else dec_member fs k (raw_of html v) r) (dec_members fs (raw_members html ms))"
    and "dec_members fs (raw_members html (field k v)) r = dec_member fs k (raw_of html v) r"
    and "dec_members fs (raw_members html (field_unless z k v)) r =
      (if z then Some r else dec_member fs k (raw_of html v) r)"
  using assms find_field_plain [OF assms(2,1)] plain_name_ascii [OF assms(2)]
  by (simp_all add: raw_members_def field_def field_unless_def unquote_body dec_member_def
      bind_eq_Some_conv split: option.split Option.bind_split)

text \<open>A field that is left out is like null, where the variable holds its zero value.\<close>

lemma dec_members_omitted:
  assumes "list_all (\<lambda>(n, d). plain_name n) fs" "plain_name k" "dec_member fs k RNull r = Some r"
  shows "dec_members fs (raw_members html (field_unless z k v @ ms)) r =
      Option.bind (dec_member fs k (raw_of html (if z then JNull else v)) r) (dec_members fs (raw_members html ms))"
    and "dec_members fs (raw_members html (field_unless z k v)) r =
      dec_member fs k (raw_of html (if z then JNull else v)) r"
  using assms by (simp_all add: dec_members_field)

lemma dec_null [simp]:
  "dec_string RNull old = Some old" "dec_slice zero d RNull xs = Some None" "dec_string_map RNull m = Some None"
  "dec_ptr zero d' RNull p = Some None"
  by (simp_all add: dec_string_def dec_slice_def dec_string_map_def dec_ptr_def)


section \<open>Interface: types with a JSON form\<close>

text \<open>
  A type with an encoder, a decoder and a zero value to decode into. \<open>ok\<close> holds of the values
  whose strings are valid UTF-8; \<open>norm\<close> is what of the value survives the wire (an empty
  slice under \<^verbatim>\<open>omitempty\<close> comes back as nil, a map comes back sorted).
\<close>

locale json_codec =
  fixes enc :: "'a \<Rightarrow> json"
    and dec :: "'a decoder"
    and zero :: 'a
    and ok :: "'a \<Rightarrow> bool"
    and norm :: "'a \<Rightarrow> 'a"
  assumes enc_ok: "ok x \<Longrightarrow> json_ok (enc x)"
    and dec_enc: "ok x \<Longrightarrow> dec (raw_of html (enc x)) zero = Some (norm x)"
begin

lemma unmarshal_marshal: "ok x \<Longrightarrow> Unmarshal dec zero (json_Marshal (enc x)) = Some (norm x)"
  by (simp add: Unmarshal_def json_Unmarshal_text enc_ok dec_enc)

lemma unmarshal_encode: "ok x \<Longrightarrow> Unmarshal dec zero (json_Encode_raw (enc x)) = Some (norm x)"
  by (simp add: Unmarshal_def json_Unmarshal_text enc_ok dec_enc)

lemma marshal_norm:
  assumes "ok x" "ok y" "json_Marshal (enc x) = json_Marshal (enc y)"
  shows "norm x = norm y"
  using unmarshal_marshal [OF assms(1)] unmarshal_marshal [OF assms(2)] assms(3) by simp

end

end
