(* ===== verification/Decoding.thy ===== *)
theory Decoding
  imports Requests Go_Decode
begin

text \<open>
  The structs that cross the wire, as \<^verbatim>\<open>encoding/json\<close> decodes them: for each the table
  of its fields (the name in the tag, or the field's own name, and the decoder of its type),
  its zero value and its decoder. What the client receives is decoded with these; what it
  sends is decoded by a read node with the same structs.
\<close>


section \<open>Transactions, blocks and names\<close>

definition Bytea_zero :: Bytea where
  "Bytea_zero = \<lparr>ba_Bytes = None, ba_Status = 0\<rparr>"

definition Bytea_fields :: "Bytea fields" where
  "Bytea_fields = [
     json_field ''Bytes'' ba_Bytes ba_Bytes_update dec_bytes,
     json_field ''Status'' ba_Status ba_Status_update dec_int]"

definition dec_Bytea :: "Bytea decoder" where
  "dec_Bytea = dec_struct Bytea_fields"

definition Transaction_zero :: Transaction where
  "Transaction_zero = \<lparr>tx_Order = None, tx_ID = JNull, tx_Height = 0, tx_Identifier = [], tx_Version = 0,
     tx_Typ = [], tx_SenderAddr = [], tx_RecipientAddr = [], tx_Data = Bytea_zero,
     tx_AdditionalData = None, tx_CipherData = None, tx_Sign = Bytea_zero, tx_Fee = 0, tx_Hash = [],
     tx_InsertedAt = zero_time\<rparr>"

definition Transaction_fields :: "Transaction fields" where
  "Transaction_fields = [
     json_field ''order'' tx_Order tx_Order_update (dec_ptr 0 dec_uint),
     json_field ''id'' tx_ID tx_ID_update dec_any,
     json_field ''height'' tx_Height tx_Height_update dec_uint,
     json_field ''identifier'' tx_Identifier tx_Identifier_update dec_string,
     json_field ''version'' tx_Version tx_Version_update dec_uint,
     json_field ''typ'' tx_Typ tx_Typ_update dec_string,
     json_field ''sender_addr'' tx_SenderAddr tx_SenderAddr_update dec_string,
     json_field ''recipient_addr'' tx_RecipientAddr tx_RecipientAddr_update dec_string,
     json_field ''data'' tx_Data tx_Data_update dec_Bytea,
     json_field ''additional_data'' tx_AdditionalData tx_AdditionalData_update (dec_ptr Bytea_zero dec_Bytea),
     json_field ''cipher_data'' tx_CipherData tx_CipherData_update (dec_ptr Bytea_zero dec_Bytea),
     json_field ''sign'' tx_Sign tx_Sign_update dec_Bytea,
     json_field ''fee'' tx_Fee tx_Fee_update dec_uint,
     json_field ''hash'' tx_Hash tx_Hash_update dec_string,
     json_field ''inserted_at'' tx_InsertedAt tx_InsertedAt_update dec_time]"

definition dec_Transaction :: "Transaction decoder" where
  "dec_Transaction = dec_struct Transaction_fields"

text \<open>A slice of pointers to transactions.\<close>

definition dec_transactions :: "Transaction option list option decoder" where
  "dec_transactions = dec_slice None (dec_ptr Transaction_zero dec_Transaction)"

definition Block_zero :: Block where
  "Block_zero = \<lparr>bl_Height = 0, bl_TXS = 0, bl_Hash = None, bl_Transactions = None,
     bl_ChainName = None, bl_ChainVersion = None\<rparr>"

definition Block_fields :: "Block fields" where
  "Block_fields = [
     json_field ''height'' bl_Height bl_Height_update dec_uint,
     json_field ''txs'' bl_TXS bl_TXS_update dec_int,
     json_field ''hash'' bl_Hash bl_Hash_update (dec_ptr [] dec_string),
     json_field ''transactions'' bl_Transactions bl_Transactions_update dec_transactions,
     json_field ''chain_name'' bl_ChainName bl_ChainName_update (dec_ptr [] dec_string),
     json_field ''chain_version'' bl_ChainVersion bl_ChainVersion_update (dec_ptr [] dec_string)]"

definition dec_Block :: "Block decoder" where
  "dec_Block = dec_struct Block_fields"

definition LastBlock_zero :: LastBlock where
  "LastBlock_zero = \<lparr>lb_Blocks = None, lb_TotalCount = 0\<rparr>"

definition LastBlock_fields :: "LastBlock fields" where
  "LastBlock_fields = [
     json_field ''data'' lb_Blocks lb_Blocks_update dec_transactions,
     json_field ''total_count'' lb_TotalCount lb_TotalCount_update dec_uint]"

definition dec_LastBlock :: "LastBlock decoder" where
  "dec_LastBlock = dec_struct LastBlock_fields"

definition NS_zero :: NS where
  "NS_zero = \<lparr>ns_Identifier = [], ns_PublicIDs = None\<rparr>"

definition NS_fields :: "NS fields" where
  "NS_fields = [
     json_field ''identifier'' ns_Identifier ns_Identifier_update dec_string,
     json_field ''addresses'' ns_PublicIDs ns_PublicIDs_update (dec_slice [] dec_string)]"

definition dec_NS :: "NS decoder" where
  "dec_NS = dec_struct NS_fields"


section \<open>Responses\<close>

text \<open>
  \<^verbatim>\<open>Response\<close> with the decoder of what its \<^verbatim>\<open>Data\<close> variable holds: any value, or
  the transaction or name whose pointer was put there before decoding.
\<close>

definition Response_zero :: "'d option \<Rightarrow> 'd Response" where
  "Response_zero d = \<lparr>rsp_Message = None, rsp_Data = d, rsp_TotalCount = 0, rsp_Error = False,
     rsp_Errors = None, rsp_Detail = None\<rparr>"

definition Response_fields :: "'d option decoder \<Rightarrow> 'd Response fields" where
  "Response_fields d = [
     json_field ''message'' rsp_Message rsp_Message_update (dec_ptr [] dec_string),
     json_field ''data'' rsp_Data rsp_Data_update d,
     json_field ''total_count'' rsp_TotalCount rsp_TotalCount_update dec_uint,
     json_field ''error'' rsp_Error rsp_Error_update dec_bool,
     json_field ''errors'' rsp_Errors rsp_Errors_update dec_string_map,
     json_field ''detail'' rsp_Detail rsp_Detail_update (dec_ptr [] dec_string)]"

definition dec_Response :: "json Response decoder" where
  "dec_Response = dec_struct (Response_fields (dec_ptr JNull dec_any))"

definition dec_TxResponse :: "Transaction Response decoder" where
  "dec_TxResponse = dec_struct (Response_fields (dec_held dec_Transaction))"

definition dec_NSResponse :: "NS Response decoder" where
  "dec_NSResponse = dec_struct (Response_fields (dec_held dec_NS))"

definition SearchResponse_zero :: SearchResponse where
  "SearchResponse_zero = \<lparr>sr_TXS = None, sr_TotalCount = 0\<rparr>"

definition SearchResponse_fields :: "SearchResponse fields" where
  "SearchResponse_fields = [
     json_field ''data'' sr_TXS sr_TXS_update dec_transactions,
     json_field ''total_count'' sr_TotalCount sr_TotalCount_update dec_uint]"

definition dec_SearchResponse :: "SearchResponse decoder" where
  "dec_SearchResponse = dec_struct SearchResponse_fields"

text \<open>The inner struct of a summary and of a broadcast response is flattened in the record.\<close>

definition SummaryResponse_zero :: SummaryResponse where
  "SummaryResponse_zero = \<lparr>smr_LastBlockHeight = 0, smr_LastTransaction = None, smr_TotalCount = 0\<rparr>"

definition SummaryResponse_Data_fields :: "SummaryResponse fields" where
  "SummaryResponse_Data_fields = [
     json_field ''last_block_height'' smr_LastBlockHeight smr_LastBlockHeight_update dec_uint,
     json_field ''last_transaction'' smr_LastTransaction smr_LastTransaction_update
       (dec_ptr Transaction_zero dec_Transaction)]"

definition SummaryResponse_fields :: "SummaryResponse fields" where
  "SummaryResponse_fields = [
     (''data'', dec_struct SummaryResponse_Data_fields),
     json_field ''total_count'' smr_TotalCount smr_TotalCount_update dec_uint]"

definition dec_SummaryResponse :: "SummaryResponse decoder" where
  "dec_SummaryResponse = dec_struct SummaryResponse_fields"

definition BroadcastResponse_zero :: BroadcastResponse where
  "BroadcastResponse_zero = \<lparr>br_Hash = [], br_Code = 0, br_Data = None, br_Log = [], br_Codespace = []\<rparr>"

definition BroadcastResponse_Data_fields :: "BroadcastResponse fields" where
  "BroadcastResponse_Data_fields = [
     json_field ''hash'' br_Hash br_Hash_update dec_string,
     json_field ''code'' br_Code br_Code_update dec_uint,
     json_field ''data'' br_Data br_Data_update dec_bytes,
     json_field ''log'' br_Log br_Log_update dec_string,
     json_field ''codespace'' br_Codespace br_Codespace_update dec_string]"

definition BroadcastResponse_fields :: "BroadcastResponse fields" where
  "BroadcastResponse_fields = [(''data'', dec_struct BroadcastResponse_Data_fields)]"

definition dec_BroadcastResponse :: "BroadcastResponse decoder" where
  "dec_BroadcastResponse = dec_struct BroadcastResponse_fields"


section \<open>What the client sends\<close>

definition Message_fields :: "Message fields" where
  "Message_fields = [
     json_field ''client_instance_id'' msg_ClientInstanceID msg_ClientInstanceID_update dec_string,
     json_field ''is_web'' msg_IsWeb msg_IsWeb_update dec_bool,
     json_field ''type'' msg_Type msg_Type_update dec_string,
     json_field ''addrs'' msg_Addrs msg_Addrs_update (dec_slice [] dec_string),
     json_field ''signed_addrs'' msg_SignedAddrs msg_SignedAddrs_update dec_string_map,
     json_field ''tx_types'' msg_TXTypes msg_TXTypes_update (dec_slice [] dec_string),
     json_field ''data'' msg_Data msg_Data_update dec_bytes]"

definition dec_Message :: "Message decoder" where
  "dec_Message = dec_struct Message_fields"

definition Broadcast_zero :: Broadcast where
  "Broadcast_zero = \<lparr>b_ID = [], b_Version = 0, b_Type = [], b_SenderAddr = [], b_RecipientAddr = [],
     b_Data = None, b_AdditionalData = None, b_CipherData = None, b_Sign = None, b_Fee = 0\<rparr>"

definition Broadcast_fields :: "Broadcast fields" where
  "Broadcast_fields = [
     json_field ''id'' b_ID b_ID_update dec_string,
     json_field ''version'' b_Version b_Version_update dec_uint,
     json_field ''type'' b_Type b_Type_update dec_string,
     json_field ''sender_addr'' b_SenderAddr b_SenderAddr_update dec_string,
     json_field ''recipient_addr'' b_RecipientAddr b_RecipientAddr_update dec_string,
     json_field ''data'' b_Data b_Data_update dec_bytes,
     json_field ''additional_data'' b_AdditionalData b_AdditionalData_update (dec_ptr None dec_bytes),
     json_field ''cipher_data'' b_CipherData b_CipherData_update (dec_ptr None dec_bytes),
     json_field ''sign'' b_Sign b_Sign_update dec_bytes,
     json_field ''fee'' b_Fee b_Fee_update dec_uint]"

definition dec_Broadcast :: "Broadcast decoder" where
  "dec_Broadcast = dec_struct Broadcast_fields"

definition Search_zero :: Search where
  "Search_zero = \<lparr>s_Limit = 0, s_Height = 0, s_Offset = 0, s_MaxHeight = 0, s_LastOrder = 0, s_Type = [],
     s_Types = None, s_PHeight = [], s_OrderBy = [], s_OrderField = [], s_HeightOperator = [],
     s_RecipientAddresses = None, s_SenderAddresses = None, s_SignedAddresses = None, s_Hashes = None,
     s_ChainName = None, s_ChainVersion = None\<rparr>"

definition Search_fields :: "Search fields" where
  "Search_fields = [
     json_field ''limit'' s_Limit s_Limit_update dec_uint,
     json_field ''offset'' s_Offset s_Offset_update dec_uint,
     json_field ''max_height'' s_MaxHeight s_MaxHeight_update dec_uint,
     json_field ''last_order'' s_LastOrder s_LastOrder_update dec_uint,
     json_field ''typ'' s_Type s_Type_update dec_string,
     json_field ''types'' s_Types s_Types_update (dec_slice [] dec_string),
     json_field ''height'' s_PHeight s_PHeight_update dec_string,
     json_field ''order_by'' s_OrderBy s_OrderBy_update dec_string,
     json_field ''order_field'' s_OrderField s_OrderField_update dec_string,
     json_field ''recipient_addrs'' s_RecipientAddresses s_RecipientAddresses_update (dec_slice [] dec_string),
     json_field ''sender_addrs'' s_SenderAddresses s_SenderAddresses_update (dec_slice [] dec_string),
     json_field ''signed_addrs'' s_SignedAddresses s_SignedAddresses_update dec_string_map,
     json_field ''hashes'' s_Hashes s_Hashes_update (dec_slice [] dec_string),
     json_field ''chain_name'' s_ChainName s_ChainName_update (dec_ptr [] dec_string),
     json_field ''chain_version'' s_ChainVersion s_ChainVersion_update (dec_ptr [] dec_string)]"

definition dec_Search :: "Search decoder" where
  "dec_Search = dec_struct Search_fields"

definition Summary_zero :: Summary where
  "Summary_zero = \<lparr>sm_RecipientAddresses = None, sm_SenderAddresses = None, sm_Type = [],
     sm_ChainName = None, sm_ChainVersion = None, sm_SignedAddresses = None\<rparr>"

definition Summary_fields :: "Summary fields" where
  "Summary_fields = [
     json_field ''recipient_addrs'' sm_RecipientAddresses sm_RecipientAddresses_update (dec_slice [] dec_string),
     json_field ''sender_addrs'' sm_SenderAddresses sm_SenderAddresses_update (dec_slice [] dec_string),
     json_field ''typ'' sm_Type sm_Type_update dec_string,
     json_field ''chain_name'' sm_ChainName sm_ChainName_update (dec_ptr [] dec_string),
     json_field ''chain_version'' sm_ChainVersion sm_ChainVersion_update (dec_ptr [] dec_string),
     json_field ''signed_addrs'' sm_SignedAddresses sm_SignedAddresses_update dec_string_map]"

definition dec_Summary :: "Summary decoder" where
  "dec_Summary = dec_struct Summary_fields"


section \<open>What a node reads of it\<close>

definition slice_ok :: "string list option \<Rightarrow> bool" where
  "slice_ok xs = list_all valid_utf8 (case xs of None \<Rightarrow> [] | Some l \<Rightarrow> l)"

definition map_ok :: "(string, string) gomap option \<Rightarrow> bool" where
  "map_ok m = (case m of None \<Rightarrow> True | Some l \<Rightarrow> gm_wf l \<and> strings_ok l)"

definition Message_ok :: "Message \<Rightarrow> bool" where
  "Message_ok m \<longleftrightarrow> valid_utf8 (msg_ClientInstanceID m) \<and> valid_utf8 (msg_Type m) \<and>
     slice_ok (msg_Addrs m) \<and> map_ok (msg_SignedAddrs m) \<and> slice_ok (msg_TXTypes m)"

definition Message_norm :: "Message \<Rightarrow> Message" where
  "Message_norm m = m\<lparr>msg_SignedAddrs := map_option gm_sort (msg_SignedAddrs m),
     msg_Data := (if msg_Data m = Some [] then None else msg_Data m)\<rparr>"

lemma foldr_max_le: "(\<And>x. x \<in> set xs \<Longrightarrow> x \<le> n) \<Longrightarrow> foldr max xs (0 :: nat) \<le> n"
  by (induction xs) auto

lemma json_ok_parts [simp]:
  "json_nums_ok (j_nat n)" "json_strings_ok (j_nat n)" "json_depth (j_nat n) = 0"
  "json_nums_ok (j_strings xs)" "json_strings_ok (j_strings xs) = slice_ok xs" "json_depth (j_strings xs) \<le> Suc 0"
  "json_nums_ok (j_bytes b)" "json_strings_ok (j_bytes b)" "json_depth (j_bytes b) = 0"
  "json_nums_ok (j_string_map m)" "map_ok m \<Longrightarrow> json_strings_ok (j_string_map m)" "json_depth (j_string_map m) \<le> Suc 0"
proof -
  show "json_nums_ok (j_nat n)" "json_strings_ok (j_nat n)" "json_depth (j_nat n) = 0"
    by (simp_all add: j_nat_def scan_number_dec_nat)
  show "json_nums_ok (j_strings xs)" "json_strings_ok (j_strings xs) = slice_ok xs" "json_depth (j_strings xs) \<le> Suc 0"
    by (auto simp: j_strings_def slice_ok_def list_all_iff split: option.split)
      (rule le_zero_eq [THEN iffD1], rule foldr_max_le, auto)
  show "json_nums_ok (j_bytes b)" "json_strings_ok (j_bytes b)" "json_depth (j_bytes b) = 0"
    by (simp_all add: j_bytes_def valid_utf8_base64 split: option.split)
  show "json_nums_ok (j_string_map m)" "json_depth (j_string_map m) \<le> Suc 0"
    by (auto simp: j_string_map_def list_all_iff split: option.split)
      (rule le_zero_eq [THEN iffD1], rule foldr_max_le, auto)
  show "map_ok m \<Longrightarrow> json_strings_ok (j_string_map m)"
    using strings_ok_get by (auto simp: j_string_map_def map_ok_def list_all_iff split: option.splits)
qed

lemma json_ok_obj:
  assumes "list_all (\<lambda>(k, v). json_nums_ok v \<and> plain_name k \<and> json_strings_ok v \<and> json_depth v \<le> Suc 0) ms"
  shows "json_ok (JObj ms)"
proof -
  have "foldr max (map (\<lambda>(k, v). json_depth v) ms) 0 \<le> 1"
    using assms by (intro foldr_max_le) (auto simp: list_all_iff)
  moreover have "list_all (\<lambda>(k, v). json_nums_ok v) ms" "list_all (\<lambda>(k, v). valid_utf8 k \<and> json_strings_ok v) ms"
    using assms plain_name_ascii by (auto simp: list_all_iff valid_utf8_def)
  ultimately show ?thesis by (simp add: json_ok_def maxNestingDepth_def)
qed

lemma Message_fields_plain: "list_all (\<lambda>(n, d). plain_name n) Message_fields"
  by (simp add: Message_fields_def json_field_def plain_name_def)

lemma Message_json_ok: "Message_ok m \<Longrightarrow> json_ok (json_of_Message m)"
  unfolding json_of_Message_def
  by (rule json_ok_obj) (simp add: Message_ok_def field_def field_unless_def plain_name_def)

lemma Message_member:
  "dec_member Message_fields ''client_instance_id'' v r = map_option (\<lambda>x. r\<lparr>msg_ClientInstanceID := x\<rparr>) (dec_string v (msg_ClientInstanceID r))"
  "dec_member Message_fields ''is_web'' v r = map_option (\<lambda>x. r\<lparr>msg_IsWeb := x\<rparr>) (dec_bool v (msg_IsWeb r))"
  "dec_member Message_fields ''type'' v r = map_option (\<lambda>x. r\<lparr>msg_Type := x\<rparr>) (dec_string v (msg_Type r))"
  "dec_member Message_fields ''addrs'' v r = map_option (\<lambda>x. r\<lparr>msg_Addrs := x\<rparr>) (dec_slice [] dec_string v (msg_Addrs r))"
  "dec_member Message_fields ''signed_addrs'' v r = map_option (\<lambda>x. r\<lparr>msg_SignedAddrs := x\<rparr>) (dec_string_map v (msg_SignedAddrs r))"
  "dec_member Message_fields ''tx_types'' v r = map_option (\<lambda>x. r\<lparr>msg_TXTypes := x\<rparr>) (dec_slice [] dec_string v (msg_TXTypes r))"
  "dec_member Message_fields ''data'' v r = map_option (\<lambda>x. r\<lparr>msg_Data := x\<rparr>) (dec_bytes v (msg_Data r))"
  by (simp_all add: dec_member_def Message_fields_def json_field_def)

lemma dec_Message_json:
  assumes "Message_ok m"
  shows "dec_Message (raw_of html (json_of_Message m)) Message_zero = Some (Message_norm m)"
  using assms
  unfolding dec_Message_def json_of_Message_def dec_struct_obj Message_ok_def slice_ok_def map_ok_def
  by (simp add: dec_members_field [OF Message_fields_plain] Message_member plain_name_def codec_simps
      Message_zero_def Message_norm_def del: raw_of.simps)

interpretation msgc: json_codec json_of_Message dec_Message Message_zero Message_ok Message_norm
  by unfold_locales (simp_all add: Message_json_ok dec_Message_json)

text \<open>A broadcast: a pointer to a nil slice comes back as a nil pointer.\<close>

definition Broadcast_ok :: "Broadcast \<Rightarrow> bool" where
  "Broadcast_ok b \<longleftrightarrow> valid_utf8 (b_ID b) \<and> valid_utf8 (b_Type b) \<and> valid_utf8 (b_SenderAddr b) \<and>
     valid_utf8 (b_RecipientAddr b)"

definition Broadcast_norm :: "Broadcast \<Rightarrow> Broadcast" where
  "Broadcast_norm b = b\<lparr>
     b_AdditionalData := (if b_AdditionalData b = Some None then None else b_AdditionalData b),
     b_CipherData := (if b_CipherData b = Some None then None else b_CipherData b)\<rparr>"

lemma Broadcast_fields_plain: "list_all (\<lambda>(n, d). plain_name n) Broadcast_fields"
  by (simp add: Broadcast_fields_def json_field_def plain_name_def)

lemma ptr_bytes_ok [simp]: "json_nums_ok (j_ptr_bytes p)" "json_strings_ok (j_ptr_bytes p)" "json_depth (j_ptr_bytes p) = 0"
  by (simp_all add: j_ptr_bytes_def split: option.split)

lemma Broadcast_json_ok: "Broadcast_ok b \<Longrightarrow> json_ok (json_of_Broadcast b)"
  unfolding json_of_Broadcast_def
  by (rule json_ok_obj) (simp add: Broadcast_ok_def field_def field_unless_def plain_name_def)

lemma dec_ptr_bytes [codec_simps]:
  "dec_ptr None dec_bytes (raw_of html (j_ptr_bytes p)) None = Some (if p = Some None then None else p)"
proof (cases "p \<in> {None, Some None}")
  case True
  then show ?thesis by (auto simp: j_ptr_bytes_def j_bytes_def dec_ptr_def)
next
  case False
  then obtain b where "p = Some (Some b)" by (cases p) (auto split: option.splits)
  then show ?thesis using dec_bytes_j_bytes [of html "Some b" None] by (simp add: j_ptr_bytes_def j_bytes_def dec_ptr_def)
qed

lemma Broadcast_member:
  "dec_member Broadcast_fields ''id'' v r = map_option (\<lambda>x. r\<lparr>b_ID := x\<rparr>) (dec_string v (b_ID r))"
  "dec_member Broadcast_fields ''version'' v r = map_option (\<lambda>x. r\<lparr>b_Version := x\<rparr>) (dec_uint v (b_Version r))"
  "dec_member Broadcast_fields ''type'' v r = map_option (\<lambda>x. r\<lparr>b_Type := x\<rparr>) (dec_string v (b_Type r))"
  "dec_member Broadcast_fields ''sender_addr'' v r = map_option (\<lambda>x. r\<lparr>b_SenderAddr := x\<rparr>) (dec_string v (b_SenderAddr r))"
  "dec_member Broadcast_fields ''recipient_addr'' v r = map_option (\<lambda>x. r\<lparr>b_RecipientAddr := x\<rparr>) (dec_string v (b_RecipientAddr r))"
  "dec_member Broadcast_fields ''data'' v r = map_option (\<lambda>x. r\<lparr>b_Data := x\<rparr>) (dec_bytes v (b_Data r))"
  "dec_member Broadcast_fields ''additional_data'' v r = map_option (\<lambda>x. r\<lparr>b_AdditionalData := x\<rparr>) (dec_ptr None dec_bytes v (b_AdditionalData r))"
  "dec_member Broadcast_fields ''cipher_data'' v r = map_option (\<lambda>x. r\<lparr>b_CipherData := x\<rparr>) (dec_ptr None dec_bytes v (b_CipherData r))"
  "dec_member Broadcast_fields ''sign'' v r = map_option (\<lambda>x. r\<lparr>b_Sign := x\<rparr>) (dec_bytes v (b_Sign r))"
  "dec_member Broadcast_fields ''fee'' v r = map_option (\<lambda>x. r\<lparr>b_Fee := x\<rparr>) (dec_uint v (b_Fee r))"
  by (simp_all add: dec_member_def Broadcast_fields_def json_field_def)

lemma dec_Broadcast_json:
  assumes "Broadcast_ok b"
  shows "dec_Broadcast (raw_of html (json_of_Broadcast b)) Broadcast_zero = Some (Broadcast_norm b)"
  using assms
  unfolding dec_Broadcast_def json_of_Broadcast_def dec_struct_obj Broadcast_ok_def
  by (simp add: dec_members_field [OF Broadcast_fields_plain] Broadcast_member plain_name_def codec_simps
      Broadcast_zero_def Broadcast_norm_def del: raw_of.simps)

interpretation bcc: json_codec json_of_Broadcast dec_Broadcast Broadcast_zero Broadcast_ok Broadcast_norm
  by unfold_locales (simp_all add: Broadcast_json_ok dec_Broadcast_json)

text \<open>
  A search and a summary: of an empty slice or map nothing is sent, and of a search the height
  and its operator only as the text made of them.
\<close>

definition nonempty :: "'a list option \<Rightarrow> 'a list option" where
  "nonempty xs = (if slice_len xs = 0 then None else xs)"

definition ptr_ok :: "string option \<Rightarrow> bool" where
  "ptr_ok p = (case p of None \<Rightarrow> True | Some s \<Rightarrow> valid_utf8 s)"

lemma ptr_string_ok [simp]: "json_nums_ok (j_ptr_string p)" "json_strings_ok (j_ptr_string p) = ptr_ok p"
  "json_depth (j_ptr_string p) = 0"
  by (simp_all add: j_ptr_string_def ptr_ok_def split: option.split)

lemma dec_ptr_string [codec_simps]:
  "ptr_ok p \<Longrightarrow> dec_ptr [] dec_string (raw_of html (j_ptr_string p)) None = Some p"
  by (cases p) (auto simp: j_ptr_string_def ptr_ok_def dec_ptr_def dec_string_def unquote_body valid_utf8_def)

definition Search_ok :: "Search \<Rightarrow> bool" where
  "Search_ok s \<longleftrightarrow> valid_utf8 (s_Type s) \<and> slice_ok (s_Types s) \<and> valid_utf8 (s_PHeight s) \<and> valid_utf8 (s_OrderBy s) \<and>
     valid_utf8 (s_OrderField s) \<and> slice_ok (s_RecipientAddresses s) \<and> slice_ok (s_SenderAddresses s) \<and>
     map_ok (s_SignedAddresses s) \<and> slice_ok (s_Hashes s) \<and> ptr_ok (s_ChainName s) \<and> ptr_ok (s_ChainVersion s)"

definition Search_norm :: "Search \<Rightarrow> Search" where
  "Search_norm s = s\<lparr>s_Height := 0, s_Types := nonempty (s_Types s), s_HeightOperator := [],
     s_RecipientAddresses := nonempty (s_RecipientAddresses s), s_SenderAddresses := nonempty (s_SenderAddresses s),
     s_SignedAddresses := map_option gm_sort (nonempty (s_SignedAddresses s)), s_Hashes := nonempty (s_Hashes s)\<rparr>"

lemma Search_fields_plain: "list_all (\<lambda>(n, d). plain_name n) Search_fields"
  by (simp add: Search_fields_def json_field_def plain_name_def)

lemma Search_json_ok: "Search_ok s \<Longrightarrow> json_ok (json_of_Search s)"
  unfolding json_of_Search_def
  by (rule json_ok_obj) (simp add: Search_ok_def field_def field_unless_def plain_name_def)

lemma Search_member:
  "dec_member Search_fields ''limit'' v r = map_option (\<lambda>x. r\<lparr>s_Limit := x\<rparr>) (dec_uint v (s_Limit r))"
  "dec_member Search_fields ''offset'' v r = map_option (\<lambda>x. r\<lparr>s_Offset := x\<rparr>) (dec_uint v (s_Offset r))"
  "dec_member Search_fields ''max_height'' v r = map_option (\<lambda>x. r\<lparr>s_MaxHeight := x\<rparr>) (dec_uint v (s_MaxHeight r))"
  "dec_member Search_fields ''last_order'' v r = map_option (\<lambda>x. r\<lparr>s_LastOrder := x\<rparr>) (dec_uint v (s_LastOrder r))"
  "dec_member Search_fields ''typ'' v r = map_option (\<lambda>x. r\<lparr>s_Type := x\<rparr>) (dec_string v (s_Type r))"
  "dec_member Search_fields ''types'' v r = map_option (\<lambda>x. r\<lparr>s_Types := x\<rparr>) (dec_slice [] dec_string v (s_Types r))"
  "dec_member Search_fields ''height'' v r = map_option (\<lambda>x. r\<lparr>s_PHeight := x\<rparr>) (dec_string v (s_PHeight r))"
  "dec_member Search_fields ''order_by'' v r = map_option (\<lambda>x. r\<lparr>s_OrderBy := x\<rparr>) (dec_string v (s_OrderBy r))"
  "dec_member Search_fields ''order_field'' v r = map_option (\<lambda>x. r\<lparr>s_OrderField := x\<rparr>) (dec_string v (s_OrderField r))"
  "dec_member Search_fields ''recipient_addrs'' v r = map_option (\<lambda>x. r\<lparr>s_RecipientAddresses := x\<rparr>) (dec_slice [] dec_string v (s_RecipientAddresses r))"
  "dec_member Search_fields ''sender_addrs'' v r = map_option (\<lambda>x. r\<lparr>s_SenderAddresses := x\<rparr>) (dec_slice [] dec_string v (s_SenderAddresses r))"
  "dec_member Search_fields ''signed_addrs'' v r = map_option (\<lambda>x. r\<lparr>s_SignedAddresses := x\<rparr>) (dec_string_map v (s_SignedAddresses r))"
  "dec_member Search_fields ''hashes'' v r = map_option (\<lambda>x. r\<lparr>s_Hashes := x\<rparr>) (dec_slice [] dec_string v (s_Hashes r))"
  "dec_member Search_fields ''chain_name'' v r = map_option (\<lambda>x. r\<lparr>s_ChainName := x\<rparr>) (dec_ptr [] dec_string v (s_ChainName r))"
  "dec_member Search_fields ''chain_version'' v r = map_option (\<lambda>x. r\<lparr>s_ChainVersion := x\<rparr>) (dec_ptr [] dec_string v (s_ChainVersion r))"
  by (simp_all add: dec_member_def Search_fields_def json_field_def)

lemma dec_omitted [codec_simps]:
  "valid_utf8 s \<Longrightarrow> dec_string (raw_of html (if s = [] then JNull else JStr s)) [] = Some s"
  "slice_ok xs \<Longrightarrow> dec_slice [] dec_string (raw_of html (if slice_len xs = 0 then JNull else j_strings xs)) None =
     Some (nonempty xs)"
  "map_ok m \<Longrightarrow> dec_string_map (raw_of html (if slice_len m = 0 then JNull else j_string_map m)) None =
     Some (map_option gm_sort (nonempty m))"
  "ptr_ok p \<Longrightarrow> dec_ptr [] dec_string (raw_of html (if p = None then JNull else j_ptr_string p)) None = Some p"
  by (auto simp: codec_simps nonempty_def slice_ok_def map_ok_def simp del: raw_of.simps(2-6))

lemma dec_Search_json:
  assumes "Search_ok s"
  shows "dec_Search (raw_of html (json_of_Search s)) Search_zero = Some (Search_norm s)"
  using assms
  unfolding dec_Search_def json_of_Search_def dec_struct_obj Search_ok_def
  by (simp add: dec_members_field(1,3) [OF Search_fields_plain] dec_members_omitted [OF Search_fields_plain]
      Search_member plain_name_def codec_simps Search_zero_def Search_norm_def del: raw_of.simps)

interpretation sec: json_codec json_of_Search dec_Search Search_zero Search_ok Search_norm
  by unfold_locales (simp_all add: Search_json_ok dec_Search_json)


definition Summary_ok :: "Summary \<Rightarrow> bool" where
  "Summary_ok s \<longleftrightarrow> slice_ok (sm_RecipientAddresses s) \<and> slice_ok (sm_SenderAddresses s) \<and> valid_utf8 (sm_Type s) \<and>
     ptr_ok (sm_ChainName s) \<and> ptr_ok (sm_ChainVersion s) \<and> map_ok (sm_SignedAddresses s)"

definition Summary_norm :: "Summary \<Rightarrow> Summary" where
  "Summary_norm s = s\<lparr>sm_RecipientAddresses := nonempty (sm_RecipientAddresses s),
     sm_SenderAddresses := nonempty (sm_SenderAddresses s),
     sm_SignedAddresses := map_option gm_sort (nonempty (sm_SignedAddresses s))\<rparr>"

lemma Summary_fields_plain: "list_all (\<lambda>(n, d). plain_name n) Summary_fields"
  by (simp add: Summary_fields_def json_field_def plain_name_def)

lemma Summary_json_ok: "Summary_ok s \<Longrightarrow> json_ok (json_of_Summary s)"
  unfolding json_of_Summary_def
  by (rule json_ok_obj) (simp add: Summary_ok_def field_def field_unless_def plain_name_def)

lemma Summary_member:
  "dec_member Summary_fields ''recipient_addrs'' v r = map_option (\<lambda>x. r\<lparr>sm_RecipientAddresses := x\<rparr>) (dec_slice [] dec_string v (sm_RecipientAddresses r))"
  "dec_member Summary_fields ''sender_addrs'' v r = map_option (\<lambda>x. r\<lparr>sm_SenderAddresses := x\<rparr>) (dec_slice [] dec_string v (sm_SenderAddresses r))"
  "dec_member Summary_fields ''typ'' v r = map_option (\<lambda>x. r\<lparr>sm_Type := x\<rparr>) (dec_string v (sm_Type r))"
  "dec_member Summary_fields ''chain_name'' v r = map_option (\<lambda>x. r\<lparr>sm_ChainName := x\<rparr>) (dec_ptr [] dec_string v (sm_ChainName r))"
  "dec_member Summary_fields ''chain_version'' v r = map_option (\<lambda>x. r\<lparr>sm_ChainVersion := x\<rparr>) (dec_ptr [] dec_string v (sm_ChainVersion r))"
  "dec_member Summary_fields ''signed_addrs'' v r = map_option (\<lambda>x. r\<lparr>sm_SignedAddresses := x\<rparr>) (dec_string_map v (sm_SignedAddresses r))"
  by (simp_all add: dec_member_def Summary_fields_def json_field_def)

lemma dec_Summary_json:
  assumes "Summary_ok s"
  shows "dec_Summary (raw_of html (json_of_Summary s)) Summary_zero = Some (Summary_norm s)"
  using assms
  unfolding dec_Summary_def json_of_Summary_def dec_struct_obj Summary_ok_def
  by (simp add: dec_members_omitted [OF Summary_fields_plain]
      Summary_member plain_name_def codec_simps Summary_zero_def Summary_norm_def del: raw_of.simps)

interpretation smc: json_codec json_of_Summary dec_Summary Summary_zero Summary_ok Summary_norm
  by unfold_locales (simp_all add: Summary_json_ok dec_Summary_json)


section \<open>Decoders keep the types\<close>

text \<open>
  A decoder keeps a predicate if every value it makes of one that satisfies it satisfies it.
  The rules follow the structure of the types.
\<close>

definition keeps :: "('a \<Rightarrow> bool) \<Rightarrow> 'a decoder \<Rightarrow> bool" where
  "keeps P d \<longleftrightarrow> (\<forall>v x y. P x \<longrightarrow> d v x = Some y \<longrightarrow> P y)"

lemma keepsI: "(\<And>v x y. P x \<Longrightarrow> d v x = Some y \<Longrightarrow> P y) \<Longrightarrow> keeps P d"
  by (auto simp: keeps_def)

lemma keepsD: "keeps P d \<Longrightarrow> P x \<Longrightarrow> d v x = Some y \<Longrightarrow> P y"
  by (auto simp: keeps_def)

lemma keeps_True [intro]: "keeps (\<lambda>_. True) d"
  by (simp add: keeps_def)

lemma keeps_ptr [intro]:
  assumes "keeps P d" "P zero"
  shows "keeps (pred_option P) (dec_ptr zero d)"
proof (rule keepsI)
  fix v x y assume x: "pred_option P x" and y: "dec_ptr zero d v x = Some y"
  have "P (case x of None \<Rightarrow> zero | Some x \<Rightarrow> x)" using x assms(2) by (cases x) simp_all
  note z = keepsD [OF assms(1) this]
  show "pred_option P y" using y by (cases v) (auto simp: dec_ptr_def dest!: z)
qed

lemma dec_elems_keeps:
  assumes "keeps P d" "P zero"
  shows "list_all P old \<Longrightarrow> dec_elems zero d vs old = Some xs \<Longrightarrow> list_all P xs"
proof (induction vs arbitrary: old xs)
  case (Cons v vs)
  obtain x ys where x: "d v (case old of [] \<Rightarrow> zero | x # _ \<Rightarrow> x) = Some x"
    and ys: "dec_elems zero d vs (tl old) = Some ys" "xs = x # ys"
    using Cons.prems(2) by (auto split: option.splits)
  have "P (case old of [] \<Rightarrow> zero | x # _ \<Rightarrow> x)" "list_all P (tl old)"
    using Cons.prems(1) assms(2) by (cases old; simp)+
  then show ?case using keepsD [OF assms(1) _ x] Cons.IH [OF _ ys(1)] ys(2) by simp
qed simp

lemma keeps_slice [intro]:
  assumes "keeps P d" "P zero"
  shows "keeps (pred_option (list_all P)) (dec_slice zero d)"
proof (rule keepsI)
  fix v x y assume x: "pred_option (list_all P) x" and y: "dec_slice zero d v x = Some y"
  have "list_all P (case x of None \<Rightarrow> [] | Some l \<Rightarrow> l)" using x by (cases x) simp_all
  note z = dec_elems_keeps [OF assms this]
  show "pred_option (list_all P) y" using y by (cases v) (auto simp: dec_slice_def dest!: z)
qed

lemma keeps_struct:
  assumes "\<forall>(n, d) \<in> set fs. keeps P d"
  shows "keeps P (dec_struct fs)"
proof (rule keepsI)
  have f: "keeps P d" if "find_field fs k = Some d" for k d
    using that assms by (auto simp: find_field_def dest!: map_of_SomeD)
  have m: "P x \<Longrightarrow> dec_members fs ms x = Some y \<Longrightarrow> P y" for ms x y
  proof (induction ms arbitrary: x)
    case (Cons m ms)
    obtain k v where kv: "m = (k, v)" by fastforce
    show ?case
    proof (cases "find_field fs (unquote k)")
      case None
      with Cons kv show ?thesis by simp
    next
      case (Some d)
      then obtain z where z: "d v x = Some z" "dec_members fs ms z = Some y"
        using Cons.prems(2) kv by (auto split: option.splits)
      have "P z" using keepsD [OF f [OF Some] Cons.prems(1) z(1)] .
      with z(2) show ?thesis by (rule Cons.IH [rotated -1])
    qed
  qed simp
  fix v x y assume "P x" "dec_struct fs v x = Some y"
  then show "P y" by (cases v) (auto simp: dec_struct_def dest: m)
qed

lemma keeps_field:
  assumes "keeps Q d" "\<And>r. P r \<Longrightarrow> Q (get r)" "\<And>r x. P r \<Longrightarrow> Q x \<Longrightarrow> P (upd (\<lambda>_. x) r)"
  shows "keeps P (snd (json_field n get upd d))"
proof (rule keepsI)
  fix v r y assume r: "P r" "snd (json_field n get upd d) v r = Some y"
  then obtain x where x: "d v (get r) = Some x" "y = upd (\<lambda>_. x) r" by (auto simp: json_field_def)
  show "P y" using assms(3) [OF r(1) keepsD [OF assms(1) assms(2) [OF r(1)] x(1)]] x(2) by simp
qed

text \<open>The types: 64-bit integers, time stamps, and the structs that hold them.\<close>

definition int64 :: "int \<Rightarrow> bool" where
  "int64 i \<longleftrightarrow> - (2 ^ 63) \<le> i \<and> i < 2 ^ 63"

definition Bytea_typed :: "Bytea \<Rightarrow> bool" where
  "Bytea_typed b \<longleftrightarrow> int64 (ba_Status b)"

definition Transaction_typed :: "Transaction \<Rightarrow> bool" where
  "Transaction_typed tx \<longleftrightarrow> Bytea_typed (tx_Data tx) \<and> pred_option Bytea_typed (tx_AdditionalData tx) \<and>
     pred_option Bytea_typed (tx_CipherData tx) \<and> Bytea_typed (tx_Sign tx) \<and> rfc3339_ok (tx_InsertedAt tx)"

definition Block_typed :: "Block \<Rightarrow> bool" where
  "Block_typed b \<longleftrightarrow> int64 (bl_TXS b) \<and>
     pred_option (list_all (pred_option Transaction_typed)) (bl_Transactions b)"

lemma keeps_int: "keeps int64 dec_int"
  by (auto simp: keeps_def dec_int_def int64_def split: jraw.splits list.splits option.splits if_splits)

lemma keeps_time: "keeps rfc3339_ok dec_time"
  by (auto simp: keeps_def dec_time_def split: jraw.splits if_splits)

lemma zero_typed: "int64 0" "Bytea_typed Bytea_zero" "Transaction_typed Transaction_zero" "Block_typed Block_zero"
proof -
  show i: "int64 0" and b: "Bytea_typed Bytea_zero" "Block_typed Block_zero"
    by (simp_all add: int64_def Bytea_typed_def Bytea_zero_def Block_typed_def Block_zero_def)
  have "rfc3339_ok zero_time" by code_simp
  with b show "Transaction_typed Transaction_zero" by (simp add: Transaction_typed_def Transaction_zero_def)
qed

text \<open>A struct keeps its type if each field keeps it; an untyped field keeps everything.\<close>

lemma keeps_fields: "list_all (\<lambda>f. keeps P (snd f)) fs \<Longrightarrow> keeps P (dec_struct fs)"
  by (rule keeps_struct) (auto simp: list_all_iff)

lemmas keeps_untyped = keeps_field [where Q = "\<lambda>_. True", OF keeps_True]

lemma keeps_Bytea: "keeps Bytea_typed dec_Bytea"
proof -
  have "keeps Bytea_typed (snd (json_field n ba_Bytes ba_Bytes_update d))" for n d
    by (rule keeps_untyped) (simp_all add: Bytea_typed_def)
  moreover have "keeps Bytea_typed (snd (json_field n ba_Status ba_Status_update dec_int))" for n
    by (rule keeps_field [OF keeps_int]) (simp_all add: Bytea_typed_def)
  ultimately show ?thesis unfolding dec_Bytea_def by (intro keeps_fields) (simp add: Bytea_fields_def)
qed

lemma keeps_Transaction: "keeps Transaction_typed dec_Transaction"
proof -
  note ptr = keeps_ptr [OF keeps_Bytea zero_typed(2)]
  have "keeps Transaction_typed (snd (json_field n tx_Data tx_Data_update dec_Bytea))"
    "keeps Transaction_typed (snd (json_field n tx_Sign tx_Sign_update dec_Bytea))"
    "keeps Transaction_typed (snd (json_field n tx_AdditionalData tx_AdditionalData_update (dec_ptr Bytea_zero dec_Bytea)))"
    "keeps Transaction_typed (snd (json_field n tx_CipherData tx_CipherData_update (dec_ptr Bytea_zero dec_Bytea)))"
    "keeps Transaction_typed (snd (json_field n tx_InsertedAt tx_InsertedAt_update dec_time))" for n
    by (rule keeps_field [OF keeps_Bytea] keeps_field [OF ptr] keeps_field [OF keeps_time];
        simp add: Transaction_typed_def)+
  moreover have "keeps Transaction_typed (snd (json_field n tx_Order tx_Order_update d1))"
    "keeps Transaction_typed (snd (json_field n tx_ID tx_ID_update d2))"
    "keeps Transaction_typed (snd (json_field n tx_Height tx_Height_update d3))"
    "keeps Transaction_typed (snd (json_field n tx_Identifier tx_Identifier_update d4))"
    "keeps Transaction_typed (snd (json_field n tx_Version tx_Version_update d3))"
    "keeps Transaction_typed (snd (json_field n tx_Typ tx_Typ_update d4))"
    "keeps Transaction_typed (snd (json_field n tx_SenderAddr tx_SenderAddr_update d4))"
    "keeps Transaction_typed (snd (json_field n tx_RecipientAddr tx_RecipientAddr_update d4))"
    "keeps Transaction_typed (snd (json_field n tx_Fee tx_Fee_update d3))"
    "keeps Transaction_typed (snd (json_field n tx_Hash tx_Hash_update d4))" for n d1 d2 d3 d4
    by (rule keeps_untyped; simp add: Transaction_typed_def)+
  ultimately show ?thesis unfolding dec_Transaction_def
    by (intro keeps_fields) (simp add: Transaction_fields_def)
qed

lemma keeps_transactions: "keeps (pred_option (list_all (pred_option Transaction_typed))) dec_transactions"
  unfolding dec_transactions_def
  by (intro keeps_slice keeps_ptr keeps_Transaction zero_typed) simp

lemma keeps_Block: "keeps Block_typed dec_Block"
proof -
  have "keeps Block_typed (snd (json_field n bl_TXS bl_TXS_update dec_int))"
    "keeps Block_typed (snd (json_field n bl_Transactions bl_Transactions_update dec_transactions))" for n
    by (rule keeps_field [OF keeps_int] keeps_field [OF keeps_transactions]; simp add: Block_typed_def)+
  moreover have "keeps Block_typed (snd (json_field n bl_Height bl_Height_update d1))"
    "keeps Block_typed (snd (json_field n bl_Hash bl_Hash_update d2))"
    "keeps Block_typed (snd (json_field n bl_ChainName bl_ChainName_update d2))"
    "keeps Block_typed (snd (json_field n bl_ChainVersion bl_ChainVersion_update d2))" for n d1 d2
    by (rule keeps_untyped; simp add: Block_typed_def)+
  ultimately show ?thesis unfolding dec_Block_def by (intro keeps_fields) (simp add: Block_fields_def)
qed

lemma keeps_held: "keeps P d \<Longrightarrow> keeps (pred_option P) (dec_held d)"
  by (rule keepsI) (auto simp: dec_held_def split: jraw.splits option.splits dest: keepsD)

definition txs_typed :: "Transaction option list option \<Rightarrow> bool" where
  "txs_typed = pred_option (list_all (pred_option Transaction_typed))"

definition LastBlock_typed :: "LastBlock \<Rightarrow> bool" where
  "LastBlock_typed r \<longleftrightarrow> txs_typed (lb_Blocks r)"

lemma keeps_LastBlock: "keeps LastBlock_typed dec_LastBlock"
proof -
  have "keeps LastBlock_typed (snd (json_field n lb_Blocks lb_Blocks_update dec_transactions))" for n
    by (rule keeps_field [OF keeps_transactions]) (simp_all add: LastBlock_typed_def txs_typed_def)
  moreover have "keeps LastBlock_typed (snd (json_field n lb_TotalCount lb_TotalCount_update d))" for n d
    by (rule keeps_untyped) (simp_all add: LastBlock_typed_def)
  ultimately show ?thesis unfolding dec_LastBlock_def by (intro keeps_fields) (simp add: LastBlock_fields_def)
qed

definition SearchResponse_typed :: "SearchResponse \<Rightarrow> bool" where
  "SearchResponse_typed r \<longleftrightarrow> txs_typed (sr_TXS r)"

lemma keeps_SearchResponse: "keeps SearchResponse_typed dec_SearchResponse"
proof -
  have "keeps SearchResponse_typed (snd (json_field n sr_TXS sr_TXS_update dec_transactions))" for n
    by (rule keeps_field [OF keeps_transactions]) (simp_all add: SearchResponse_typed_def txs_typed_def)
  moreover have "keeps SearchResponse_typed (snd (json_field n sr_TotalCount sr_TotalCount_update d))" for n d
    by (rule keeps_untyped) (simp_all add: SearchResponse_typed_def)
  ultimately show ?thesis unfolding dec_SearchResponse_def
    by (intro keeps_fields) (simp add: SearchResponse_fields_def)
qed

lemma keeps_SummaryResponse:
  "keeps (\<lambda>r. pred_option Transaction_typed (smr_LastTransaction r)) dec_SummaryResponse" (is "keeps ?P _")
proof -
  have "keeps ?P (snd (json_field n smr_LastTransaction smr_LastTransaction_update (dec_ptr Transaction_zero dec_Transaction)))" for n
    by (rule keeps_field [OF keeps_ptr [OF keeps_Transaction zero_typed(3)]]) simp_all
  moreover have "keeps ?P (snd (json_field n smr_LastBlockHeight smr_LastBlockHeight_update d))"
    "keeps ?P (snd (json_field n smr_TotalCount smr_TotalCount_update d))" for n d
    by (rule keeps_untyped; simp)+
  ultimately show ?thesis unfolding dec_SummaryResponse_def
    by (intro keeps_fields) (simp add: SummaryResponse_fields_def SummaryResponse_Data_fields_def keeps_fields)
qed

lemma keeps_Response:
  assumes "keeps (pred_option P) d"
  shows "keeps (\<lambda>r. pred_option P (rsp_Data r)) (dec_struct (Response_fields d))" (is "keeps ?P _")
proof -
  have "keeps ?P (snd (json_field n rsp_Data rsp_Data_update d))" for n
    by (rule keeps_field [OF assms]) simp_all
  moreover have "keeps ?P (snd (json_field n rsp_Message rsp_Message_update d1))"
    "keeps ?P (snd (json_field n rsp_TotalCount rsp_TotalCount_update d2))"
    "keeps ?P (snd (json_field n rsp_Error rsp_Error_update d3))"
    "keeps ?P (snd (json_field n rsp_Errors rsp_Errors_update d4))"
    "keeps ?P (snd (json_field n rsp_Detail rsp_Detail_update d1))" for n d1 d2 d3 d4
    by (rule keeps_untyped; simp)+
  ultimately show ?thesis by (intro keeps_fields) (simp add: Response_fields_def)
qed

lemma zero_results_typed:
  "LastBlock_typed LastBlock_zero" "SearchResponse_typed SearchResponse_zero"
  "pred_option Transaction_typed (smr_LastTransaction SummaryResponse_zero)"
  by (simp_all add: LastBlock_typed_def LastBlock_zero_def SearchResponse_typed_def SearchResponse_zero_def
      SummaryResponse_zero_def txs_typed_def)

text \<open>A response without a member for the data leaves the data as it was.\<close>

lemma Response_no_data:
  assumes "\<forall>(k, v) \<in> set ms. foldName (unquote k) \<noteq> foldName ''data''"
    and "dec_struct (Response_fields d) (RObj ms) r = Some x"
  shows "rsp_Data x = rsp_Data r"
proof -
  have one: "rsp_Data y = rsp_Data r"
    if "find_field (Response_fields d) k = Some e" "foldName k \<noteq> foldName ''data''" "e v r = Some y" for k e v r y
    using that by (auto simp: find_field_def Response_fields_def json_field_def simp del: foldName.simps split: if_splits)
  have "rsp_Data x = rsp_Data r" if "dec_members (Response_fields d) ms r = Some x" for r
    using assms(1) that
  proof (induction ms arbitrary: r)
    case (Cons m ms)
    obtain k v where m: "m = (k, v)" by fastforce
    show ?case
    proof (cases "find_field (Response_fields d) (unquote k)")
      case None
      with Cons m show ?thesis by simp
    next
      case (Some e)
      with Cons.prems(2) m obtain z where z: "e v r = Some z" "dec_members (Response_fields d) ms z = Some x"
        by (auto split: option.splits)
      have "rsp_Data z = rsp_Data r" using one [OF Some _ z(1)] Cons.prems(1) m by simp
      moreover have "rsp_Data x = rsp_Data z" using Cons.IH [OF _ z(2)] Cons.prems(1) by simp
      ultimately show ?thesis by simp
    qed
  qed simp
  with assms(2) show ?thesis by (simp add: dec_struct_def)
qed

end
