(* ===== verification/Certificate.thy ===== *)
theory Certificate
  imports Errors
begin

text \<open>
  \<^verbatim>\<open>certificate.go\<close>: the list of default pins, the walk along the signed part of the
  peer's certificate chain and the pin check that runs in every TLS handshake. The digest
  (\<^verbatim>\<open>sha256.Sum256\<close>) and the signature check of \<^verbatim>\<open>crypto/x509\<close> are parameters:
  \<open>sha256 raw\<close> is the digest and \<open>signed_by c d\<close> is
  \<^verbatim>\<open>c.CheckSignatureFrom(d) == nil\<close>. The package variable \<^verbatim>\<open>defaultFingerprints\<close>,
  which its mutex guards, is passed and returned as a state.
\<close>


section \<open>The default pin list\<close>

type_synonym pins = "string list"

definition defaultFingerprints :: pins where
  "defaultFingerprints =
    [''27dec11ab21f4299d56e5965a8dc28623d2441cb136fbe2b1ea3896c81b1a653'',
     ''75f6d90040cab176418687fdad09adb051010829f31008209c6cf9e8f7b52ef6'',
     ''5a927cc80015a0c096b52aa25156f9507187ad499576e6a9d7c62ccf284a71c9'',
     ''97658de8c68dfa98ace1e5028a63d54a1aae911b3e21471076c6850cd08cbab4'',
     ''13949634d99cd6fd6aa80bc034fefacceb1969feef986586713ecdbb05758d3f'']"

definition SetCustomFingerprint :: "string list \<Rightarrow> pins \<Rightarrow> pins" where
  "SetCustomFingerprint fingerprints st = fingerprints"

definition AddFingerprints :: "string \<Rightarrow> pins \<Rightarrow> pins" where
  "AddFingerprints fingerprint st = st @ [fingerprint]"

definition GetFormattedFingerprints :: "pins \<Rightarrow> string list" where
  "GetFormattedFingerprints st = st"


section \<open>The signed chain\<close>

text \<open>
  A parsed certificate is determined by its DER bytes, which are all the client reads of it
  itself.
\<close>

record certificate =
  Raw :: bytes

text \<open>
  The loop of \<^verbatim>\<open>signedChain\<close>: \<open>i\<close> is its index; the first link that is not a
  signature cuts the chain.
\<close>

function signedChain_loop ::
  "('c \<Rightarrow> 'c \<Rightarrow> bool) \<Rightarrow> 'c list \<Rightarrow> nat \<Rightarrow> 'c list" where
  "signedChain_loop signed_by certs i =
     (if i < length certs then
        (if \<not> signed_by (certs ! (i - 1)) (certs ! i) then take i certs
         else signedChain_loop signed_by certs (Suc i))
      else certs)"
  by pat_completeness auto
termination
  by (relation "measure (\<lambda>(_, certs, i). length certs - i)") auto

declare signedChain_loop.simps [simp del]

definition signedChain :: "('c \<Rightarrow> 'c \<Rightarrow> bool) \<Rightarrow> 'c list \<Rightarrow> 'c list" where
  "signedChain signed_by certs = signedChain_loop signed_by certs 1"


section \<open>The pin check\<close>

definition sha256_Size :: nat where "sha256_Size = 32"

definition decodePin :: "string \<Rightarrow> bytes result" where
  "decodePin pin = (case hex_DecodeString pin of
     None \<Rightarrow> Inl (LibError ''encoding/hex'')
   | Some decoded \<Rightarrow>
       if length decoded \<noteq> sha256_Size then Inl (ErrorString ''invalid certificate pin length'')
       else Inr decoded)"

text \<open>\<^verbatim>\<open>subtle.ConstantTimeCompare\<close>: 1 when lengths and contents agree.\<close>

definition ConstantTimeCompare :: "bytes \<Rightarrow> bytes \<Rightarrow> int" where
  "ConstantTimeCompare x y = (if x = y then 1 else 0)"

text \<open>The inner loop over the pins: a pin that does not decode is skipped.\<close>

fun pin_loop :: "bytes \<Rightarrow> string list \<Rightarrow> bool" where
  "pin_loop actual [] = False"
| "pin_loop actual (pin # pins) =
     (case decodePin pin of
        Inl _ \<Rightarrow> pin_loop actual pins
      | Inr expected \<Rightarrow>
          if ConstantTimeCompare expected actual = 1 then True else pin_loop actual pins)"

text \<open>The outer loop over the signed chain.\<close>

fun cert_loop :: "(bytes \<Rightarrow> bytes) \<Rightarrow> string list \<Rightarrow> certificate list \<Rightarrow> bool" where
  "cert_loop sha256 pins [] = False"
| "cert_loop sha256 pins (c # cs) =
     (if pin_loop (sha256 (Raw c)) pins then True else cert_loop sha256 pins cs)"

text \<open>\<open>None\<close> is the nil error: the handshake may go on.\<close>

definition verifyPeer ::
  "(bytes \<Rightarrow> bytes) \<Rightarrow> (certificate \<Rightarrow> certificate \<Rightarrow> bool) \<Rightarrow> pins \<Rightarrow>
   certificate list \<Rightarrow> string option \<Rightarrow> go_error option" where
  "verifyPeer sha256 signed_by st peerCerts customFingerprint =
     (let check = (\<lambda>pins.
        if length peerCerts = 0 then Some (ErrorString ''invalid certificate pin'')
        else if cert_loop sha256 pins (signedChain signed_by peerCerts) then None
        else Some (ErrorString ''certificate not verified''))
      in case customFingerprint of
           Some fp \<Rightarrow>
             if fp = [] then None
             else (case decodePin fp of
                 Inl _ \<Rightarrow> Some (ErrorString ''invalid certificate pin'')
               | Inr _ \<Rightarrow> check [fp])
         | None \<Rightarrow> check (GetFormattedFingerprints st))"


section \<open>Lemmas\<close>

lemma signedChain_loop_eq:
  assumes "1 \<le> i"
  shows "\<exists>n. signedChain_loop sb certs i = take n certs \<and> min i (length certs) \<le> n \<and> n \<le> length certs \<and>
    (\<forall>j. i \<le> j \<and> j < n \<longrightarrow> sb (certs ! (j - 1)) (certs ! j)) \<and>
    (n < length certs \<longrightarrow> \<not> sb (certs ! (n - 1)) (certs ! n))"
  using assms
proof (induction sb certs i rule: signedChain_loop.induct)
  case (1 sb certs i)
  consider (out) "\<not> i < length certs"
    | (stop) "i < length certs" "\<not> sb (certs ! (i - 1)) (certs ! i)"
    | (cont) "i < length certs" "sb (certs ! (i - 1)) (certs ! i)" by blast
  then show ?case
  proof cases
    case out
    then have "signedChain_loop sb certs i = certs" by (simp add: signedChain_loop.simps [of sb certs i])
    with out show ?thesis by (intro exI [of _ "length certs"]) auto
  next
    case stop
    then have "signedChain_loop sb certs i = take i certs"
      by (simp add: signedChain_loop.simps [of sb certs i])
    with stop show ?thesis by (intro exI [of _ i]) auto
  next
    case cont
    have step: "signedChain_loop sb certs i = signedChain_loop sb certs (Suc i)"
      using cont by (simp add: signedChain_loop.simps [of sb certs i])
    from 1(1) [OF cont(1)] cont(2) obtain n where n:
      "signedChain_loop sb certs (Suc i) = take n certs" "min (Suc i) (length certs) \<le> n"
      "n \<le> length certs" "\<forall>j. Suc i \<le> j \<and> j < n \<longrightarrow> sb (certs ! (j - 1)) (certs ! j)"
      "n < length certs \<longrightarrow> \<not> sb (certs ! (n - 1)) (certs ! n)" by auto
    have "sb (certs ! (j - 1)) (certs ! j)" if "i \<le> j" "j < n" for j
      using that n(4) cont(2) by (cases "j = i") auto
    then show ?thesis using n step cont(1) by (intro exI [of _ n]) auto
  qed
qed

text \<open>
  The certificates that vouch for the leaf: position \<open>j\<close> counts when every link from the
  leaf up to \<open>j\<close> is a signature.
\<close>

definition vouches :: "('c \<Rightarrow> 'c \<Rightarrow> bool) \<Rightarrow> 'c list \<Rightarrow> nat \<Rightarrow> bool" where
  "vouches signed_by certs j \<longleftrightarrow> j < length certs \<and> (\<forall>i < j. signed_by (certs ! i) (certs ! Suc i))"

lemma set_signedChain:
  "set (signedChain sb certs) = {certs ! j | j. vouches sb certs j}"
proof -
  obtain n where n: "signedChain sb certs = take n certs" "min 1 (length certs) \<le> n" "n \<le> length certs"
    "\<forall>j. 1 \<le> j \<and> j < n \<longrightarrow> sb (certs ! (j - 1)) (certs ! j)"
    "n < length certs \<longrightarrow> \<not> sb (certs ! (n - 1)) (certs ! n)"
    using signedChain_loop_eq [of 1 sb certs] by (auto simp: signedChain_def)
  have "j < n \<longleftrightarrow> vouches sb certs j" for j
  proof
    assume "j < n"
    then have "sb (certs ! i) (certs ! Suc i)" if "i < j" for i
      using n(4) [rule_format, of "Suc i"] that by simp
    with \<open>j < n\<close> n(3) show "vouches sb certs j" by (simp add: vouches_def)
  next
    assume v: "vouches sb certs j"
    show "j < n"
    proof (rule ccontr)
      assume "\<not> j < n"
      with v n(2) have "n < length certs" "0 < n" "n - 1 < j" by (auto simp: vouches_def)
      with v n(5) show False by (auto simp: vouches_def dest: spec [of _ "n - 1"])
    qed
  qed
  then have "{certs ! j | j. vouches sb certs j} = {certs ! j | j. j < n}" by simp
  also have "\<dots> = set (take n certs)"
    by (auto simp flip: nth_image [OF n(3)])
  finally show ?thesis by (simp add: n(1))
qed

lemma pin_loop_iff: "pin_loop d pins \<longleftrightarrow> (\<exists>p \<in> set pins. decodePin p = Inr d)"
  by (induction pins) (auto simp: ConstantTimeCompare_def split: sum.splits)

lemma cert_loop_iff:
  "cert_loop h pins cs \<longleftrightarrow> (\<exists>c \<in> set cs. \<exists>p \<in> set pins. decodePin p = Inr (h (Raw c)))"
  by (induction cs) (auto simp: pin_loop_iff)


definition active_pins :: "pins \<Rightarrow> string option \<Rightarrow> string list" where
  "active_pins st custom = (case custom of Some fp \<Rightarrow> [fp] | None \<Rightarrow> st)"

lemma verifyPeer_check:
  assumes "custom \<noteq> Some []" "\<And>fp. custom = Some fp \<Longrightarrow> \<exists>d. decodePin fp = Inr d"
  shows "verifyPeer h sb st certs custom =
    (if certs = [] then Some (ErrorString ''invalid certificate pin'')
     else if cert_loop h (active_pins st custom) (signedChain sb certs) then None
     else Some (ErrorString ''certificate not verified''))"
proof (cases custom)
  case None
  then show ?thesis by (simp add: verifyPeer_def GetFormattedFingerprints_def active_pins_def)
next
  case (Some fp)
  with assms obtain d where "fp \<noteq> []" "decodePin fp = Inr d" by auto
  with Some show ?thesis by (simp add: verifyPeer_def active_pins_def)
qed

lemma decodePin_Inr_iff:
  "decodePin p = Inr d \<longleftrightarrow> hex_DecodeString p = Some d \<and> length d = 32"
  by (auto simp: decodePin_def sha256_Size_def split: option.splits)

lemma decodePin_hex_digest [simp]:
  "length d = 32 \<Longrightarrow> decodePin (hex_EncodeToString d) = Inr d"
  by (simp add: decodePin_Inr_iff hex_decode_encode)

lemma verifyPeer_None_iff:
  "verifyPeer sha256 signed_by st certs custom = None \<longleftrightarrow>
     custom = Some [] \<or>
     (\<exists>j p. vouches signed_by certs j \<and> p \<in> set (active_pins st custom) \<and>
            decodePin p = Inr (sha256 (Raw (certs ! j))))"
proof (cases "custom = Some []")
  case True
  then show ?thesis by (simp add: verifyPeer_def)
next
  case notoff: False
  show ?thesis
  proof (cases "\<exists>fp e. custom = Some fp \<and> decodePin fp = Inl e")
    case True
    then obtain fp e where fp: "custom = Some fp" "decodePin fp = Inl e" by blast
    with notoff show ?thesis by (simp add: verifyPeer_def active_pins_def)
  next
    case False
    then have dec: "\<exists>d. decodePin fp = Inr d" if "custom = Some fp" for fp
      using that by (cases "decodePin fp") auto
    have "verifyPeer sha256 signed_by st certs custom = None \<longleftrightarrow>
        cert_loop sha256 (active_pins st custom) (signedChain signed_by certs)"
      using verifyPeer_check [OF notoff dec] set_signedChain [of signed_by certs]
      by (auto simp: cert_loop_iff vouches_def)
    with notoff show ?thesis
      unfolding cert_loop_iff set_signedChain by blast
  qed
qed


section \<open>Properties\<close>

text \<open>
  C1. The pin check accepts a handshake exactly when pinning is switched off by an empty
  custom fingerprint, or some certificate of the presented chain that vouches for the leaf
  (every link from the leaf up to it is a signature) has a digest that one of the active
  pins decodes to. The active pins are the custom fingerprint alone when there is one,
  and the current default list otherwise; malformed pins never match, and a certificate
  behind a broken link never counts.
\<close>

theorem verifyPeer_accepts_iff:
  "verifyPeer sha256 signed_by st certs custom = None \<longleftrightarrow>
     custom = Some [] \<or>
     (\<exists>j p. vouches signed_by certs j \<and> p \<in> set (active_pins st custom) \<and>
            decodePin p = Inr (sha256 (Raw (certs ! j))))"
  by (rule verifyPeer_None_iff)



end
