(* ===== verification/Passkey.thy ===== *)
theory Passkey
  imports Errors
begin

text \<open>
  \<^verbatim>\<open>passkey.go\<close>: the client instance id, the hex form of the SHA-512 digest of four
  random version-4 UUIDs. The \<open>n\<close>-th read of the random source is the parameter
  \<open>rand n\<close> (\<open>None\<close> when the read fails), the digest is the parameter \<open>sha512\<close>.
\<close>

unbundle bit_operations_syntax


section \<open>The UUID text\<close>

text \<open>\<^verbatim>\<open>hex.Encode(ascii[off:...], src)\<close>: overwrite a part of an array.\<close>

definition write_at :: "nat \<Rightarrow> 'a list \<Rightarrow> 'a list \<Rightarrow> 'a list" where
  "write_at off src dst = take off dst @ src @ drop (off + length src) dst"

text \<open>\<^verbatim>\<open>entropy[lo:hi]\<close>\<close>

definition slice :: "nat \<Rightarrow> nat \<Rightarrow> 'a list \<Rightarrow> 'a list" where
  "slice lo hi xs = take (hi - lo) (drop lo xs)"

text \<open>The version and variant bits of RFC 4122.\<close>

definition set_uuid_bits :: "bytes \<Rightarrow> bytes" where
  "set_uuid_bits entropy =
     (let e = entropy[6 := (entropy ! 6 AND 15) OR 64]
      in e[8 := (e ! 8 AND 63) OR 128])"

definition uuid_ascii :: "bytes \<Rightarrow> string" where
  "uuid_ascii entropy0 =
     (let entropy = set_uuid_bits entropy0;
          a = replicate 36 (char_of (0 :: nat));
          a = write_at 0 (hex_EncodeToString (slice 0 4 entropy)) a;
          a = write_at 9 (hex_EncodeToString (slice 4 6 entropy)) a;
          a = write_at 14 (hex_EncodeToString (slice 6 8 entropy)) a;
          a = write_at 19 (hex_EncodeToString (slice 8 10 entropy)) a;
          a = write_at 24 (hex_EncodeToString (slice 10 16 entropy)) a
      in a[8 := CHR ''-'', 13 := CHR ''-'', 18 := CHR ''-'', 23 := CHR ''-''])"


section \<open>The instance id\<close>

text \<open>The loop: four reads, the text of each UUID is written to the hasher.\<close>

function hash_uuids :: "(nat \<Rightarrow> bytes option) \<Rightarrow> nat \<Rightarrow> bytes \<Rightarrow> bytes result" where
  "hash_uuids rand cnt written =
     (if cnt < 4 then
        (case rand cnt of
           None \<Rightarrow> Inl (ErrorString ''cannot generate client instance ID'')
         | Some entropy \<Rightarrow>
             hash_uuids rand (Suc cnt) (written @ bytes_of_string (uuid_ascii entropy)))
      else Inr written)"
  by pat_completeness auto
termination
  by (relation "measure (\<lambda>(_, cnt, _). 4 - cnt)") auto

declare hash_uuids.simps [simp del]

definition createClientInstanceID :: "(bytes \<Rightarrow> bytes) \<Rightarrow> (nat \<Rightarrow> bytes option) \<Rightarrow> string result" where
  "createClientInstanceID sha512 rand =
     (case hash_uuids rand 0 [] of
        Inl e \<Rightarrow> Inl e
      | Inr written \<Rightarrow> Inr (hex_EncodeToString (sha512 written)))"


section \<open>Lemmas\<close>


lemma unat_div16: "unat (w :: byte) div 16 = unat (drop_bit 4 w)"
  by (simp add: drop_bit_eq_div unat_div_distrib)

lemma version_nibble: "unat (((x :: byte) AND 15) OR 64) div 16 = 4"
  unfolding unat_div16 by (simp add: drop_bit_or drop_bit_and)

lemma variant_nibble: "unat (((y :: byte) AND 63) OR 128) div 16 \<in> {8, 9, 10, 11}"
proof -
  define z where "z = (drop_bit 4 y AND 3 :: byte)"
  have eq: "unat ((y AND 63) OR 128) div 16 = unat (z OR 8)"
    unfolding unat_div16 z_def by (simp add: drop_bit_or drop_bit_and)
  have "z \<le> 3" unfolding z_def by (rule word_and_le1)
  then have "unat z \<le> 3" by (simp add: word_le_nat_alt)
  then have "unat z = 0 \<or> unat z = 1 \<or> unat z = 2 \<or> unat z = 3" by arith
  then have "z = 0 \<or> z = 1 \<or> z = 2 \<or> z = 3" by (simp add: word_unat_eq_iff)
  then show ?thesis using eq by auto
qed
lemma uuid_layout:
  assumes "length h1 = 8" "length h2 = 4" "length h3 = 4" "length h4 = 4" "length h5 = 12"
  shows "(write_at 24 h5 (write_at 19 h4 (write_at 14 h3 (write_at 9 h2 (write_at 0 h1 (replicate 36 z))))))
     [8 := x, 13 := x, 18 := x, 23 := x] = h1 @ x # h2 @ x # h3 @ x # h4 @ x # h5"
proof -
  have 1: "write_at 0 h1 (replicate 36 z) = h1 @ replicate 28 z"
    using assms by (simp add: write_at_def)
  have 2: "write_at 9 h2 (h1 @ replicate 28 z) = h1 @ z # h2 @ replicate 23 z"
    using assms by (simp add: write_at_def)
  have 3: "write_at 14 h3 (h1 @ z # h2 @ replicate 23 z) = h1 @ z # h2 @ z # h3 @ replicate 18 z"
    using assms by (simp add: write_at_def)
  have 4: "write_at 19 h4 (h1 @ z # h2 @ z # h3 @ replicate 18 z) = h1 @ z # h2 @ z # h3 @ z # h4 @ replicate 13 z"
    using assms by (simp add: write_at_def)
  have 5: "write_at 24 h5 (h1 @ z # h2 @ z # h3 @ z # h4 @ replicate 13 z) = h1 @ z # h2 @ z # h3 @ z # h4 @ z # h5"
    using assms by (simp add: write_at_def)
  show ?thesis unfolding 1 2 3 4 5 using assms by (simp add: list_update_append)
qed

text \<open>The array writes assemble the usual hyphenated form of a UUID.\<close>

lemma length_set_uuid_bits [simp]: "length (set_uuid_bits e) = length e"
  by (simp add: set_uuid_bits_def Let_def)

lemma uuid_ascii_eq:
  assumes "length e = 16"
  shows "uuid_ascii e =
    hex_EncodeToString (slice 0 4 (set_uuid_bits e)) @ CHR ''-'' #
    hex_EncodeToString (slice 4 6 (set_uuid_bits e)) @ CHR ''-'' #
    hex_EncodeToString (slice 6 8 (set_uuid_bits e)) @ CHR ''-'' #
    hex_EncodeToString (slice 8 10 (set_uuid_bits e)) @ CHR ''-'' #
    hex_EncodeToString (slice 10 16 (set_uuid_bits e))"
  unfolding uuid_ascii_def Let_def
  by (rule uuid_layout) (simp_all add: slice_def assms)

lemma hd_slice: "lo < hi \<Longrightarrow> lo < length xs \<Longrightarrow> slice lo hi xs = xs ! lo # slice (Suc lo) hi xs"
  by (simp add: slice_def Cons_nth_drop_Suc [symmetric] take_Cons' Suc_diff_Suc [symmetric])

lemma set_uuid_bits_nth:
  assumes "length e = 16"
  shows "set_uuid_bits e ! 6 = (e ! 6 AND 15) OR 64" "set_uuid_bits e ! 8 = (e ! 8 AND 63) OR 128"
  using assms by (simp_all add: set_uuid_bits_def Let_def)

lemma hash_uuids_eq:
  "hash_uuids rand 0 [] =
     (if \<exists>n < 4. rand n = None then Inl (ErrorString ''cannot generate client instance ID'')
      else Inr (concat (map (\<lambda>n. bytes_of_string (uuid_ascii (the (rand n)))) [0..<4])))"
proof -
  have four: "(\<exists>n < 4. rand n = None) \<longleftrightarrow> rand 0 = None \<or> rand 1 = None \<or> rand 2 = None \<or> rand 3 = None"
    by (auto simp: less_Suc_eq numeral_eq_Suc)
  have l: "[0..<4] = [0, 1, 2, 3 :: nat]" by (simp add: upt_rec)
  show ?thesis
    unfolding four l
    by (simp add: hash_uuids.simps numeral_2_eq_2 numeral_3_eq_3 split: option.splits)
qed


section \<open>Properties\<close>

text \<open>
  C39. From sixteen random bytes the loop body assembles a version-4 UUID: five groups of 8, 4,
  4, 4 and 12 lower-case hex digits joined by hyphens, the third group starting with the
  version digit 4 and the fourth with the variant digit 8, 9, a or b.
\<close>

theorem uuid_ascii_version4:
  assumes "length e = 16"
  shows "\<exists>g1 g2 g3 g4 g5.
    uuid_ascii e = g1 @ CHR ''-'' # g2 @ CHR ''-'' # g3 @ CHR ''-'' # g4 @ CHR ''-'' # g5 \<and>
    map length [g1, g2, g3, g4, g5] = [8, 4, 4, 4, 12] \<and>
    list_all is_lower_hex (g1 @ g2 @ g3 @ g4 @ g5) \<and>
    hd g3 = CHR ''4'' \<and> hd g4 \<in> {CHR ''8'', CHR ''9'', CHR ''a'', CHR ''b''}"
proof -
  let ?e = "set_uuid_bits e"
  have v: "hexdigit (unat (?e ! 6) div 16) = CHR ''4''"
    unfolding set_uuid_bits_nth [OF assms] version_nibble by (simp add: hexdigit_def char_of_eq_iff)
  have w: "hexdigit (unat (?e ! 8) div 16) \<in> {CHR ''8'', CHR ''9'', CHR ''a'', CHR ''b''}"
    unfolding set_uuid_bits_nth [OF assms] using variant_nibble [of "e ! 8"]
    by (auto simp: hexdigit_def char_of_eq_iff)
  have l: "list_all is_lower_hex (hex_EncodeToString x)" for x
    by (auto simp: list_all_iff dest: hex_encode_lower)
  have v': "hd (hex_EncodeToString (slice 6 8 ?e)) = CHR ''4''"
    using v by (simp add: hd_slice assms)
  have w': "hd (hex_EncodeToString (slice 8 10 ?e)) \<in> {CHR ''8'', CHR ''9'', CHR ''a'', CHR ''b''}"
    using w by (simp add: hd_slice assms)
  have n: "length (slice 0 4 ?e) = 4" "length (slice 4 6 ?e) = 2" "length (slice 6 8 ?e) = 2"
    "length (slice 8 10 ?e) = 2" "length (slice 10 16 ?e) = 6"
    by (simp_all add: slice_def assms)
  show ?thesis
    by (intro exI conjI, rule uuid_ascii_eq [OF assms]) (simp_all only: v' w', simp_all add: l n)
qed

theorem uuid_ascii_version4_witness:
  "length (replicate 16 (255 :: byte)) = 16 \<and>
   uuid_ascii (replicate 16 255) = ''ffffffff-ffff-4fff-bfff-ffffffffffff'' \<and>
   (\<exists>g1 g2 g3 g4 g5. uuid_ascii (replicate 16 255) =
      g1 @ CHR ''-'' # g2 @ CHR ''-'' # g3 @ CHR ''-'' # g4 @ CHR ''-'' # g5 \<and> hd g3 = CHR ''4'')"
proof -
  have h: "length (replicate 16 (255 :: byte)) = 16" by simp
  have v: "uuid_ascii (replicate 16 255) = ''ffffffff-ffff-4fff-bfff-ffffffffffff''"
    by code_simp
  show ?thesis using h v uuid_ascii_version4 [OF h] by blast
qed

text \<open>
  C40. The instance id is the hex form of the digest of the four UUID texts in the order in
  which they were drawn; when any of the four reads fails no id is made.
\<close>

theorem createClientInstanceID_eq:
  "createClientInstanceID sha512 rand =
     (if \<exists>n < 4. rand n = None then Inl (ErrorString ''cannot generate client instance ID'')
      else Inr (hex_EncodeToString (sha512
        (concat (map (\<lambda>n. bytes_of_string (uuid_ascii (the (rand n)))) [0..<4])))))"
  by (simp add: createClientInstanceID_def hash_uuids_eq)

end
