(* ===== verification/Authority.thy ===== *)
theory Authority
  imports Errors
begin

text \<open>
  \<^verbatim>\<open>authority.go\<close>: the v3 authority header that a client may attach to every WebSocket
  dial. The random nonce, the clock and the caller's signer are inputs: \<open>nonce\<close> is the
  outcome of \<^verbatim>\<open>rand.Read\<close> (\<open>None\<close> on failure), \<open>now\<close> the value of
  \<^verbatim>\<open>time.Now().UnixNano()\<close>, \<open>sign\<close> the signer (\<open>None\<close> when it is nil). A context
  is observed twice, before and after the signer runs; \<open>ctx_err\<close> gives the two
  observations.
\<close>


section \<open>The header\<close>

record context_obs =
  ctx_err_before :: "go_error option"
  ctx_err_after :: "go_error option"

type_synonym WSAuthoritySigner = "bytes \<Rightarrow> bytes result"

definition CR :: char where "CR = char_of (13 :: nat)"
definition LF :: char where "LF = char_of (10 :: nat)"

text \<open>\<^verbatim>\<open>strings.ContainsAny(s, chars)\<close>\<close>

definition ContainsAny :: "string \<Rightarrow> string \<Rightarrow> bool" where
  "ContainsAny s chars \<longleftrightarrow> list_ex (\<lambda>c. c \<in> set chars) s"

definition bad_authority_address :: "string \<Rightarrow> bool" where
  "bad_authority_address address \<longleftrightarrow>
     address = [] \<or> length address > 2048 \<or> ContainsAny address [CHR '';'', CR, LF]"

definition authority_payload :: "string \<Rightarrow> string \<Rightarrow> string \<Rightarrow> bytes" where
  "authority_payload address stamp nonceHex =
     bytes_of_string (''read-node/ws-authority/v3'' @ LF # address @ LF # stamp @ LF # nonceHex)"

definition authority_header :: "string \<Rightarrow> string \<Rightarrow> string \<Rightarrow> bytes \<Rightarrow> string" where
  "authority_header address stamp nonceHex signature =
     address @ '';v3;'' @ stamp @ CHR '';'' # nonceHex @ CHR '';'' # hex_EncodeToString signature"

definition CreateWSAuthorityV3 ::
  "bytes option \<Rightarrow> int \<Rightarrow> context_obs option \<Rightarrow> string \<Rightarrow> WSAuthoritySigner option \<Rightarrow> string result" where
  "CreateWSAuthorityV3 nonce now ctx address sign =
     (case (ctx, sign) of
        (Some c, Some signer) \<Rightarrow>
          if bad_authority_address address
          then Inl (ErrorString ''invalid websocket authority configuration'')
          else if ctx_err_before c \<noteq> None then Inl (ErrorString ''websocket authority canceled'')
          else (case nonce of
              None \<Rightarrow> Inl (ErrorString ''websocket authority randomness failed'')
            | Some n \<Rightarrow>
                let stamp = FormatInt now; nonceHex = hex_EncodeToString n in
                (case signer (authority_payload address stamp nonceHex) of
                   Inl _ \<Rightarrow> Inl (ErrorString ''websocket authority signing failed'')
                 | Inr result \<Rightarrow>
                     if ctx_err_after c \<noteq> None then Inl (ErrorString ''websocket authority canceled'')
                     else if length result = 0 \<or> length result > 8192
                     then Inl (ErrorString ''invalid websocket authority signature'')
                     else Inr (authority_header address stamp nonceHex result)))
      | _ \<Rightarrow> Inl (ErrorString ''invalid websocket authority configuration''))"


section \<open>Lemmas\<close>

lemma bad_address_chars:
  "\<not> bad_authority_address a \<Longrightarrow> CHR '';'' \<notin> set a \<and> CR \<notin> set a \<and> LF \<notin> set a"
  by (auto simp: bad_authority_address_def ContainsAny_def list_ex_iff)

lemma CreateWSAuthorityV3_Inr:
  assumes "CreateWSAuthorityV3 nonce now ctx address sign = Inr h"
  obtains c signer n sig where "ctx = Some c" "sign = Some signer" "nonce = Some n"
    "\<not> bad_authority_address address" "ctx_err_before c = None" "ctx_err_after c = None"
    "signer (authority_payload address (FormatInt now) (hex_EncodeToString n)) = Inr sig"
    "sig \<noteq> []" "length sig \<le> 8192"
    "h = authority_header address (FormatInt now) (hex_EncodeToString n) sig"
  using assms
  by (auto simp: CreateWSAuthorityV3_def Let_def split: option.splits if_splits sum.splits)

lemma semicolon_not_hex: "\<not> is_lower_hex (CHR '';'')"
  and semicolon_not_digit: "\<not> is_digit (CHR '';'')"
  and LF_not_hex: "\<not> is_lower_hex LF" and LF_not_digit: "\<not> is_digit LF" and LF_not_minus: "LF \<noteq> CHR ''-''"
  and CR_not_hex: "\<not> is_lower_hex CR" and CR_not_digit: "\<not> is_digit CR" and CR_not_minus: "CR \<noteq> CHR ''-''"
  by (simp_all add: is_lower_hex_def is_digit_def LF_def CR_def char_of_eq_iff)

lemmas sep_chars = semicolon_not_hex semicolon_not_digit LF_not_hex LF_not_digit LF_not_minus
  CR_not_hex CR_not_digit CR_not_minus

lemma authority_header_inject:
  assumes "CHR '';'' \<notin> set a" "CHR '';'' \<notin> set a'"
    and "authority_header a (FormatInt t) (hex_EncodeToString n) s =
         authority_header a' (FormatInt t') (hex_EncodeToString n') s'"
  shows "a = a' \<and> t = t' \<and> n = n' \<and> s = s'"
proof -
  have "a = a'" and r: "FormatInt t @ CHR '';'' # hex_EncodeToString n @ CHR '';'' # hex_EncodeToString s =
     FormatInt t' @ CHR '';'' # hex_EncodeToString n' @ CHR '';'' # hex_EncodeToString s'"
    using assms append_sep_eq_iff [OF assms(1,2)] by (simp_all add: authority_header_def)
  then have "t = t'" and "hex_EncodeToString n @ CHR '';'' # hex_EncodeToString s =
     hex_EncodeToString n' @ CHR '';'' # hex_EncodeToString s'"
    using decc.enc_join_inject [of "CHR '';''" t _ t'] by (simp_all add: sep_chars)
  then have "n = n'" "s = s'"
    using hexc.enc_join_inject [of "CHR '';''" n _ n'] by (simp_all add: sep_chars hexc.enc_inject)
  with \<open>a = a'\<close> \<open>t = t'\<close> show ?thesis by simp
qed

lemma authority_payload_inject:
  assumes "LF \<notin> set a" "LF \<notin> set a'"
    and "authority_payload a (FormatInt t) (hex_EncodeToString n) =
         authority_payload a' (FormatInt t') (hex_EncodeToString n')"
  shows "a = a' \<and> t = t' \<and> n = n'"
proof -
  have "a @ LF # FormatInt t @ LF # hex_EncodeToString n =
        a' @ LF # FormatInt t' @ LF # hex_EncodeToString n'"
    using assms(3) by (simp add: authority_payload_def)
  then have "a = a'" and "FormatInt t @ LF # hex_EncodeToString n = FormatInt t' @ LF # hex_EncodeToString n'"
    using append_sep_eq_iff [OF assms(1,2)] by simp_all
  then show ?thesis
    using decc.enc_join_inject [of LF t _ t'] by (simp add: sep_chars hexc.enc_inject)
qed


lemma authority_header_chars:
  assumes "\<not> bad_authority_address a"
    and "c \<in> set (authority_header a (FormatInt t) (hex_EncodeToString n) s)"
  shows "c \<noteq> CR \<and> c \<noteq> LF"
proof -
  have "c \<in> set a \<or> c \<in> set '';v3;'' \<or> c \<in> set (FormatInt t) \<or> is_lower_hex c"
    using assms(2) by (auto simp: authority_header_def dest: hex_encode_lower)
  moreover have "CR \<notin> set '';v3;'' \<and> LF \<notin> set '';v3;''"
    by (auto simp: CR_def LF_def char_of_eq_iff)
  ultimately show ?thesis
    using bad_address_chars [OF assms(1)] FormatInt_chars [of c t] sep_chars by auto
qed


section \<open>Properties\<close>



text \<open>
  C14. Neither the signed payload nor the header is ambiguous: whatever the addresses, time
  stamps, nonces and signatures, two payloads (two headers) made by successful calls are
  equal only if all their parts are.
\<close>

theorem CreateWSAuthorityV3_unambiguous:
  assumes "CreateWSAuthorityV3 (Some n) t c a (Some f) = Inr h"
    and "CreateWSAuthorityV3 (Some n') t' c' a' (Some f') = Inr h'"
  shows "(authority_payload a (FormatInt t) (hex_EncodeToString n) =
          authority_payload a' (FormatInt t') (hex_EncodeToString n') \<longleftrightarrow> (a, t, n) = (a', t', n')) \<and>
         (h = h' \<longrightarrow> (a, t, n) = (a', t', n') \<and>
            f (authority_payload a (FormatInt t) (hex_EncodeToString n)) =
            f' (authority_payload a' (FormatInt t') (hex_EncodeToString n')))"
proof -
  from assms(1) obtain s where s: "\<not> bad_authority_address a"
    "f (authority_payload a (FormatInt t) (hex_EncodeToString n)) = Inr s"
    "h = authority_header a (FormatInt t) (hex_EncodeToString n) s"
    by (rule CreateWSAuthorityV3_Inr) auto
  from assms(2) obtain s' where s': "\<not> bad_authority_address a'"
    "f' (authority_payload a' (FormatInt t') (hex_EncodeToString n')) = Inr s'"
    "h' = authority_header a' (FormatInt t') (hex_EncodeToString n') s'"
    by (rule CreateWSAuthorityV3_Inr) auto
  show ?thesis
    using bad_address_chars [OF s(1)] bad_address_chars [OF s'(1)] s s'
      authority_header_inject [of a a' t n s t' n' s'] authority_payload_inject [of a a' t n t' n']
    by auto
qed

theorem CreateWSAuthorityV3_unambiguous_witness:
  "authority_payload ''a'' (FormatInt 1) (hex_EncodeToString [1]) \<noteq>
   authority_payload ''a'' (FormatInt 1) (hex_EncodeToString [2])"
proof -
  have ok: "\<not> bad_authority_address ''a''" by code_simp
  have h: "\<exists>h. CreateWSAuthorityV3 (Some [k]) 1 (Some \<lparr>ctx_err_before = None, ctx_err_after = None\<rparr>)
      ''a'' (Some (\<lambda>_. Inr [7])) = Inr h" for k
    using ok by (simp add: CreateWSAuthorityV3_def Let_def)
  obtain h1 h2 where "CreateWSAuthorityV3 (Some [1]) 1 (Some \<lparr>ctx_err_before = None, ctx_err_after = None\<rparr>)
      ''a'' (Some (\<lambda>_. Inr [7])) = Inr h1"
    "CreateWSAuthorityV3 (Some [2]) 1 (Some \<lparr>ctx_err_before = None, ctx_err_after = None\<rparr>)
      ''a'' (Some (\<lambda>_. Inr [7])) = Inr h2" using h by blast
  from CreateWSAuthorityV3_unambiguous [OF this] show ?thesis by simp
qed

end
