(* ===== verification/Client_State.thy ===== *)
theory Client_State
  imports Decoding Certificate Passkey Authority
begin

text \<open>
  The client's state (\<^verbatim>\<open>type client struct\<close> of \<^verbatim>\<open>client.go\<close> and
  \<^verbatim>\<open>type wsSession struct\<close> of \<^verbatim>\<open>websocket.go\<close>), its construction and its
  configuration methods. A method that runs under the client's mutex is one function from
  state to state. Callbacks and loggers are opaque values of the caller and are represented
  by their identity, a number.
\<close>


section \<open>State\<close>

definition maxMessageSize :: int where "maxMessageSize = 16 * 1024 * 1024"
definition send_capacity :: nat where "send_capacity = 64"
definition callback_capacity :: nat where "callback_capacity = 16"

text \<open>
  A session: the error of its context (\<open>None\<close> while it is live), whether its \<^verbatim>\<open>done\<close>
  channel is closed, the buffered messages of its \<^verbatim>\<open>send\<close> channel, whether the
  one-place \<^verbatim>\<open>subscriptions\<close> channel is full, and the byte counter.
\<close>

record wsSession =
  ses_ctx_err :: "go_error option"
  ses_done :: bool
  ses_send :: "bytes list"
  ses_subscriptions :: bool
  ses_queuedBytes :: int

record url =
  u_Scheme :: string
  u_Host :: string
  u_Hostname :: string
  u_String :: string

text \<open>What the client sets in its TLS configuration; \<open>tls_pin\<close> is the captured fingerprint.\<close>

record tls_config =
  tls_MinVersion :: nat
  tls_InsecureSkipVerify :: bool
  tls_pin :: "string option"

record 'h client =
  clientInstanceID :: string
  authorityAddress :: string
  authoritySigner :: "WSAuthoritySigner option"
  ctx_Err :: "go_error option"
  lgr :: nat
  mode :: Mode
  address :: string
  wsURL :: url
  chainName :: string
  chainVersion :: string
  version :: string
  retrieveCallbacks :: "nat list"
  listenCallbacks :: "nat list"
  errorCallbacks :: "nat list"
  headers :: 'h
  wsHeaders :: 'h
  session :: "wsSession option"
  subscribedAddresses :: "(string, bool) gomap"
  subscribedSignedData :: "(string, string) gomap"
  subscribedTypes :: "Type list"
  subscriptionRevision :: uint64
  proxy :: "string option"
  tlsConfig :: "tls_config option"
  verbose :: bool
  callbackSlots :: nat


section \<open>Construction\<close>

text \<open>
  The library calls of \<^verbatim>\<open>newClient\<close>: URL parsing, PEM and X.509 decoding, the system
  certificate pool, digests, randomness and the platform names.
\<close>

record 'h new_env =
  env_url_Parse :: "string \<Rightarrow> url result"
  env_pem_Decode :: "bytes \<Rightarrow> (string \<times> bytes) option"
  env_ParseCertificate :: "bytes \<Rightarrow> certificate result"
  env_SystemCertPool :: "unit result"
  env_sha256 :: "bytes \<Rightarrow> bytes"
  env_sha512 :: "bytes \<Rightarrow> bytes"
  env_rand :: "nat \<Rightarrow> bytes option"
  env_GOOS :: string
  env_GOARCH :: string
  env_headers :: "'h header_ops"

text \<open>
  A reader gives its content and then, possibly, an error. \<^verbatim>\<open>io.ReadAll\<close> of a
  \<^verbatim>\<open>LimitReader\<close> never sees what lies behind the limit.
\<close>

type_synonym reader = "bytes \<times> go_error option"

definition ReadAll_limited :: "nat \<Rightarrow> reader \<Rightarrow> bytes \<times> go_error option" where
  "ReadAll_limited n r = (if n \<le> length (fst r) then (take n (fst r), None) else r)"

definition max_cert_size :: nat where "max_cert_size = 1024 * 1024"

text \<open>The first check: a non-empty custom fingerprint is 32 bytes in hex.\<close>

definition check_fingerprint :: "string option \<Rightarrow> go_error option" where
  "check_fingerprint customFingerprint =
     (case customFingerprint of
        None \<Rightarrow> None
      | Some value \<Rightarrow>
          if value \<noteq> [] then
            (case hex_DecodeString value of
               None \<Rightarrow> Some (ErrorString ''invalid certificate pin'')
             | Some pin \<Rightarrow> if length pin \<noteq> 32 then Some (ErrorString ''invalid certificate pin'') else None)
          else None)"

definition bad_http_url :: "url \<Rightarrow> bool" where
  "bad_http_url u \<longleftrightarrow> (u_Scheme u \<noteq> ''https'' \<and> u_Scheme u \<noteq> ''http'') \<or> u_Hostname u = []"

definition bad_ws_url :: "url \<Rightarrow> bool" where
  "bad_ws_url u \<longleftrightarrow> (u_Scheme u \<noteq> ''wss'' \<and> u_Scheme u \<noteq> ''ws'') \<or> u_Hostname u = []"

text \<open>
  The certificate input: the fingerprint that is in force after reading \<open>cert\<close>. An
  explicit empty fingerprint keeps pinning disabled.
\<close>

definition resolve_pin ::
  "'h new_env \<Rightarrow> string option \<Rightarrow> reader option \<Rightarrow> string option result" where
  "resolve_pin E customFingerprint cert =
     (case cert of
        None \<Rightarrow> Inr customFingerprint
      | Some r \<Rightarrow>
          (case ReadAll_limited (max_cert_size + 1) r of
             (raw, Some _) \<Rightarrow> Inl (ErrorString ''cannot read server certificate'')
           | (raw, None) \<Rightarrow>
               if length raw > max_cert_size then Inl (ErrorString ''server certificate too large'')
               else
                 (case (case env_pem_Decode E raw of
                          None \<Rightarrow> Inr raw
                        | Some (typ, der) \<Rightarrow>
                            if typ \<noteq> ''CERTIFICATE'' then Inl (ErrorString ''expected server certificate'')
                            else Inr der) of
                    Inl e \<Rightarrow> Inl e
                  | Inr der \<Rightarrow>
                      (case env_ParseCertificate E der of
                         Inl _ \<Rightarrow> Inl (ErrorString ''invalid server certificate'')
                       | Inr parsed \<Rightarrow>
                           let certPin = hex_EncodeToString (env_sha256 E (Raw parsed)) in
                           (case customFingerprint of
                              None \<Rightarrow> Inr (Some certPin)
                            | Some fp \<Rightarrow>
                                if fp \<noteq> [] \<and> \<not> EqualFold fp certPin
                                then Inl (ErrorString ''certificate and fingerprint disagree'')
                                else Inr (Some fp))))))"

definition VersionTLS12 :: nat where "VersionTLS12 = 0x0303"

definition agent_string :: "'h new_env \<Rightarrow> string" where
  "agent_string E = ''tcabaci-read-go-client/1.6.43 ('' @ env_GOOS E @ '';'' @ env_GOARCH E @ '')''"

definition agent_headers :: "'h new_env \<Rightarrow> 'h" where
  "agent_headers E = (let H = env_headers E in
     h_Set H ''User-Agent'' (agent_string E) (h_Set H ''Client'' (agent_string E) (h_empty H)))"

definition newClient ::
  "'h new_env \<Rightarrow> go_error option option \<Rightarrow> string \<Rightarrow> string \<Rightarrow> string \<Rightarrow> string \<Rightarrow> bool \<Rightarrow>
   string option \<Rightarrow> reader option \<Rightarrow> 'h client result" where
  "newClient E ctx addr wsAddr cName cVersion insecure customFingerprint cert =
     (case ctx of
        None \<Rightarrow> Inl (ErrorString ''nil context'')
      | Some cerr \<Rightarrow>
     (case check_fingerprint customFingerprint of
        Some e \<Rightarrow> Inl e
      | None \<Rightarrow>
     (case env_url_Parse E addr of
        Inl e \<Rightarrow> Inl e
      | Inr aURL \<Rightarrow>
     if bad_http_url aURL then Inl (ErrorString ''invalid address'') else
     (case env_url_Parse E wsAddr of
        Inl e \<Rightarrow> Inl e
      | Inr wURL \<Rightarrow>
     if bad_ws_url wURL then Inl (ErrorString ''invalid websocket address'') else
     (case resolve_pin E customFingerprint cert of
        Inl e \<Rightarrow> Inl e
      | Inr pin \<Rightarrow>
     (case (if u_Scheme aURL = ''https'' \<or> u_Scheme wURL = ''wss'' \<or> cert \<noteq> None
            then (case env_SystemCertPool E of
                    Inl e \<Rightarrow> Inl e
                  | Inr _ \<Rightarrow> Inr (Some \<lparr>tls_MinVersion = VersionTLS12,
                                tls_InsecureSkipVerify = insecure, tls_pin = pin\<rparr>))
            else Inr None) of
        Inl e \<Rightarrow> Inl e
      | Inr tls \<Rightarrow>
     (case createClientInstanceID (env_sha512 E) (env_rand E) of
        Inl e \<Rightarrow> Inl e
      | Inr instanceID \<Rightarrow>
          Inr \<lparr>clientInstanceID = instanceID, authorityAddress = [], authoritySigner = None,
               ctx_Err = cerr, lgr = 0, mode = Subscription, address = addr, wsURL = wURL,
               chainName = cName, chainVersion = cVersion, version = ''1.6.43'',
               retrieveCallbacks = [], listenCallbacks = [], errorCallbacks = [],
               headers = agent_headers E, wsHeaders = agent_headers E, session = None,
               subscribedAddresses = [], subscribedSignedData = [], subscribedTypes = [],
               subscriptionRevision = 0, proxy = None, tlsConfig = tls, verbose = False,
               callbackSlots = 0\<rparr>)))))))"

text \<open>The two exported constructors; \<^verbatim>\<open>context.Background()\<close> is never cancelled.\<close>

definition NewClient where
  "NewClient E addr wsAddr cName cVersion insecure fp cert =
     newClient E (Some None) addr wsAddr cName cVersion insecure fp cert"

definition NewClientContext where
  "NewClientContext E ctx addr wsAddr cName cVersion insecure fp cert =
     newClient E ctx addr wsAddr cName cVersion insecure fp cert"


section \<open>Configuration\<close>

text \<open>
  \<^verbatim>\<open>notifySubscriptionLocked\<close>: a send on the one-place channel that is skipped when the
  place is taken.
\<close>

definition notifySubscriptionLocked :: "'h client \<Rightarrow> 'h client" where
  "notifySubscriptionLocked c =
     (case session c of
        None \<Rightarrow> c
      | Some s \<Rightarrow> c\<lparr>session := Some (s\<lparr>ses_subscriptions := True\<rparr>)\<rparr>)"

definition WithMode :: "Mode \<Rightarrow> 'h client \<Rightarrow> 'h client" where
  "WithMode m c =
     (let c = c\<lparr>mode := m\<rparr>;
          c = c\<lparr>subscriptionRevision := subscriptionRevision c + 1\<rparr>
      in notifySubscriptionLocked c)"

text \<open>The proxy decides how both the HTTP client and the WebSocket dialer connect.\<close>

definition WithProxy :: "string option \<Rightarrow> 'h client \<Rightarrow> 'h client" where
  "WithProxy proxyURL c = (case proxyURL of
     None \<Rightarrow> c\<lparr>proxy := None\<rparr> | Some p \<Rightarrow> c\<lparr>proxy := Some p\<rparr>)"

definition WithLogger :: "nat option \<Rightarrow> 'h client \<Rightarrow> 'h client" where
  "WithLogger l c = (case l of None \<Rightarrow> c | Some x \<Rightarrow> c\<lparr>lgr := x\<rparr>)"

definition SetVerbose :: "bool \<Rightarrow> 'h client \<Rightarrow> 'h client" where
  "SetVerbose v c = c\<lparr>verbose := v\<rparr>"

definition SetListenCallback :: "nat option \<Rightarrow> 'h client \<Rightarrow> 'h client" where
  "SetListenCallback fn c =
     (let c = c\<lparr>listenCallbacks := []\<rparr> in
      case fn of None \<Rightarrow> c | Some f \<Rightarrow> c\<lparr>listenCallbacks := listenCallbacks c @ [f]\<rparr>)"

definition AddListenCallback :: "nat option \<Rightarrow> 'h client \<Rightarrow> 'h client" where
  "AddListenCallback fn c =
     (case fn of None \<Rightarrow> c | Some f \<Rightarrow> c\<lparr>listenCallbacks := listenCallbacks c @ [f]\<rparr>)"

definition AddRetrieveCallback :: "nat option \<Rightarrow> 'h client \<Rightarrow> 'h client" where
  "AddRetrieveCallback fn c =
     (case fn of None \<Rightarrow> c | Some f \<Rightarrow> c\<lparr>retrieveCallbacks := retrieveCallbacks c @ [f]\<rparr>)"

definition AddErrorCallback :: "nat option \<Rightarrow> 'h client \<Rightarrow> 'h client" where
  "AddErrorCallback fn c =
     (case fn of None \<Rightarrow> c | Some f \<Rightarrow> c\<lparr>errorCallbacks := errorCallbacks c @ [f]\<rparr>)"

definition AddHeader :: "'h header_ops \<Rightarrow> string \<Rightarrow> string \<Rightarrow> 'h client \<Rightarrow> 'h client" where
  "AddHeader H key value c = c\<lparr>headers := h_Add H key value (headers c)\<rparr>"

definition RemoveHeader :: "'h header_ops \<Rightarrow> string \<Rightarrow> 'h client \<Rightarrow> 'h client" where
  "RemoveHeader H key c = c\<lparr>headers := h_Del H key (headers c)\<rparr>"

definition AddWSHeader :: "'h header_ops \<Rightarrow> string \<Rightarrow> string \<Rightarrow> 'h client \<Rightarrow> 'h client" where
  "AddWSHeader H key value c = c\<lparr>wsHeaders := h_Add H key value (wsHeaders c)\<rparr>"

definition RemoveWSHeader :: "'h header_ops \<Rightarrow> string \<Rightarrow> 'h client \<Rightarrow> 'h client" where
  "RemoveWSHeader H key c = c\<lparr>wsHeaders := h_Del H key (wsHeaders c)\<rparr>"

definition copyHeaders :: "'h client \<Rightarrow> 'h http_request \<Rightarrow> 'h http_request" where
  "copyHeaders c req = req\<lparr>req_Header := headers c\<rparr>"

text \<open>\<^verbatim>\<open>WithWSAuthority\<close> of \<^verbatim>\<open>authority.go\<close>: a nil signer switches the header off.\<close>

definition WithWSAuthority ::
  "string \<Rightarrow> WSAuthoritySigner option \<Rightarrow> 'h client \<Rightarrow> go_error option \<times> 'h client" where
  "WithWSAuthority addr sign c =
     (if sign \<noteq> None \<and> bad_authority_address addr
      then (Some (ErrorString ''invalid websocket authority configuration''), c)
      else
        let c = c\<lparr>authorityAddress := addr\<rparr>;
            c = c\<lparr>authoritySigner := sign\<rparr>;
            c = (if sign = None then c\<lparr>authorityAddress := []\<rparr> else c)
        in (None, c))"

lemmas config_defs [client_defs] = notifySubscriptionLocked_def WithMode_def WithProxy_def
  WithLogger_def SetVerbose_def SetListenCallback_def AddListenCallback_def
  AddRetrieveCallback_def AddErrorCallback_def AddHeader_def RemoveHeader_def AddWSHeader_def
  RemoveWSHeader_def WithWSAuthority_def


section \<open>Lemmas on construction\<close>

lemma check_fingerprint_ok:
  "check_fingerprint (Some fp) = None \<Longrightarrow> fp \<noteq> [] \<Longrightarrow> \<exists>d. decodePin fp = Inr d"
  by (auto simp: check_fingerprint_def decodePin_def sha256_Size_def split: option.splits if_splits)

lemma resolve_pin_custom:
  "resolve_pin E (Some fp) cert = Inr pin \<Longrightarrow> pin = Some fp"
  by (auto simp: resolve_pin_def Let_def split: option.splits if_splits sum.splits prod.splits)

text \<open>When a certificate is read, the pin that results names its digest.\<close>

lemma resolve_pin_cert:
  assumes "resolve_pin E custom (Some r) = Inr pin" "check_fingerprint custom = None" "custom \<noteq> Some []"
    and "\<And>raw. length (env_sha256 E raw) = 32"
  shows "\<exists>der crt. env_ParseCertificate E der = Inr crt \<and>
           (\<exists>p. pin = Some p \<and> decodePin p = Inr (env_sha256 E (Raw crt)))"
proof -
  obtain der crt where crt: "env_ParseCertificate E der = Inr crt"
    and pin: "pin = (case custom of None \<Rightarrow> Some (hex_EncodeToString (env_sha256 E (Raw crt))) | Some fp \<Rightarrow> Some fp)"
    and agree: "\<And>fp. custom = Some fp \<Longrightarrow> fp \<noteq> [] \<longrightarrow> EqualFold fp (hex_EncodeToString (env_sha256 E (Raw crt)))"
    using assms(1)
    by (auto simp: resolve_pin_def Let_def split: option.splits if_splits sum.splits prod.splits)
  show ?thesis
  proof (cases custom)
    case None
    with pin crt assms(4) show ?thesis by auto
  next
    case (Some fp)
    with assms(2,3) obtain d where "decodePin fp = Inr d" "fp \<noteq> []"
      using check_fingerprint_ok by auto
    with agree [OF Some] EqualFold_hex_iff [of fp d] have "d = env_sha256 E (Raw crt)"
      by (auto simp: decodePin_Inr_iff)
    with Some pin crt \<open>decodePin fp = Inr d\<close> show ?thesis by auto
  qed
qed


lemma newClient_Inr:
  assumes "newClient E ctx addr wsAddr cName cVersion insecure fp cert = Inr c"
  obtains cerr aURL wURL pin where
    "ctx = Some cerr" "check_fingerprint fp = None" "env_url_Parse E addr = Inr aURL"
    "\<not> bad_http_url aURL" "env_url_Parse E wsAddr = Inr wURL" "\<not> bad_ws_url wURL"
    "resolve_pin E fp cert = Inr pin"
    "tlsConfig c = (if u_Scheme aURL = ''https'' \<or> u_Scheme wURL = ''wss'' \<or> cert \<noteq> None
       then Some \<lparr>tls_MinVersion = VersionTLS12, tls_InsecureSkipVerify = insecure, tls_pin = pin\<rparr>
       else None)"
    "createClientInstanceID (env_sha512 E) (env_rand E) = Inr (clientInstanceID c)"
    "session c = None" "subscribedAddresses c = []" "subscribedSignedData c = []"
    "subscribedTypes c = []" "subscriptionRevision c = 0" "callbackSlots c = 0"
    "mode c = Subscription" "authoritySigner c = None" "address c = addr" "wsURL c = wURL"
    "ctx_Err c = cerr"
proof -
  obtain cerr where 1: "ctx = Some cerr"
    using assms by (cases ctx) (simp_all add: newClient_def)
  have 2: "check_fingerprint fp = None"
    using assms 1 by (cases "check_fingerprint fp") (simp_all add: newClient_def)
  obtain aURL where 3: "env_url_Parse E addr = Inr aURL" "\<not> bad_http_url aURL"
    using assms 1 2 by (cases "env_url_Parse E addr") (simp_all add: newClient_def split: if_splits)
  obtain wURL where 4: "env_url_Parse E wsAddr = Inr wURL" "\<not> bad_ws_url wURL"
    using assms 1 2 3 by (cases "env_url_Parse E wsAddr") (simp_all add: newClient_def split: if_splits)
  obtain pin where 5: "resolve_pin E fp cert = Inr pin"
    using assms 1 2 3 4 by (cases "resolve_pin E fp cert") (simp_all add: newClient_def)
  obtain i where 6: "createClientInstanceID (env_sha512 E) (env_rand E) = Inr i"
    using assms 1 2 3 4 5
    by (cases "createClientInstanceID (env_sha512 E) (env_rand E)")
      (simp_all add: newClient_def split: if_splits sum.splits)
  show ?thesis
    by (rule that [of cerr aURL wURL pin])
      (use assms 1 2 3 4 5 6 in \<open>auto simp: newClient_def split: if_splits sum.splits\<close>)
qed


section \<open>A concrete environment\<close>

text \<open>
  An instance of the parameters, at which the properties below are evaluated: header fields
  as an association list, two URLs that parse, a constant digest and a certificate parser
  that accepts anything.
\<close>

definition assoc_headers :: "(string \<times> string) list header_ops" where
  "assoc_headers = \<lparr>h_empty = [],
     h_Set = (\<lambda>k v h. filter (\<lambda>p. fst p \<noteq> k) h @ [(k, v)]),
     h_Add = (\<lambda>k v h. h @ [(k, v)]),
     h_Del = (\<lambda>k h. filter (\<lambda>p. fst p \<noteq> k) h),
     h_All = (\<lambda>h. h)\<rparr>"

definition example_url :: "string \<Rightarrow> url result" where
  "example_url s =
     (if s = ''https://a'' then Inr \<lparr>u_Scheme = ''https'', u_Host = ''a'', u_Hostname = ''a'', u_String = s\<rparr>
      else if s = ''wss://b'' then Inr \<lparr>u_Scheme = ''wss'', u_Host = ''b'', u_Hostname = ''b'', u_String = s\<rparr>
      else Inl (LibError ''parse''))"

definition example_env :: "(string \<times> string) list new_env" where
  "example_env = \<lparr>env_url_Parse = example_url, env_pem_Decode = (\<lambda>_. None),
     env_ParseCertificate = (\<lambda>raw. Inr \<lparr>Raw = raw\<rparr>), env_SystemCertPool = Inr (),
     env_sha256 = (\<lambda>_. replicate 32 1), env_sha512 = (\<lambda>_. replicate 64 2),
     env_rand = (\<lambda>_. Some (replicate 16 3)), env_GOOS = ''linux'', env_GOARCH = ''amd64'',
     env_headers = assoc_headers\<rparr>"

definition example_client :: "(string \<times> string) list client" where
  "example_client = \<lparr>clientInstanceID = hex_EncodeToString (replicate 64 2), authorityAddress = [],
     authoritySigner = None, ctx_Err = None, lgr = 0, mode = Subscription, address = ''https://a'',
     wsURL = \<lparr>u_Scheme = ''wss'', u_Host = ''b'', u_Hostname = ''b'', u_String = ''wss://b''\<rparr>,
     chainName = ''medusa'', chainVersion = ''v2'', version = ''1.6.43'',
     retrieveCallbacks = [], listenCallbacks = [], errorCallbacks = [],
     headers = agent_headers example_env, wsHeaders = agent_headers example_env, session = None,
     subscribedAddresses = [], subscribedSignedData = [], subscribedTypes = [],
     subscriptionRevision = 0, proxy = None,
     tlsConfig = Some \<lparr>tls_MinVersion = VersionTLS12, tls_InsecureSkipVerify = False, tls_pin = None\<rparr>,
     verbose = False, callbackSlots = 0\<rparr>"

lemma example_urls [simp]:
  "env_url_Parse example_env ''https://a'' =
     Inr \<lparr>u_Scheme = ''https'', u_Host = ''a'', u_Hostname = ''a'', u_String = ''https://a''\<rparr>"
  "env_url_Parse example_env ''wss://b'' =
     Inr \<lparr>u_Scheme = ''wss'', u_Host = ''b'', u_Hostname = ''b'', u_String = ''wss://b''\<rparr>"
  by (simp_all add: example_env_def example_url_def)

lemma example_client_new:
  "newClient example_env (Some None) ''https://a'' ''wss://b'' ''medusa'' ''v2'' False None None =
     Inr example_client"
proof -
  have i: "createClientInstanceID (env_sha512 example_env) (env_rand example_env) =
      Inr (hex_EncodeToString (replicate 64 2))"
    unfolding createClientInstanceID_def hash_uuids_eq by (simp add: example_env_def)
  have p: "env_SystemCertPool example_env = Inr ()" by (simp add: example_env_def)
  show ?thesis
    by (simp add: newClient_def i p check_fingerprint_def resolve_pin_def bad_http_url_def
        bad_ws_url_def example_client_def)
qed


section \<open>Properties\<close>

text \<open>
  C35. A client that was constructed talks TLS whenever one of its endpoints is https or wss,
  with TLS 1.2 as the minimum and certificate verification skipped only if the caller asked
  for it; the fingerprint its handshakes check is absent (the default list applies), empty
  (pinning is off) or a well-formed pin, and a custom fingerprint is used as given.
\<close>

theorem newClient_tls:
  assumes "newClient E ctx addr wsAddr cName cVersion insecure fp cert = Inr c"
    and "env_url_Parse E addr = Inr aURL" "env_url_Parse E wsAddr = Inr wURL"
    and "\<And>raw. length (env_sha256 E raw) = 32"
  shows "(u_Scheme aURL = ''https'' \<or> u_Scheme wURL = ''wss'' \<longrightarrow> tlsConfig c \<noteq> None) \<and>
    (\<forall>t. tlsConfig c = Some t \<longrightarrow>
       tls_MinVersion t = VersionTLS12 \<and> tls_InsecureSkipVerify t = insecure \<and>
       (\<forall>f. fp = Some f \<longrightarrow> tls_pin t = Some f) \<and>
       (fp = None \<and> cert = None \<longrightarrow> tls_pin t = None) \<and>
       (\<forall>f. tls_pin t = Some f \<longrightarrow> f = [] \<or> (\<exists>d. decodePin f = Inr d)))"
proof -
  from assms(1) obtain pin where chk: "check_fingerprint fp = None"
    and pin: "resolve_pin E fp cert = Inr pin"
    and tls: "tlsConfig c = (if u_Scheme aURL = ''https'' \<or> u_Scheme wURL = ''wss'' \<or> cert \<noteq> None
       then Some \<lparr>tls_MinVersion = VersionTLS12, tls_InsecureSkipVerify = insecure, tls_pin = pin\<rparr>
       else None)"
    by (rule newClient_Inr) (use assms(2,3) in auto)
  have custom: "pin = Some f" if "fp = Some f" for f
    using pin that resolve_pin_custom by blast
  have none: "pin = None" if "fp = None" "cert = None"
    using pin that by (simp add: resolve_pin_def)
  have wf: "f = [] \<or> (\<exists>d. decodePin f = Inr d)" if f: "pin = Some f" for f
  proof (cases fp)
    case (Some g)
    with f custom chk show ?thesis using check_fingerprint_ok [of g] by auto
  next
    case None
    with f none obtain r where "cert = Some r" by (cases cert) auto
    with pin chk None resolve_pin_cert [of E fp r pin] assms(4) f show ?thesis by auto
  qed
  show ?thesis using tls custom none wf by auto
qed


theorem newClient_tls_witness:
  "newClient example_env (Some None) ''https://a'' ''wss://b'' ''medusa'' ''v2'' False None None =
     Inr example_client \<and> tlsConfig example_client \<noteq> None"
proof -
  have "length (env_sha256 example_env raw) = 32" for raw by (simp add: example_env_def)
  from newClient_tls [OF example_client_new example_urls this] show ?thesis
    using example_client_new by simp
qed

end
