(* ===== verification/Subscriptions.thy ===== *)
theory Subscriptions
  imports Client_State
begin

text \<open>
  The session lifecycle (\<^verbatim>\<open>Start\<close>, \<^verbatim>\<open>Stop\<close>), the desired subscription
  (\<^verbatim>\<open>Subscribe\<close>, \<^verbatim>\<open>Unsubscribe\<close>) and its transfer to the read node
  (\<^verbatim>\<open>syncSubscription\<close>) of \<^verbatim>\<open>websocket.go\<close>. An operation that fails returns
  \<open>Some\<close> error together with the state it leaves.
\<close>


section \<open>Start and Stop\<close>

definition fresh_session :: wsSession where
  "fresh_session = \<lparr>ses_ctx_err = None, ses_done = False, ses_send = [], ses_subscriptions = False,
     ses_queuedBytes = 0\<rparr>"

definition Start :: "'h client \<Rightarrow> go_error option \<times> 'h client" where
  "Start c =
     (if (case session c of Some s \<Rightarrow> \<not> ses_done s | None \<Rightarrow> False)
      then (Some ErrAlreadyStarted, c)
      else (case ctx_Err c of
              Some e \<Rightarrow> (Some e, c)
            | None \<Rightarrow> (None, c\<lparr>session := Some fresh_session\<rparr>)))"

text \<open>\<^verbatim>\<open>s.cancel()\<close>: the first cancellation decides the context's error.\<close>

definition cancel_session :: "wsSession \<Rightarrow> wsSession" where
  "cancel_session s = s\<lparr>ses_ctx_err := (case ses_ctx_err s of None \<Rightarrow> Some Canceled | Some e \<Rightarrow> Some e)\<rparr>"

text \<open>
  \<^verbatim>\<open>Stop\<close> cancels the session, waits until its \<^verbatim>\<open>done\<close> channel closes and then
  clears the client. The two critical sections are \<open>Stop_request\<close> and
  \<open>Stop_complete\<close>; \<open>wait\<close> is what the session's goroutine does in between.
\<close>

definition Stop_request :: "'h client \<Rightarrow> 'h client" where
  "Stop_request c = (case session c of None \<Rightarrow> c | Some s \<Rightarrow> c\<lparr>session := Some (cancel_session s)\<rparr>)"

definition Stop_complete :: "'h client \<Rightarrow> 'h client" where
  "Stop_complete c =
     (let c = c\<lparr>session := None\<rparr>;
          c = c\<lparr>subscribedAddresses := []\<rparr>;
          c = c\<lparr>subscribedSignedData := []\<rparr>;
          c = c\<lparr>subscribedTypes := []\<rparr>
      in c\<lparr>subscriptionRevision := subscriptionRevision c + 1\<rparr>)"

definition Stop :: "('h client \<Rightarrow> 'h client) \<Rightarrow> 'h client \<Rightarrow> go_error option \<times> 'h client" where
  "Stop wait c =
     (case session c of
        None \<Rightarrow> (Some (Error CLIENTErr ErrNotStarted (error_text ErrNotStarted) 3 0 None), c)
      | Some _ \<Rightarrow> (None, Stop_complete (wait (Stop_request c))))"


section \<open>Subscribe and Unsubscribe\<close>

definition max_addresses :: nat where "max_addresses = 251"

fun missing_address :: "(string, string) gomap \<Rightarrow> string list \<Rightarrow> bool" where
  "missing_address signedDatas [] = False"
| "missing_address signedDatas (a # as) =
     (if a = [] \<or> length a > 2048 \<or> gm_get_or [] signedDatas a = [] then True
      else missing_address signedDatas as)"

text \<open>The number of addresses there would be: \<open>seen\<close> avoids counting an address twice.\<close>

fun count_total :: "(string, bool) gomap \<Rightarrow> string list \<Rightarrow> nat \<Rightarrow> (string, bool) gomap \<Rightarrow> nat" where
  "count_total subscribed [] n seen = n"
| "count_total subscribed (a # as) n seen =
     (if \<not> gm_get_or False subscribed a \<and> \<not> gm_get_or False seen a
      then count_total subscribed as (n + 1) (gm_put a True seen)
      else count_total subscribed as n seen)"

fun merge_addresses :: "(string, string) gomap \<Rightarrow> string list \<Rightarrow> 'h client \<Rightarrow> 'h client" where
  "merge_addresses signedDatas [] c = c"
| "merge_addresses signedDatas (a # as) c =
     merge_addresses signedDatas as
       (c\<lparr>subscribedAddresses := gm_put a True (subscribedAddresses c),
          subscribedSignedData := gm_put a (gm_get_or [] signedDatas a) (subscribedSignedData c)\<rparr>)"

definition Subscribe ::
  "string list \<Rightarrow> (string, string) gomap \<Rightarrow> Type list \<Rightarrow> 'h client \<Rightarrow> go_error option \<times> 'h client" where
  "Subscribe addresses signedDatas txTypes c =
     (if length addresses = 0 \<or> length addresses > max_addresses
      then (Some (ErrorString ''invalid addresses count''), c)
      else if missing_address signedDatas addresses
      then (Some (ErrorString ''missing address or signature''), c)
      else if \<not> all_types_valid txTypes then (Some (ErrorString ''invalid tx type''), c)
      else (case session c of
         None \<Rightarrow> (Some ErrNotStarted, c)
       | Some s \<Rightarrow>
           (case ses_ctx_err s of
              Some e \<Rightarrow> (Some e, c)
            | None \<Rightarrow>
                if count_total (subscribedAddresses c) addresses (length (subscribedAddresses c)) []
                     > max_addresses
                then (Some (ErrorString ''too many subscribed addresses''), c)
                else
                  let c = merge_addresses signedDatas addresses c;
                      c = (if length txTypes > 0 then c\<lparr>subscribedTypes := txTypes\<rparr> else c);
                      c = c\<lparr>subscriptionRevision := subscriptionRevision c + 1\<rparr>
                  in (None, notifySubscriptionLocked c))))"

definition Unsubscribe :: "'h client \<Rightarrow> go_error option \<times> 'h client" where
  "Unsubscribe c =
     (case session c of
        None \<Rightarrow> (Some ErrNotStarted, c)
      | Some s \<Rightarrow>
          (case ses_ctx_err s of
             Some e \<Rightarrow> (Some e, c)
           | None \<Rightarrow>
               if length (subscribedAddresses c) = 0
               then (Some (ErrorString ''client has not yet subscribed''), c)
               else
                 let c = c\<lparr>subscribedAddresses := []\<rparr>;
                     c = c\<lparr>subscribedSignedData := []\<rparr>;
                     c = c\<lparr>subscribedTypes := []\<rparr>;
                     c = c\<lparr>subscriptionRevision := subscriptionRevision c + 1\<rparr>
                 in (None, notifySubscriptionLocked c)))"


section \<open>Sending the subscription\<close>

text \<open>
  The message for the current mode: in subscription mode the loop over the address map
  fills the address list (nil while it is empty) and the signature map.
\<close>

fun add_addresses :: "(string, string) gomap \<Rightarrow> string list \<Rightarrow> Message \<Rightarrow> Message" where
  "add_addresses sd [] msg = msg"
| "add_addresses sd (a # as) msg =
     add_addresses sd as
       (msg\<lparr>msg_Addrs := Some (slice_elems (msg_Addrs msg) @ [a]),
            msg_SignedAddrs := Some (gm_put a (gm_get_or [] sd a) (slice_elems (msg_SignedAddrs msg)))\<rparr>)"

definition sync_message :: "'h client \<Rightarrow> Message" where
  "sync_message c =
     (let msg = Message_zero\<lparr>msg_Type := SubscribeMessage, msg_SignedAddrs := Some [],
                  msg_TXTypes := (if subscribedTypes c = [] then None else Some (subscribedTypes c))\<rparr>;
          msg = (if mode c = Subscription
                 then add_addresses (subscribedSignedData c) (gm_keys (subscribedAddresses c))
                        (msg\<lparr>msg_ClientInstanceID := clientInstanceID c\<rparr>)
                 else msg);
          msg = (if mode c = Listen
                 then msg\<lparr>msg_Type := ListenMessage, msg_ClientInstanceID := clientInstanceID c\<rparr>
                 else msg)
      in msg\<lparr>msg_Addrs := map_option sort (msg_Addrs msg)\<rparr>)"

fun removed_addresses :: "Message \<Rightarrow> string list \<Rightarrow> string list option \<Rightarrow> string list option" where
  "removed_addresses msg [] removed = removed"
| "removed_addresses msg (a # as) removed =
     (if gm_get (slice_elems (msg_SignedAddrs msg)) a = None
      then removed_addresses msg as (Some (slice_elems removed @ [a]))
      else removed_addresses msg as removed)"

definition unsubscribe_message :: "string list option \<Rightarrow> Message" where
  "unsubscribe_message removed = Message_zero\<lparr>msg_Type := UnsubscribeMessage, msg_Addrs := removed\<rparr>"

text \<open>\<^verbatim>\<open>writeFrame\<close>: setting the deadline may fail, then writing may.\<close>

definition writeFrame :: "go_error option \<Rightarrow> (bytes \<Rightarrow> go_error option) \<Rightarrow> bytes \<Rightarrow> go_error option" where
  "writeFrame deadline write b = (case deadline of Some e \<Rightarrow> Some e | None \<Rightarrow> write b)"

text \<open>
  \<open>wr\<close> gives the outcome of writing a frame. The result is the messages that were
  written, and what the function returns: the addresses now subscribed, whether the
  connection listens, the revision that was read and the error.
\<close>

type_synonym sync_result = "Message list \<times> (string list option \<times> bool \<times> uint64 \<times> go_error option)"

definition syncSubscription ::
  "(bytes \<Rightarrow> go_error option) \<Rightarrow> 'h client \<Rightarrow> string list option \<Rightarrow> bool \<Rightarrow> sync_result" where
  "syncSubscription wr c previous wasListening =
     (let revision = subscriptionRevision c;
          listening = (mode c = Listen);
          msg = sync_message c;
          removed = removed_addresses msg (slice_elems previous) None;
          unsub = unsubscribe_message removed;
          needUnsub = (slice_len removed > 0 \<or> wasListening \<and> \<not> listening);
          sent = (if needUnsub then [unsub] else [])
      in case (if needUnsub then wr (marshal_Message unsub) else None) of
           Some e \<Rightarrow> ([], (None, wasListening, revision, Some e))
         | None \<Rightarrow>
             if slice_len (msg_Addrs msg) > 0 \<or> listening
             then (case wr (marshal_Message msg) of
                     Some e \<Rightarrow> (sent, (None, wasListening, revision, Some e))
                   | None \<Rightarrow> (sent @ [msg], (msg_Addrs msg, listening, revision, None)))
             else (sent, (msg_Addrs msg, listening, revision, None)))"


section \<open>The client invariant\<close>

text \<open>
  What every operation keeps: the address map and the signature map have the same keys, all
  addresses are marked, there are at most 251 of them, each is non-empty, at most 2048 bytes
  long and signed; the filter holds valid types; a stopped client has no subscription; at
  most 16 callback slots are taken.
\<close>

definition subs_inv :: "'h client \<Rightarrow> bool" where
  "subs_inv c \<longleftrightarrow>
     gm_wf (subscribedAddresses c) \<and> gm_wf (subscribedSignedData c) \<and>
     dom (gm_get (subscribedAddresses c)) = dom (gm_get (subscribedSignedData c)) \<and>
     ran (gm_get (subscribedAddresses c)) \<subseteq> {True} \<and>
     length (subscribedAddresses c) \<le> max_addresses \<and>
     (\<forall>a s. gm_get (subscribedSignedData c) a = Some s \<longrightarrow> a \<noteq> [] \<and> length a \<le> 2048 \<and> s \<noteq> []) \<and>
     (\<forall>t \<in> set (subscribedTypes c). Type_IsValid t)"

definition client_inv :: "'h client \<Rightarrow> bool" where
  "client_inv c \<longleftrightarrow> subs_inv c \<and>
     (session c = None \<longrightarrow> subscribedAddresses c = [] \<and> subscribedSignedData c = [] \<and> subscribedTypes c = []) \<and>
     callbackSlots c \<le> callback_capacity"


section \<open>Lemmas\<close>

lemma missing_address_iff:
  "missing_address sd as \<longleftrightarrow> (\<exists>a \<in> set as. a = [] \<or> length a > 2048 \<or> gm_get_or [] sd a = [])"
  by (induction as) auto

lemma merge_addresses_eq:
  "merge_addresses sd as c =
     c\<lparr>subscribedAddresses := fold (\<lambda>a. gm_put a True) as (subscribedAddresses c),
       subscribedSignedData := fold (\<lambda>a. gm_put a (gm_get_or [] sd a)) as (subscribedSignedData c)\<rparr>"
  by (induction as arbitrary: c) simp_all

lemma gm_get_or_False_iff:
  assumes "ran (gm_get m) \<subseteq> {True}"
  shows "gm_get_or False m a \<longleftrightarrow> a \<in> dom (gm_get m)"
  using assms by (auto simp: gm_get_or_def ran_def split: option.splits)

text \<open>The counting loop computes the size of the union.\<close>

lemma count_total_eq:
  assumes "ran (gm_get m) \<subseteq> {True}" "ran (gm_get seen) \<subseteq> {True}"
    and "n = card (dom (gm_get m) \<union> dom (gm_get seen))"
  shows "count_total m as n seen = card (dom (gm_get m) \<union> dom (gm_get seen) \<union> set as)"
  using assms
proof (induction as arbitrary: n seen)
  case Nil
  then show ?case by simp
next
  case (Cons a as)
  note known = gm_get_or_False_iff [OF Cons.prems(1), of a] gm_get_or_False_iff [OF Cons.prems(2), of a]
  show ?case
  proof (cases "a \<in> dom (gm_get m) \<union> dom (gm_get seen)")
    case True
    then have "insert a (dom (gm_get m) \<union> dom (gm_get seen) \<union> set as) =
      dom (gm_get m) \<union> dom (gm_get seen) \<union> set as" by auto
    with True Cons known show ?thesis by auto
  next
    case False
    have ran: "ran (gm_get (gm_put a True seen)) \<subseteq> {True}"
      using Cons.prems(2) by (auto simp: gm.lookup_put ran_def split: if_splits)
    have "n + 1 = card (dom (gm_get m) \<union> dom (gm_get (gm_put a True seen)))"
      using False Cons.prems(3) by (simp only: gm.dom_put) (simp add: gm.finite_dom)
    from Cons.IH [OF Cons.prems(1) ran this, unfolded gm.dom_put] False known show ?thesis
      by simp
  qed
qed

lemma subs_inv_len:
  "subs_inv c \<Longrightarrow> length (subscribedAddresses c) = card (dom (gm_get (subscribedAddresses c)))"
  by (simp add: subs_inv_def gm.len_card)

lemma Subscribe_count:
  assumes "subs_inv c"
  shows "count_total (subscribedAddresses c) as (length (subscribedAddresses c)) [] =
    card (dom (gm_get (subscribedAddresses c)) \<union> set as)"
  using count_total_eq [of "subscribedAddresses c" "[]" "length (subscribedAddresses c)" as]
    assms subs_inv_len [OF assms]
  by (simp add: subs_inv_def)

lemma session_notify [simp]:
  "session (notifySubscriptionLocked c) = map_option (\<lambda>s. s\<lparr>ses_subscriptions := True\<rparr>) (session c)"
  "subscribedAddresses (notifySubscriptionLocked c) = subscribedAddresses c"
  "subscribedSignedData (notifySubscriptionLocked c) = subscribedSignedData c"
  "subscribedTypes (notifySubscriptionLocked c) = subscribedTypes c"
  "subscriptionRevision (notifySubscriptionLocked c) = subscriptionRevision c"
  "callbackSlots (notifySubscriptionLocked c) = callbackSlots c"
  "mode (notifySubscriptionLocked c) = mode c"
  by (simp_all add: notifySubscriptionLocked_def split: option.splits)

text \<open>Under the invariant the guards of \<^verbatim>\<open>Subscribe\<close>, in their order, in terms of sets.\<close>

definition Subscribe_ok :: "string list \<Rightarrow> (string, string) gomap \<Rightarrow> Type list \<Rightarrow> 'h client \<Rightarrow> bool" where
  "Subscribe_ok as sd ts c \<longleftrightarrow>
     1 \<le> length as \<and> length as \<le> max_addresses \<and>
     (\<forall>a \<in> set as. a \<noteq> [] \<and> length a \<le> 2048 \<and> gm_get_or [] sd a \<noteq> []) \<and>
     (\<forall>t \<in> set ts. Type_IsValid t) \<and>
     (\<exists>s. session c = Some s \<and> ses_ctx_err s = None) \<and>
     card (dom (gm_get (subscribedAddresses c)) \<union> set as) \<le> max_addresses"

definition Subscribe_update :: "string list \<Rightarrow> (string, string) gomap \<Rightarrow> Type list \<Rightarrow> 'h client \<Rightarrow> 'h client" where
  "Subscribe_update as sd ts c = notifySubscriptionLocked
     (c\<lparr>subscribedAddresses := fold (\<lambda>a. gm_put a True) as (subscribedAddresses c),
        subscribedSignedData := fold (\<lambda>a. gm_put a (gm_get_or [] sd a)) as (subscribedSignedData c),
        subscribedTypes := (if ts = [] then subscribedTypes c else ts),
        subscriptionRevision := subscriptionRevision c + 1\<rparr>)"

lemma Subscribe_cases:
  assumes "subs_inv c"
  shows "if Subscribe_ok as sd ts c then Subscribe as sd ts c = (None, Subscribe_update as sd ts c)
         else \<exists>e. Subscribe as sd ts c = (Some e, c)"
proof -
  note count = Subscribe_count [OF assms, of as]
  show ?thesis
    by (auto simp: Subscribe_ok_def Subscribe_def Subscribe_update_def count missing_address_iff
        all_types_valid_iff merge_addresses_eq Let_def not_less Suc_le_eq not_le
        split: option.splits)
qed


lemma Subscribe_update_maps:
  shows "gm_get (subscribedAddresses (Subscribe_update as sd ts c)) a =
      (if a \<in> set as then Some True else gm_get (subscribedAddresses c) a)"
    and "gm_get (subscribedSignedData (Subscribe_update as sd ts c)) a =
      (if a \<in> set as then Some (gm_get_or [] sd a) else gm_get (subscribedSignedData c) a)"
    and "dom (gm_get (subscribedAddresses (Subscribe_update as sd ts c))) =
      dom (gm_get (subscribedAddresses c)) \<union> set as"
  by (simp add: Subscribe_update_def gm.lookup_put_all, simp add: Subscribe_update_def gm.lookup_put_all,
      simp add: Subscribe_update_def gm.dom_put_all)

lemma subs_inv_Subscribe_update:
  assumes "subs_inv c" "Subscribe_ok as sd ts c"
  shows "subs_inv (Subscribe_update as sd ts c)"
proof -
  have "gm_wf (subscribedAddresses (Subscribe_update as sd ts c))"
    and "gm_wf (subscribedSignedData (Subscribe_update as sd ts c))"
    using assms(1) by (simp_all add: Subscribe_update_def subs_inv_def gm.wf_put_all)
  moreover have "dom (gm_get (subscribedAddresses (Subscribe_update as sd ts c))) =
      dom (gm_get (subscribedSignedData (Subscribe_update as sd ts c)))"
    using assms(1) by (simp add: Subscribe_update_def subs_inv_def gm.dom_put_all)
  moreover have "ran (gm_get (subscribedAddresses (Subscribe_update as sd ts c))) \<subseteq> {True}"
    using assms(1) by (auto simp: ran_def Subscribe_update_maps subs_inv_def split: if_splits)
  moreover have "length (subscribedAddresses (Subscribe_update as sd ts c)) \<le> max_addresses"
    using assms by (simp add: Subscribe_update_def subs_inv_def Subscribe_ok_def gm.len_put_all)
  moreover have "a \<noteq> [] \<and> length a \<le> 2048 \<and> s \<noteq> []"
    if "gm_get (subscribedSignedData (Subscribe_update as sd ts c)) a = Some s" for a s
    using that assms by (auto simp: Subscribe_update_maps subs_inv_def Subscribe_ok_def split: if_splits)
  moreover have "\<forall>t \<in> set (subscribedTypes (Subscribe_update as sd ts c)). Type_IsValid t"
    using assms by (simp add: Subscribe_update_def subs_inv_def Subscribe_ok_def)
  ultimately show ?thesis unfolding subs_inv_def by blast
qed

text \<open>
  \<open>client_inv\<close> only looks at the subscription, the slots and whether there is a session;
  an operation that keeps these keeps the invariant.
\<close>

lemma client_inv_cong:
  assumes "client_inv c"
    and "subscribedAddresses d = subscribedAddresses c" "subscribedSignedData d = subscribedSignedData c"
    and "subscribedTypes d = subscribedTypes c" "callbackSlots d = callbackSlots c"
    and "session d = None \<Longrightarrow> session c = None"
  shows "client_inv d"
  using assms by (auto simp: client_inv_def subs_inv_def)

lemma client_inv_Subscribe:
  assumes "client_inv c"
  shows "client_inv (snd (Subscribe as sd ts c))"
proof (cases "Subscribe_ok as sd ts c")
  case True
  have "subs_inv c" using assms by (simp add: client_inv_def)
  moreover from this True have "Subscribe as sd ts c = (None, Subscribe_update as sd ts c)"
    using Subscribe_cases by (metis (full_types))
  moreover have "session (Subscribe_update as sd ts c) \<noteq> None"
    using True by (auto simp: Subscribe_ok_def Subscribe_update_def)
  moreover have "callbackSlots (Subscribe_update as sd ts c) = callbackSlots c"
    by (simp add: Subscribe_update_def)
  ultimately show ?thesis
    using True assms by (auto simp: client_inv_def subs_inv_Subscribe_update)
next
  case False
  then obtain e where "Subscribe as sd ts c = (Some e, c)"
    using Subscribe_cases [of c as sd ts] assms by (auto simp: client_inv_def)
  with assms show ?thesis by simp
qed

lemma subs_inv_empty:
  "subscribedAddresses c = [] \<Longrightarrow> subscribedSignedData c = [] \<Longrightarrow> subscribedTypes c = [] \<Longrightarrow> subs_inv c"
  by (simp add: subs_inv_def max_addresses_def)

lemma client_inv_Unsubscribe: "client_inv c \<Longrightarrow> client_inv (snd (Unsubscribe c))"
  by (auto simp: Unsubscribe_def client_inv_def subs_inv_empty Let_def split: option.splits)

lemma client_inv_Start: "client_inv c \<Longrightarrow> client_inv (snd (Start c))"
  by (auto simp: Start_def split: option.splits elim!: client_inv_cong)

lemma client_inv_Stop_request: "client_inv c \<Longrightarrow> client_inv (Stop_request c)"
  by (auto simp: Stop_request_def split: option.splits elim!: client_inv_cong)

lemma client_inv_Stop_complete: "client_inv c \<Longrightarrow> client_inv (Stop_complete c)"
  by (simp add: Stop_complete_def client_inv_def subs_inv_empty Let_def)

lemma client_inv_config:
  assumes "client_inv c"
  shows "client_inv (WithMode m c)" "client_inv (WithProxy p c)" "client_inv (WithLogger l c)"
    "client_inv (SetVerbose v c)" "client_inv (SetListenCallback f c)"
    "client_inv (AddListenCallback f c)" "client_inv (AddRetrieveCallback f c)"
    "client_inv (AddErrorCallback f c)" "client_inv (AddHeader H k w c)"
    "client_inv (RemoveHeader H k c)" "client_inv (AddWSHeader H k w c)"
    "client_inv (RemoveWSHeader H k c)" "client_inv (snd (WithWSAuthority a sg c))"
  using assms
  by (auto simp: client_defs Let_def split: option.splits elim!: client_inv_cong)

lemmas client_inv_ops = client_inv_Subscribe client_inv_Unsubscribe client_inv_Start
  client_inv_Stop_request client_inv_Stop_complete client_inv_config


text \<open>The addresses a connection should have, in the order in which they are sent.\<close>

definition desired :: "'h client \<Rightarrow> string list" where
  "desired c = (if mode c = Subscription then sort (gm_keys (subscribedAddresses c)) else [])"

lemma add_addresses_fields:
  "slice_elems (msg_Addrs (add_addresses sd as msg)) = slice_elems (msg_Addrs msg) @ as"
  "slice_elems (msg_SignedAddrs (add_addresses sd as msg)) =
     fold (\<lambda>a. gm_put a (gm_get_or [] sd a)) as (slice_elems (msg_SignedAddrs msg))"
  "msg_Addrs (add_addresses sd as msg) = None \<longleftrightarrow> msg_Addrs msg = None \<and> as = []"
  "msg_SignedAddrs msg \<noteq> None \<Longrightarrow> msg_SignedAddrs (add_addresses sd as msg) \<noteq> None"
  "msg_Type (add_addresses sd as msg) = msg_Type msg"
  "msg_ClientInstanceID (add_addresses sd as msg) = msg_ClientInstanceID msg"
  "msg_IsWeb (add_addresses sd as msg) = msg_IsWeb msg"
  "msg_TXTypes (add_addresses sd as msg) = msg_TXTypes msg"
  "msg_Data (add_addresses sd as msg) = msg_Data msg"
  by (induction as arbitrary: msg) auto

lemma slice_elems_sort: "slice_elems (map_option sort x) = sort (slice_elems x)"
  by (simp add: slice_elems_def split: option.split)

lemma sync_message_Addrs: "slice_elems (msg_Addrs (sync_message c)) = desired c"
  by (cases "mode c") (simp_all add: sync_message_def desired_def Let_def slice_elems_sort
      add_addresses_fields, simp_all add: slice_elems_def Message_zero_def)

lemma sync_message_SignedAddrs:
  "slice_elems (msg_SignedAddrs (sync_message c)) =
     (if mode c = Subscription
      then fold (\<lambda>a. gm_put a (gm_get_or [] (subscribedSignedData c) a)) (gm_keys (subscribedAddresses c)) []
      else [])"
  by (cases "mode c") (simp_all add: sync_message_def Let_def add_addresses_fields)

lemma sync_message_signed_dom:
  "gm_get (slice_elems (msg_SignedAddrs (sync_message c))) a = None \<longleftrightarrow> a \<notin> set (desired c)"
  by (simp add: sync_message_SignedAddrs desired_def gm.lookup_put_all)

lemma sync_message_Type:
  "msg_Type (sync_message c) = (if mode c = Listen then ListenMessage else SubscribeMessage)"
  by (cases "mode c") (simp_all add: sync_message_def Let_def add_addresses_fields)

lemma removed_addresses_eq:
  "slice_elems (removed_addresses (sync_message c) as r) =
     slice_elems r @ filter (\<lambda>a. a \<notin> set (desired c)) as"
  by (induction as arbitrary: r) (auto simp: sync_message_signed_dom)

text \<open>What a synchronisation sends and returns when no write fails.\<close>

definition removed_list :: "'h client \<Rightarrow> string list option \<Rightarrow> string list" where
  "removed_list c previous = filter (\<lambda>a. a \<notin> set (desired c)) (slice_elems previous)"

lemma syncSubscription_ok:
  assumes "\<And>b. wr b = None"
  shows "syncSubscription wr c previous wasListening =
    ((if removed_list c previous \<noteq> [] \<or> wasListening \<and> mode c \<noteq> Listen
      then [unsubscribe_message (removed_addresses (sync_message c) (slice_elems previous) None)] else []) @
     (if desired c \<noteq> [] \<or> mode c = Listen then [sync_message c] else []),
     (msg_Addrs (sync_message c), mode c = Listen, subscriptionRevision c, None))"
  using removed_addresses_eq [of c "slice_elems previous" None]
  by (simp add: syncSubscription_def Let_def assms slice_len_elems sync_message_Addrs removed_list_def)


section \<open>What the read node sees\<close>

text \<open>
  The peer's view of one connection, as an abstract specification: the addresses it delivers,
  each with the signature it came with, the type filter and the instance id of the client,
  and whether the connection listens to everything. A subscribe message adds addresses, an
  unsubscribe message removes its addresses and ends listening, a listen message starts it; a
  subscribe or listen message brings the filter and the instance id, which a connection that
  has nothing to deliver forgets.
\<close>

record peer =
  peer_sigs :: "string \<rightharpoonup> string"
  peer_types :: "Type list"
  peer_instance :: string
  peer_listen :: bool

definition peer_none :: peer where
  "peer_none = \<lparr>peer_sigs = Map.empty, peer_types = [], peer_instance = [], peer_listen = False\<rparr>"

definition peer_addrs :: "peer \<Rightarrow> string set" where
  "peer_addrs p = dom (peer_sigs p)"

definition peer_settle :: "peer \<Rightarrow> peer" where
  "peer_settle p = (if peer_addrs p = {} \<and> \<not> peer_listen p then peer_none else p)"

definition peer_message :: "Message \<Rightarrow> peer \<Rightarrow> peer" where
  "peer_message m p =
     (let as = slice_elems (msg_Addrs m) in
      if msg_Type m = SubscribeMessage then
        p\<lparr>peer_sigs := (\<lambda>a. if a \<in> set as then Some (gm_get_or [] (slice_elems (msg_SignedAddrs m)) a) else peer_sigs p a),
          peer_types := slice_elems (msg_TXTypes m), peer_instance := msg_ClientInstanceID m\<rparr>
      else if msg_Type m = UnsubscribeMessage then
        p\<lparr>peer_sigs := (\<lambda>a. if a \<in> set as then None else peer_sigs p a), peer_listen := False\<rparr>
      else if msg_Type m = ListenMessage then
        p\<lparr>peer_types := slice_elems (msg_TXTypes m), peer_instance := msg_ClientInstanceID m, peer_listen := True\<rparr>
      else p)"

definition peer_apply :: "Message \<Rightarrow> peer \<Rightarrow> peer" where
  "peer_apply m p = peer_settle (peer_message m p)"

text \<open>What the peer should have of a client: nothing, or what the client has stored.\<close>

definition signature_of :: "'h client \<Rightarrow> string \<Rightarrow> string" where
  "signature_of c a = gm_get_or [] (subscribedSignedData c) a"

definition peer_wanted :: "'h client \<Rightarrow> peer" where
  "peer_wanted c =
     (if desired c = [] \<and> mode c \<noteq> Listen then peer_none
      else \<lparr>peer_sigs = (\<lambda>a. if a \<in> set (desired c) then Some (signature_of c a) else None),
        peer_types = subscribedTypes c, peer_instance = clientInstanceID c, peer_listen = (mode c = Listen)\<rparr>)"

lemma peer_wanted_fields:
  "peer_addrs (peer_wanted c) = set (desired c)" "peer_listen (peer_wanted c) = (mode c = Listen)"
  "peer_settle (peer_wanted c) = peer_wanted c"
proof -
  have "dom (\<lambda>a. if a \<in> S then Some (f a) else None) = S" for S :: "string set" and f :: "string \<Rightarrow> string"
    by (auto split: if_splits)
  then show addrs: "peer_addrs (peer_wanted c) = set (desired c)"
    by (simp add: peer_wanted_def peer_addrs_def peer_none_def)
  show listen: "peer_listen (peer_wanted c) = (mode c = Listen)"
    by (simp add: peer_wanted_def peer_none_def)
  show "peer_settle (peer_wanted c) = peer_wanted c"
    by (simp add: peer_settle_def addrs listen) (simp add: peer_wanted_def)
qed

lemma peer_wanted_sigs:
  assumes "subs_inv c" "mode c = Subscription"
  shows "peer_sigs (peer_wanted c) = gm_get (subscribedSignedData c)"
proof -
  have "set (desired c) = dom (gm_get (subscribedSignedData c))"
    using assms set_gm_keys [of "subscribedAddresses c"] by (simp add: desired_def subs_inv_def)
  then show ?thesis
    by (auto simp: fun_eq_iff peer_wanted_def peer_none_def signature_of_def gm_get_or_def dom_def
        split: option.splits)
qed

lemma peer_wanted_filter:
  "desired c \<noteq> [] \<Longrightarrow> peer_types (peer_wanted c) = subscribedTypes c \<and> peer_instance (peer_wanted c) = clientInstanceID c"
  by (simp add: peer_wanted_def)

lemma sync_message_fields:
  "slice_elems (msg_TXTypes (sync_message c)) = subscribedTypes c"
  "mode c \<noteq> Push \<Longrightarrow> msg_ClientInstanceID (sync_message c) = clientInstanceID c"
  "msg_ClientInstanceID (sync_message c) \<in> {[], clientInstanceID c}"
  by (cases "mode c"; simp add: sync_message_def Let_def add_addresses_fields Message_zero_def)+

lemma sync_message_signature:
  "a \<in> set (desired c) \<Longrightarrow> gm_get_or [] (slice_elems (msg_SignedAddrs (sync_message c))) a = signature_of c a"
  unfolding gm_get_or_def signature_of_def sync_message_SignedAddrs
  by (simp add: gm.lookup_put_all desired_def split: if_splits)

lemma peer_apply_unsubscribe:
  "peer_apply (unsubscribe_message r) p =
     peer_settle (p\<lparr>peer_sigs := (\<lambda>a. if a \<in> set (slice_elems r) then None else peer_sigs p a), peer_listen := False\<rparr>)"
  by (simp add: peer_apply_def peer_message_def unsubscribe_message_def message_type_defs)

lemma peer_apply_sync:
  "mode c = Listen \<Longrightarrow> peer_apply (sync_message c) p =
     p\<lparr>peer_types := subscribedTypes c, peer_instance := clientInstanceID c, peer_listen := True\<rparr>"
  "desired c \<noteq> [] \<Longrightarrow> peer_apply (sync_message c) p =
     p\<lparr>peer_sigs := (\<lambda>a. if a \<in> set (desired c) then Some (signature_of c a) else peer_sigs p a),
       peer_types := subscribedTypes c, peer_instance := clientInstanceID c\<rparr>"
proof -
  show "peer_apply (sync_message c) p =
      p\<lparr>peer_types := subscribedTypes c, peer_instance := clientInstanceID c, peer_listen := True\<rparr>"
    if "mode c = Listen"
    using that by (simp add: peer_apply_def peer_message_def peer_settle_def sync_message_Type sync_message_fields
        message_type_defs)
  assume d: "desired c \<noteq> []"
  then have m: "mode c = Subscription" by (auto simp: desired_def split: if_splits)
  let ?q = "p\<lparr>peer_sigs := (\<lambda>a. if a \<in> set (desired c) then Some (signature_of c a) else peer_sigs p a),
       peer_types := subscribedTypes c, peer_instance := clientInstanceID c\<rparr>"
  have "peer_message (sync_message c) p = ?q"
    using m by (auto simp: peer_message_def sync_message_Type sync_message_fields sync_message_Addrs
        sync_message_signature fun_eq_iff)
  moreover have "hd (desired c) \<in> peer_addrs ?q" using d by (simp add: peer_addrs_def dom_def)
  then have "peer_addrs ?q \<noteq> {}" by blast
  ultimately show "peer_apply (sync_message c) p = ?q" by (simp add: peer_apply_def peer_settle_def)
qed

lemma sync_refines_peer:
  assumes "\<And>b. wr b = None" "peer_addrs p = set (slice_elems previous)" "peer_listen p = wasListening"
    and "peer_settle p = p"
  shows "fold peer_apply (fst (syncSubscription wr c previous wasListening)) p = peer_wanted c"
proof -
  let ?out = "fst (syncSubscription wr c previous wasListening)"
  let ?q = "if removed_list c previous \<noteq> [] \<or> wasListening \<and> mode c \<noteq> Listen
    then peer_settle (p\<lparr>peer_sigs := (\<lambda>a. if a \<in> set (removed_list c previous) then None else peer_sigs p a), peer_listen := False\<rparr>)
    else p"
  have l: "mode c = Listen \<Longrightarrow> desired c = []" by (simp add: desired_def)
  have "set (slice_elems (removed_addresses (sync_message c) (slice_elems previous) None)) = set (removed_list c previous)"
    by (simp add: removed_addresses_eq removed_list_def)
  then have out: "fold peer_apply ?out p = (if desired c \<noteq> [] \<or> mode c = Listen then peer_apply (sync_message c) ?q else ?q)"
    by (simp add: syncSubscription_ok [OF assms(1)] peer_apply_unsubscribe)
  have none: "peer_sigs p a = None" if "a \<notin> set (slice_elems previous)" for a
    using assms(2) that by (auto simp: peer_addrs_def)
  have sigs: "peer_sigs ?q a = None" if "a \<notin> set (desired c)" for a
    using none that by (auto simp: peer_settle_def peer_none_def removed_list_def filter_empty_conv)
  have listen: "peer_listen ?q = (wasListening \<and> mode c = Listen \<and> removed_list c previous = [])"
    using assms(3) by (auto simp: peer_settle_def peer_none_def)
  have settled: "peer_settle ?q = ?q" using assms(4) by (auto simp: peer_settle_def peer_none_def peer_addrs_def)
  consider (listen) "mode c = Listen" | (subs) "desired c \<noteq> []" "mode c \<noteq> Listen" | (idle) "desired c = []" "mode c \<noteq> Listen"
    by blast
  then show ?thesis
  proof cases
    case listen
    then show ?thesis unfolding out using sigs l
      by (auto simp: peer_apply_sync peer_wanted_def fun_eq_iff intro!: peer.equality)
  next
    case subs
    then show ?thesis unfolding out using sigs listen
      by (auto simp: peer_apply_sync peer_wanted_def fun_eq_iff intro!: peer.equality)
  next
    case idle
    then have "peer_addrs ?q = {}" "\<not> peer_listen ?q" using sigs listen by (auto simp: peer_addrs_def)
    then have "?q = peer_none" using settled by (simp add: peer_settle_def split: if_splits)
    then show ?thesis unfolding out using idle by (simp add: peer_wanted_def)
  qed
qed


text \<open>The message in closed form.\<close>

lemma msg_Addrs_sync:
  "msg_Addrs (sync_message c) =
     (if mode c = Subscription \<and> subscribedAddresses c \<noteq> [] then Some (desired c) else None)"
  using sync_message_Addrs [of c]
  by (cases "msg_Addrs (sync_message c)")
    (auto simp: sync_message_def Let_def add_addresses_fields Message_zero_def split: if_splits)

lemma msg_SignedAddrs_sync:
  assumes "gm_wf (subscribedAddresses c)"
  shows "msg_SignedAddrs (sync_message c) = Some (if mode c = Subscription
    then map (\<lambda>a. (a, gm_get_or [] (subscribedSignedData c) a)) (gm_keys (subscribedAddresses c)) else [])"
proof -
  have "msg_SignedAddrs (sync_message c) \<noteq> None"
    by (cases "mode c") (simp_all add: sync_message_def Let_def add_addresses_fields)
  then have "msg_SignedAddrs (sync_message c) = Some (slice_elems (msg_SignedAddrs (sync_message c)))"
    by auto
  then show ?thesis
    using assms fold_gm_put_fresh [of "gm_keys (subscribedAddresses c)" "[]"
        "\<lambda>a. gm_get_or [] (subscribedSignedData c) a"]
    by (simp add: sync_message_SignedAddrs gm_wf_def)
qed

text \<open>The frame does not depend on the order in which Go iterates over the maps.\<close>

lemma sync_message_order:
  assumes wf: "gm_wf (subscribedAddresses c)"
    and perm: "mset (subscribedAddresses d) = mset (subscribedAddresses c)"
    and same: "gm_get (subscribedSignedData d) = gm_get (subscribedSignedData c)"
      "mode d = mode c" "clientInstanceID d = clientInstanceID c" "subscribedTypes d = subscribedTypes c"
  shows "desired d = desired c" (is ?des)
    and "msg_Addrs (sync_message d) = msg_Addrs (sync_message c)" (is ?addrs)
    and "marshal_Message (sync_message d) = marshal_Message (sync_message c)" (is ?frame)
proof -
  let ?kc = "gm_keys (subscribedAddresses c)" and ?kd = "gm_keys (subscribedAddresses d)"
  have keys: "mset ?kd = mset ?kc" using perm by (metis mset_map)
  have wfd: "gm_wf (subscribedAddresses d)"
    using wf keys by (metis gm_wf_def mset_eq_imp_distinct_iff)
  show ?des
    using sorted_distinct_mset_unique [OF keys] same(2) by (simp add: desired_def)
  moreover have "subscribedAddresses d = [] \<longleftrightarrow> subscribedAddresses c = []"
    using perm by (metis mset_zero_iff)
  ultimately show ?addrs using same(2) by (simp add: msg_Addrs_sync)
  let ?f = "\<lambda>a. (a, gm_get_or [] (subscribedSignedData c) a)"
  have "gm_get_or [] (subscribedSignedData d) = gm_get_or [] (subscribedSignedData c)"
    using same(1) by (simp add: gm_get_or_def fun_eq_iff)
  moreover have "gm_wf (map ?f ?kd)"
    using wfd by (simp add: gm_wf_def comp_def)
  moreover have "mset (map ?f ?kd) = mset (map ?f ?kc)" using keys by (metis mset_map)
  ultimately have "j_string_map (msg_SignedAddrs (sync_message d)) =
      j_string_map (msg_SignedAddrs (sync_message c))"
    using same(2) j_string_map_order [of "map ?f ?kd" "map ?f ?kc"]
    by (simp add: msg_SignedAddrs_sync [OF wf] msg_SignedAddrs_sync [OF wfd])
  moreover have "msg_ClientInstanceID (sync_message d) = msg_ClientInstanceID (sync_message c)"
    "msg_IsWeb (sync_message d) = msg_IsWeb (sync_message c)"
    "msg_Type (sync_message d) = msg_Type (sync_message c)"
    "msg_TXTypes (sync_message d) = msg_TXTypes (sync_message c)"
    "msg_Data (sync_message d) = msg_Data (sync_message c)"
    using same by (simp_all add: sync_message_def Let_def add_addresses_fields)
  ultimately show ?frame using \<open>?addrs\<close> by (simp add: marshal_Message_def json_of_Message_def)
qed

lemma removed_addresses_order:
  assumes "desired d = desired c"
  shows "removed_addresses (sync_message d) as r = removed_addresses (sync_message c) as r"
  by (induction as arbitrary: r) (simp_all add: sync_message_signed_dom assms)


section \<open>Properties\<close>

text \<open>
  C9. Under the subscription invariant, \<^verbatim>\<open>Subscribe\<close> succeeds exactly when there are 1 to
  251 addresses, each non-empty, at most 2048 bytes and signed, all types are valid, the
  session is live and the union with the existing addresses has at most 251 elements (an
  address listed twice, or already subscribed, counts once). On success the addresses are
  merged, signatures of listed addresses are replaced, a non-empty type list replaces the
  filter, the revision moves on and the session is notified; on failure nothing changes.
\<close>

theorem Subscribe_behaviour:
  assumes "subs_inv c"
  shows "(fst (Subscribe as sd ts c) = None \<longleftrightarrow> Subscribe_ok as sd ts c) \<and>
    (fst (Subscribe as sd ts c) \<noteq> None \<longrightarrow> snd (Subscribe as sd ts c) = c) \<and>
    (fst (Subscribe as sd ts c) = None \<longrightarrow>
      (\<forall>a. gm_get (subscribedAddresses (snd (Subscribe as sd ts c))) a =
             (if a \<in> set as then Some True else gm_get (subscribedAddresses c) a) \<and>
           gm_get (subscribedSignedData (snd (Subscribe as sd ts c))) a =
             (if a \<in> set as then Some (gm_get_or [] sd a) else gm_get (subscribedSignedData c) a)) \<and>
      subscribedTypes (snd (Subscribe as sd ts c)) = (if ts = [] then subscribedTypes c else ts) \<and>
      subscriptionRevision (snd (Subscribe as sd ts c)) = subscriptionRevision c + 1 \<and>
      length (subscribedAddresses (snd (Subscribe as sd ts c))) \<le> max_addresses \<and>
      map_option ses_subscriptions (session (snd (Subscribe as sd ts c))) = Some True)"
proof (cases "Subscribe_ok as sd ts c")
  case True
  then have eq: "Subscribe as sd ts c = (None, Subscribe_update as sd ts c)"
    using Subscribe_cases [OF assms, of as sd ts] by simp
  have "length (subscribedAddresses (Subscribe_update as sd ts c)) \<le> max_addresses"
    using subs_inv_Subscribe_update [OF assms True] by (simp add: subs_inv_def)
  moreover have "map_option ses_subscriptions (session (Subscribe_update as sd ts c)) = Some True"
    using True by (auto simp: Subscribe_update_def Subscribe_ok_def)
  moreover have "subscribedTypes (Subscribe_update as sd ts c) = (if ts = [] then subscribedTypes c else ts)"
    "subscriptionRevision (Subscribe_update as sd ts c) = subscriptionRevision c + 1"
    by (simp_all add: Subscribe_update_def)
  ultimately show ?thesis using True eq by (simp add: Subscribe_update_maps)
next
  case False
  then obtain e where "Subscribe as sd ts c = (Some e, c)"
    using Subscribe_cases [OF assms, of as sd ts] by auto
  with False show ?thesis by simp
qed

theorem Subscribe_behaviour_witness:
  "\<exists>d. Subscribe [''a1'', ''a1''] [(''a1'', ''sig'')] [TypeTransfer] (snd (Start example_client)) = (None, d) \<and>
     subscriptionRevision d = 1 \<and> gm_get (subscribedSignedData d) ''a1'' = Some ''sig'' \<and>
     length (subscribedAddresses d) \<le> max_addresses"
proof -
  let ?c = "snd (Start example_client)"
  have inv: "subs_inv ?c" by (rule subs_inv_empty) (simp_all add: Start_def example_client_def)
  have "Subscribe_ok [''a1'', ''a1''] [(''a1'', ''sig'')] [TypeTransfer] ?c"
    by (simp add: Subscribe_ok_def max_addresses_def gm_get_or_def Start_def fresh_session_def
        example_client_def Type_IsValid_iff TypesSlice_def)
  moreover have "subscriptionRevision ?c = 0" by (simp add: Start_def example_client_def)
  ultimately show ?thesis
    using Subscribe_behaviour [OF inv, of "[''a1'', ''a1'']" "[(''a1'', ''sig'')]" "[TypeTransfer]"]
    by (cases "Subscribe [''a1'', ''a1''] [(''a1'', ''sig'')] [TypeTransfer] ?c")
      (simp add: gm_get_or_def)
qed

text \<open>
  C7. Synchronisation refines the peer's abstract view: if what the connection remembers
  (the addresses sent before and whether it listened) is what the peer has, then after the
  frames of one synchronisation the peer delivers exactly the addresses of the current
  desired subscription, each with the stored signature, under the current type filter and
  instance id, and listens exactly in listen mode, and the connection remembers that. This
  covers every change of mode and every mixture of added and removed addresses.
\<close>

theorem syncSubscription_refines_peer:
  assumes "\<And>b. wr b = None" "peer_addrs p = set (slice_elems previous)" "peer_listen p = wasListening"
    and "peer_settle p = p"
    and "syncSubscription wr c previous wasListening = (sent, previous', listening, revision, err)"
  shows "fold peer_apply sent p = peer_wanted c \<and> err = None \<and> revision = subscriptionRevision c \<and>
    peer_addrs (peer_wanted c) = set (slice_elems previous') \<and> peer_listen (peer_wanted c) = listening"
  using sync_refines_peer [where c = c, OF assms(1-4)] assms(5) sync_message_Addrs [of c]
    syncSubscription_ok [where c = c and previous = previous and wasListening = wasListening, OF assms(1)]
  by (auto simp: peer_wanted_fields)

theorem syncSubscription_refines_peer_witness:
  "fold peer_apply (fst (syncSubscription (\<lambda>_. None) (WithMode Listen example_client) (Some [''x'']) False))
     \<lparr>peer_sigs = [''x'' \<mapsto> ''s''], peer_types = [], peer_instance = [], peer_listen = False\<rparr> =
   \<lparr>peer_sigs = Map.empty, peer_types = [], peer_instance = clientInstanceID example_client, peer_listen = True\<rparr>"
proof -
  let ?p = "\<lparr>peer_sigs = [''x'' \<mapsto> ''s''], peer_types = [], peer_instance = [], peer_listen = False\<rparr>"
  obtain sent p l r e where s: "syncSubscription (\<lambda>_. None) (WithMode Listen example_client) (Some [''x'']) False =
      (sent, p, l, r, e)" by (metis prod.exhaust)
  have w: "peer_wanted (WithMode Listen example_client) =
      \<lparr>peer_sigs = Map.empty, peer_types = [], peer_instance = clientInstanceID example_client, peer_listen = True\<rparr>"
    by (simp add: peer_wanted_def desired_def WithMode_def Let_def example_client_def notifySubscriptionLocked_def)
  have "peer_addrs ?p = {''x''}" "peer_settle ?p = ?p"
    by (auto simp: peer_addrs_def peer_settle_def)
  then show ?thesis
    using syncSubscription_refines_peer [OF refl _ _ _ s, of ?p] s w by simp
qed

text \<open>
  C26. Go iterates over a map in an unspecified order; the bytes of the frames a
  synchronisation writes and everything it returns do not depend on it.
\<close>

theorem syncSubscription_map_order:
  assumes "gm_wf (subscribedAddresses c)" "mset m = mset (subscribedAddresses c)"
  shows "map marshal_Message (fst (syncSubscription wr (c\<lparr>subscribedAddresses := m\<rparr>) previous wasListening)) =
         map marshal_Message (fst (syncSubscription wr c previous wasListening)) \<and>
         snd (syncSubscription wr (c\<lparr>subscribedAddresses := m\<rparr>) previous wasListening) =
         snd (syncSubscription wr c previous wasListening)"
proof -
  let ?d = "c\<lparr>subscribedAddresses := m\<rparr>"
  note o = sync_message_order [OF assms(1), of ?d, simplified, OF assms(2)]
  show ?thesis
    by (auto simp: syncSubscription_def Let_def o removed_addresses_order [OF o(1)] split: option.split)
qed

theorem syncSubscription_map_order_witness:
  "map marshal_Message (fst (syncSubscription (\<lambda>_. None)
      (example_client\<lparr>subscribedAddresses := [(''b'', True), (''a'', True)]\<rparr>) None False)) =
   map marshal_Message (fst (syncSubscription (\<lambda>_. None)
      (example_client\<lparr>subscribedAddresses := [(''a'', True), (''b'', True)]\<rparr>) None False))"
  using syncSubscription_map_order [of "example_client\<lparr>subscribedAddresses := [(''a'', True), (''b'', True)]\<rparr>"
      "[(''b'', True), (''a'', True)]"]
  by (simp add: gm_wf_def)

end
