(* ===== verification/Send_Queue.thy ===== *)
theory Send_Queue
  imports Subscriptions
begin

text \<open>
  The send queue of a session: \<^verbatim>\<open>Write\<close> and \<^verbatim>\<open>WSQuery\<close>, the byte budget kept in
  the atomic counter \<^verbatim>\<open>queuedBytes\<close>, the consumer in \<^verbatim>\<open>serveConnection\<close> and the
  clean-up in the deferred function of \<^verbatim>\<open>runSession\<close>. \<open>Write\<close> is the method as one
  caller sees it; \<open>send_step\<close> is the same code cut at every access to shared state, with
  any number of concurrent writers, so that the budget is shown for every interleaving.
\<close>


section \<open>Write, as one caller sees it\<close>

text \<open>
  The \<^verbatim>\<open>select\<close> of \<^verbatim>\<open>Write\<close> takes a ready case: the context is cancelled with an
  error, the timer fires, or the channel has room.
\<close>

datatype select_case = SelDone go_error | SelTimer | SelSend

definition Write :: "select_case \<Rightarrow> bytes \<Rightarrow> 'h client \<Rightarrow> go_error option \<times> 'h client" where
  "Write sel b c =
     (if int (length b) > maxMessageSize then (Some (ErrorString ''websocket message too large''), c)
      else (case session c of
        None \<Rightarrow> (Some ErrNotStarted, c)
      | Some s \<Rightarrow>
          (case ses_ctx_err s of
             Some e \<Rightarrow> (Some e, c)
           | None \<Rightarrow>
               let size = int (length b); used = ses_queuedBytes s in
               if i64 (used + size) > maxMessageSize
               then (Some (ErrorString ''websocket send byte budget exceeded''), c)
               else
                 let s = s\<lparr>ses_queuedBytes := i64 (used + size)\<rparr>;
                     released = s\<lparr>ses_queuedBytes := i64 (ses_queuedBytes s - size)\<rparr>
                 in (case sel of
                       SelDone e \<Rightarrow> (Some e, c\<lparr>session := Some (released\<lparr>ses_ctx_err := Some e\<rparr>)\<rparr>)
                     | SelTimer \<Rightarrow> (Some (ErrorString ''websocket send queue full''), c\<lparr>session := Some released\<rparr>)
                     | SelSend \<Rightarrow> (None, c\<lparr>session := Some (s\<lparr>ses_send := ses_send s @ [b]\<rparr>)\<rparr>)))))"

definition WSQuery :: "select_case \<Rightarrow> string \<Rightarrow> bytes option \<Rightarrow> 'h client \<Rightarrow> go_error option \<times> 'h client" where
  "WSQuery sel typ data c =
     Write sel (marshal_Message (Message_zero\<lparr>msg_IsWeb := False, msg_Type := typ, msg_Data := data\<rparr>)) c"

text \<open>The clean-up loop: every queued buffer gives its bytes back.\<close>

fun drain :: "bytes list \<Rightarrow> int \<Rightarrow> int" where
  "drain [] q = q"
| "drain (b # bs) q = drain bs (i64 (q - int (length b)))"

text \<open>The deferred function of \<^verbatim>\<open>runSession\<close>: cancel, drain, close \<^verbatim>\<open>done\<close>.\<close>

definition session_cleanup :: "wsSession \<Rightarrow> wsSession" where
  "session_cleanup s =
     (let s = cancel_session s
      in s\<lparr>ses_queuedBytes := drain (ses_send s) (ses_queuedBytes s), ses_send := [], ses_done := True\<rparr>)"


section \<open>Write, step by step\<close>

text \<open>
  Where a writer is: before the call (with its buffer), inside with the read lock held
  (checked the size; passed the context check; loaded the counter; reserved its bytes and
  selecting), or returned.
\<close>

datatype writer =
    WIdle bytes
  | WLocked bytes
  | WLoad bytes
  | WCas bytes int
  | WSelect bytes
  | WReturned "go_error option"

fun holds_lock :: "writer \<Rightarrow> bool" where
  "holds_lock (WLocked _) = True"
| "holds_lock (WLoad _) = True"
| "holds_lock (WCas _ _) = True"
| "holds_lock (WSelect _) = True"
| "holds_lock _ = False"

fun reserved :: "writer \<Rightarrow> int" where
  "reserved (WSelect b) = int (length b)"
| "reserved _ = 0"

text \<open>
  The session with its writers. \<open>serving\<close> is the buffer that \<^verbatim>\<open>serveConnection\<close> has
  received and is writing, \<open>exiting\<close> is set once the session's goroutine has left its
  loop. The three histories record the buffers for which \<^verbatim>\<open>Write\<close> returned nil, those
  handed to the connection, and those dropped by the clean-up.
\<close>

record send_sys =
  sess :: wsSession
  writers :: "writer list"
  serving :: "bytes option"
  exiting :: bool
  accepted :: "bytes list"
  written :: "bytes list"
  dropped :: "bytes list"

abbreviation set_queued :: "int \<Rightarrow> send_sys \<Rightarrow> send_sys" where
  "set_queued q y \<equiv> y\<lparr>sess := (sess y)\<lparr>ses_queuedBytes := q\<rparr>\<rparr>"

abbreviation set_writer :: "nat \<Rightarrow> writer \<Rightarrow> send_sys \<Rightarrow> send_sys" where
  "set_writer i w y \<equiv> y\<lparr>writers := (writers y)[i := w]\<rparr>"

abbreviation writer_at :: "send_sys \<Rightarrow> nat \<Rightarrow> writer \<Rightarrow> bool" where
  "writer_at y i w \<equiv> i < length (writers y) \<and> writers y ! i = w"

inductive send_step :: "send_sys \<Rightarrow> send_sys \<Rightarrow> bool" where
  too_large: "writer_at y i (WIdle b) \<Longrightarrow> int (length b) > maxMessageSize \<Longrightarrow>
    send_step y (set_writer i (WReturned (Some (ErrorString ''websocket message too large''))) y)"
| lock: "writer_at y i (WIdle b) \<Longrightarrow> int (length b) \<le> maxMessageSize \<Longrightarrow>
    send_step y (set_writer i (WLocked b) y)"
| ctx_error: "writer_at y i (WLocked b) \<Longrightarrow> ses_ctx_err (sess y) = Some e \<Longrightarrow>
    send_step y (set_writer i (WReturned (Some e)) y)"
| ctx_live: "writer_at y i (WLocked b) \<Longrightarrow> ses_ctx_err (sess y) = None \<Longrightarrow>
    send_step y (set_writer i (WLoad b) y)"
| over_budget: "writer_at y i (WLoad b) \<Longrightarrow>
    i64 (ses_queuedBytes (sess y) + int (length b)) > maxMessageSize \<Longrightarrow>
    send_step y (set_writer i (WReturned (Some (ErrorString ''websocket send byte budget exceeded''))) y)"
| load: "writer_at y i (WLoad b) \<Longrightarrow>
    \<not> i64 (ses_queuedBytes (sess y) + int (length b)) > maxMessageSize \<Longrightarrow>
    send_step y (set_writer i (WCas b (ses_queuedBytes (sess y))) y)"
| cas: "writer_at y i (WCas b used) \<Longrightarrow> ses_queuedBytes (sess y) = used \<Longrightarrow>
    send_step y (set_queued (i64 (used + int (length b))) (set_writer i (WSelect b) y))"
| cas_retry: "writer_at y i (WCas b used) \<Longrightarrow> ses_queuedBytes (sess y) \<noteq> used \<Longrightarrow>
    send_step y (set_writer i (WLoad b) y)"
| sel_done: "writer_at y i (WSelect b) \<Longrightarrow> ses_ctx_err (sess y) = Some e \<Longrightarrow>
    send_step y (set_queued (i64 (ses_queuedBytes (sess y) - int (length b)))
      (set_writer i (WReturned (Some e)) y))"
| sel_timer: "writer_at y i (WSelect b) \<Longrightarrow>
    send_step y (set_queued (i64 (ses_queuedBytes (sess y) - int (length b)))
      (set_writer i (WReturned (Some (ErrorString ''websocket send queue full''))) y))"
| sel_send: "writer_at y i (WSelect b) \<Longrightarrow> length (ses_send (sess y)) < send_capacity \<Longrightarrow>
    send_step y (set_writer i (WReturned None)
      (y\<lparr>sess := (sess y)\<lparr>ses_send := ses_send (sess y) @ [b]\<rparr>, accepted := accepted y @ [b]\<rparr>))"
| receive: "serving y = None \<Longrightarrow> \<not> exiting y \<Longrightarrow> ses_send (sess y) = b # q \<Longrightarrow>
    send_step y (y\<lparr>sess := (sess y)\<lparr>ses_send := q\<rparr>, serving := Some b\<rparr>)"
| frame_written: "serving y = Some b \<Longrightarrow>
    send_step y (set_queued (i64 (ses_queuedBytes (sess y) - int (length b)))
      (y\<lparr>serving := None, written := written y @ [b]\<rparr>))"
| cancelled: "send_step y (y\<lparr>sess := cancel_session (sess y)\<rparr>)"
| leave_loop: "serving y = None \<Longrightarrow> \<not> exiting y \<Longrightarrow>
    send_step y (y\<lparr>sess := cancel_session (sess y), exiting := True\<rparr>)"
| cleanup: "exiting y \<Longrightarrow> \<not> ses_done (sess y) \<Longrightarrow> \<forall>w \<in> set (writers y). \<not> holds_lock w \<Longrightarrow>
    send_step y (y\<lparr>sess := session_cleanup (sess y), dropped := dropped y @ ses_send (sess y)\<rparr>)"

definition send_init :: "send_sys \<Rightarrow> bool" where
  "send_init y \<longleftrightarrow> sess y = fresh_session \<and> (\<forall>w \<in> set (writers y). \<exists>b. w = WIdle b) \<and>
     serving y = None \<and> \<not> exiting y \<and> accepted y = [] \<and> written y = [] \<and> dropped y = []"



section \<open>The invariant\<close>

definition bytes_len :: "bytes list \<Rightarrow> int" where
  "bytes_len xs = sum_list (map (\<lambda>b. int (length b)) xs)"

definition in_service :: "send_sys \<Rightarrow> bytes list" where
  "in_service y = (case serving y of None \<Rightarrow> [] | Some b \<Rightarrow> [b])"

fun writer_ok :: "writer \<Rightarrow> bool" where
  "writer_ok (WLocked b) = (int (length b) \<le> maxMessageSize)"
| "writer_ok (WLoad b) = (int (length b) \<le> maxMessageSize)"
| "writer_ok (WCas b used) = (0 \<le> used \<and> used + int (length b) \<le> maxMessageSize)"
| "writer_ok (WSelect b) = (int (length b) \<le> maxMessageSize)"
| "writer_ok _ = True"

text \<open>Accounting: the counter is the bytes that are queued, being written or reserved.\<close>

definition acct_inv :: "send_sys \<Rightarrow> bool" where
  "acct_inv y \<longleftrightarrow>
     ses_queuedBytes (sess y) = bytes_len (ses_send (sess y)) + bytes_len (in_service y) +
       sum_list (map reserved (writers y)) \<and>
     ses_queuedBytes (sess y) \<le> maxMessageSize \<and>
     length (ses_send (sess y)) \<le> send_capacity \<and>
     (\<forall>j < length (writers y). writer_ok (writers y ! j))"

text \<open>A session that is being torn down is cancelled, and once it is done nobody uses its queue.\<close>

fun in_queue_code :: "writer \<Rightarrow> bool" where
  "in_queue_code (WLoad _) = True"
| "in_queue_code (WCas _ _) = True"
| "in_queue_code (WSelect _) = True"
| "in_queue_code _ = False"

definition exit_inv :: "send_sys \<Rightarrow> bool" where
  "exit_inv y \<longleftrightarrow>
     (exiting y \<longrightarrow> ses_ctx_err (sess y) \<noteq> None \<and> serving y = None) \<and>
     (ses_done (sess y) \<longrightarrow> exiting y \<and> ses_send (sess y) = [] \<and>
        (\<forall>j < length (writers y). \<not> in_queue_code (writers y ! j)))"

text \<open>Order: what was accepted is what was written, is being written, waits or was dropped.\<close>

definition fifo_inv :: "send_sys \<Rightarrow> bool" where
  "fifo_inv y \<longleftrightarrow>
     accepted y = written y @ in_service y @ ses_send (sess y) @ dropped y \<and>
     (\<not> ses_done (sess y) \<longrightarrow> dropped y = [])"

definition send_inv :: "send_sys \<Rightarrow> bool" where
  "send_inv y \<longleftrightarrow> acct_inv y \<and> exit_inv y \<and> fifo_inv y"

lemma bytes_len_simps [simp]:
  "bytes_len [] = 0" "bytes_len (b # bs) = int (length b) + bytes_len bs"
  "bytes_len (xs @ ys) = bytes_len xs + bytes_len ys"
  by (simp_all add: bytes_len_def)

lemma bytes_len_nonneg [simp]: "0 \<le> bytes_len xs"
  by (induction xs) auto

lemma reserved_nonneg [simp]: "0 \<le> reserved w"
  by (cases w) auto

lemma sum_reserved_nonneg [simp]: "0 \<le> sum_list (map reserved ws)"
  by (rule sum_list_nonneg) auto

lemma i64_small [simp]:
  "- maxMessageSize \<le> x \<Longrightarrow> x \<le> 2 * maxMessageSize \<Longrightarrow> i64 x = x"
  by (rule i64_id) (simp_all add: maxMessageSize_def)

text \<open>Giving the bytes of a buffer back leaves the counter non-negative.\<close>

lemma i64_release:
  assumes "n \<le> q" "0 \<le> n" "q \<le> maxMessageSize"
  shows "i64 (q - n) = q - n"
  using assms by (intro i64_small) (simp_all add: maxMessageSize_def)

lemma drain_eq:
  "bytes_len bs \<le> q \<Longrightarrow> q \<le> maxMessageSize \<Longrightarrow> drain bs q = q - bytes_len bs"
proof (induction bs arbitrary: q)
  case Nil
  then show ?case by simp
next
  case (Cons b bs)
  have "int (length b) \<le> q"
    using Cons.prems bytes_len_nonneg [of bs] unfolding bytes_len_simps by linarith
  then have "i64 (q - int (length b)) = q - int (length b)"
    using Cons.prems by (intro i64_release) simp_all
  with Cons.IH [of "q - int (length b)"] Cons.prems show ?case by simp
qed

lemma cancel_session_fields [simp]:
  "ses_queuedBytes (cancel_session s) = ses_queuedBytes s" "ses_send (cancel_session s) = ses_send s"
  "ses_done (cancel_session s) = ses_done s" "ses_subscriptions (cancel_session s) = ses_subscriptions s"
  "ses_ctx_err (cancel_session s) \<noteq> None"
  by (simp_all add: cancel_session_def split: option.split)

lemma not_holding_reserved: "\<forall>w \<in> set ws. \<not> holds_lock w \<Longrightarrow> sum_list (map reserved ws) = 0"
  by (rule sum_list_map_all_zero) (metis holds_lock.simps(4) reserved.elims)

lemma not_holding_in_queue: "\<forall>w \<in> set ws. \<not> holds_lock w \<Longrightarrow> j < length ws \<Longrightarrow> \<not> in_queue_code (ws ! j)"
  by (metis holds_lock.simps(2-4) in_queue_code.elims(2) nth_mem)

lemma acct_reserved_le:
  assumes "acct_inv y" "i < length (writers y)"
  shows "reserved (writers y ! i) \<le> ses_queuedBytes (sess y)"
proof -
  have "reserved (writers y ! i) \<le> sum_list (map reserved (writers y))"
    using assms(2) by (intro member_le_sum_list_map) simp_all
  then show ?thesis using assms(1) bytes_len_nonneg [of "ses_send (sess y)"]
      bytes_len_nonneg [of "in_service y"] unfolding acct_inv_def by linarith
qed

lemma acct_queued_range:
  "acct_inv y \<Longrightarrow> 0 \<le> ses_queuedBytes (sess y) \<and> ses_queuedBytes (sess y) \<le> maxMessageSize"
  by (simp add: acct_inv_def)

lemma acct_inv_release:
  assumes "acct_inv y" "writer_at y i (WSelect b)"
  shows "acct_inv (set_queued (i64 (ses_queuedBytes (sess y) - int (length b))) (set_writer i (WReturned r) y))"
proof -
  have "int (length b) \<le> ses_queuedBytes (sess y)" using acct_reserved_le [OF assms(1), of i] assms(2) by simp
  then have "i64 (ses_queuedBytes (sess y) - int (length b)) = ses_queuedBytes (sess y) - int (length b)"
    using acct_queued_range [OF assms(1)] by (intro i64_release) simp_all
  then show ?thesis
    using assms by (auto simp: acct_inv_def in_service_def sum_list_map_update nth_list_update)
qed

lemma acct_inv_step:
  assumes "send_step y z" "acct_inv y"
  shows "acct_inv z"
  using assms
proof (cases rule: send_step.cases)
  case (load i b)
  then have "int (length b) \<le> maxMessageSize" using assms(2) by (auto simp: acct_inv_def)
  with load acct_queued_range [OF assms(2)]
  have "ses_queuedBytes (sess y) + int (length b) \<le> maxMessageSize" by simp
  with load assms(2) acct_queued_range [OF assms(2)] show ?thesis
    by (auto simp: acct_inv_def in_service_def sum_list_map_update nth_list_update)
next
  case (cas i b used)
  then have u: "0 \<le> used \<and> used + int (length b) \<le> maxMessageSize"
    using assms(2) by (auto simp: acct_inv_def)
  then have q: "i64 (used + int (length b)) = used + int (length b)" by (intro i64_small) simp_all
  have "writer_ok (WSelect b)" using u by simp
  then have "\<forall>j < length (writers z). writer_ok (writers z ! j)"
    using cas(1,2) assms(2) unfolding acct_inv_def by (simp add: nth_list_update del: writer_ok.simps)
  moreover have "sum_list (map reserved (writers z)) = sum_list (map reserved (writers y)) + int (length b)"
    using cas by (simp add: sum_list_map_update)
  ultimately show ?thesis
    using cas(1,3) q u assms(2) unfolding acct_inv_def by (simp add: in_service_def)
next
  case (sel_done i b e)
  then show ?thesis using acct_inv_release [OF assms(2)] by simp
next
  case (sel_timer i b)
  then show ?thesis using acct_inv_release [OF assms(2)] by simp
next
  case (frame_written b)
  then have "int (length b) \<le> ses_queuedBytes (sess y)"
    using assms(2) by (simp add: acct_inv_def in_service_def)
  then have "i64 (ses_queuedBytes (sess y) - int (length b)) = ses_queuedBytes (sess y) - int (length b)"
    using acct_queued_range [OF assms(2)] by (intro i64_release) simp_all
  with frame_written assms(2) show ?thesis by (auto simp: acct_inv_def in_service_def)
next
  case cleanup
  have "bytes_len (ses_send (sess y)) \<le> ses_queuedBytes (sess y)"
    using assms(2) by (simp add: acct_inv_def)
  then have "drain (ses_send (sess y)) (ses_queuedBytes (sess y)) =
      ses_queuedBytes (sess y) - bytes_len (ses_send (sess y))"
    using acct_queued_range [OF assms(2)] by (intro drain_eq) simp_all
  moreover have "in_service z = in_service y" using cleanup by (simp add: in_service_def)
  moreover have "bytes_len (in_service y) + sum_list (map reserved (writers y)) \<le> maxMessageSize"
    using assms(2) bytes_len_nonneg [of "ses_send (sess y)"] unfolding acct_inv_def by linarith
  ultimately show ?thesis
    using cleanup assms(2) unfolding acct_inv_def by (simp add: session_cleanup_def Let_def)
qed (auto simp: acct_inv_def in_service_def sum_list_map_update nth_list_update)

lemma exit_inv_step:
  assumes "send_step y z" "exit_inv y"
  shows "exit_inv z"
  using assms
  by (cases rule: send_step.cases)
    (auto simp: exit_inv_def session_cleanup_def Let_def nth_list_update not_holding_in_queue)

lemma fifo_inv_step:
  assumes "send_step y z" "fifo_inv y" "exit_inv y"
  shows "fifo_inv z"
  using assms
  by (cases rule: send_step.cases)
    (fastforce simp: fifo_inv_def exit_inv_def in_service_def session_cleanup_def Let_def)+


lemma send_inv_init: "send_init y \<Longrightarrow> send_inv y"
proof -
  assume i: "send_init y"
  have idle: "\<exists>b. writers y ! j = WIdle b" if "j < length (writers y)" for j
    using i that by (simp add: send_init_def)
  have "\<forall>w \<in> set (writers y). \<not> holds_lock w"
    using i by (auto simp: send_init_def)
  then have "sum_list (map reserved (writers y)) = 0" by (rule not_holding_reserved)
  moreover have "writer_ok (writers y ! j)" if "j < length (writers y)" for j
    using idle [OF that] by auto
  ultimately have "acct_inv y"
    using i by (simp add: acct_inv_def send_init_def fresh_session_def in_service_def maxMessageSize_def
        send_capacity_def)
  with i show ?thesis
    by (simp add: send_inv_def exit_inv_def fifo_inv_def send_init_def fresh_session_def in_service_def)
qed

lemma send_inv_step: "send_inv y \<Longrightarrow> send_step y z \<Longrightarrow> send_inv z"
  unfolding send_inv_def using acct_inv_step exit_inv_step fifo_inv_step by blast

interpretation sendq: step_system send_init send_step send_inv
  by unfold_locales (auto intro: send_inv_init send_inv_step)


section \<open>Tearing a session down cannot get stuck\<close>

text \<open>A cancelled session lets every writer that holds the lock return, by its own steps alone.\<close>

definition returns_to :: "nat \<Rightarrow> send_sys \<Rightarrow> send_sys \<Rightarrow> bool" where
  "returns_to i y z \<longleftrightarrow> send_step\<^sup>*\<^sup>* y z \<and> (\<exists>r. writers z = (writers y)[i := WReturned r]) \<and>
     exiting z = exiting y \<and> ses_ctx_err (sess z) = ses_ctx_err (sess y) \<and>
     ses_done (sess z) = ses_done (sess y)"

lemma returns_now:
  assumes "send_step y z" "writers z = (writers y)[i := WReturned r]" "exiting z = exiting y"
    "ses_ctx_err (sess z) = ses_ctx_err (sess y)" "ses_done (sess z) = ses_done (sess y)"
  shows "returns_to i y z"
  using assms by (auto simp: returns_to_def)

lemma returns_later:
  assumes "send_step y y1" "writers y1 = (writers y)[i := w]" "exiting y1 = exiting y"
    "ses_ctx_err (sess y1) = ses_ctx_err (sess y)" "ses_done (sess y1) = ses_done (sess y)"
    "returns_to i y1 z"
  shows "returns_to i y z"
  using assms by (auto simp: returns_to_def intro: converse_rtranclp_into_rtranclp)

lemma select_can_return:
  assumes "ses_ctx_err (sess y) = Some e" "writer_at y i (WSelect b)"
  shows "\<exists>z. returns_to i y z"
  using returns_now [OF send_step.sel_done [OF assms(2,1)]] by force

lemma cas_can_return:
  assumes "ses_ctx_err (sess y) = Some e" "writer_at y i (WCas b (ses_queuedBytes (sess y)))"
  shows "\<exists>z. returns_to i y z"
proof -
  let ?y1 = "set_queued (i64 (ses_queuedBytes (sess y) + int (length b))) (set_writer i (WSelect b) y)"
  obtain z where "returns_to i ?y1 z"
    using select_can_return [of ?y1 e i b] assms by auto
  then show ?thesis
    using returns_later [OF send_step.cas [OF assms(2) refl], of i _ z] by auto
qed

lemma load_can_return:
  assumes "ses_ctx_err (sess y) = Some e" "writer_at y i (WLoad b)"
  shows "\<exists>z. returns_to i y z"
proof (cases "i64 (ses_queuedBytes (sess y) + int (length b)) > maxMessageSize")
  case True
  show ?thesis using returns_now [OF send_step.over_budget [OF assms(2) True]] by force
next
  case False
  let ?y1 = "set_writer i (WCas b (ses_queuedBytes (sess y))) y"
  obtain z where "returns_to i ?y1 z"
    using cas_can_return [of ?y1 e i b] assms by auto
  then show ?thesis using returns_later [OF send_step.load [OF assms(2) False], of i _ z] by auto
qed

lemma writer_can_return:
  assumes "ses_ctx_err (sess y) = Some e" "i < length (writers y)" "holds_lock (writers y ! i)"
  shows "\<exists>z. returns_to i y z"
proof (cases "writers y ! i")
  case (WLocked b)
  with assms have "writer_at y i (WLocked b)" by simp
  from returns_now [OF send_step.ctx_error [OF this assms(1)]] show ?thesis by force
next
  case (WLoad b)
  then show ?thesis using load_can_return assms by blast
next
  case (WCas b used)
  show ?thesis
  proof (cases "ses_queuedBytes (sess y) = used")
    case True
    then show ?thesis using cas_can_return WCas assms by blast
  next
    case False
    let ?y1 = "set_writer i (WLoad b) y"
    have "writer_at y i (WCas b used)" using WCas assms by simp
    note step = send_step.cas_retry [OF this False]
    obtain z where "returns_to i ?y1 z"
      using load_can_return [of ?y1 e i b] assms by auto
    then show ?thesis using returns_later [OF step, of i _ z] by auto
  qed
next
  case (WSelect b)
  then show ?thesis using select_can_return assms by blast
qed (use assms in auto)

lemma length_filter_update:
  "i < length xs \<Longrightarrow> P (xs ! i) \<Longrightarrow> \<not> P x \<Longrightarrow>
   length (filter P (xs[i := x])) < length (filter P xs)"
proof (induction xs arbitrary: i)
  case Nil
  then show ?case by simp
next
  case (Cons y ys)
  then show ?case by (cases i) auto
qed

lemma teardown_completes:
  assumes "exiting y" "ses_ctx_err (sess y) = Some e" "\<not> ses_done (sess y)"
  shows "\<exists>z. send_step\<^sup>*\<^sup>* y z \<and> ses_done (sess z)"
  using assms
proof (induction "length (filter holds_lock (writers y))" arbitrary: y rule: less_induct)
  case less
  show ?case
  proof (cases "\<forall>w \<in> set (writers y). \<not> holds_lock w")
    case True
    have "ses_done (session_cleanup (sess y))" by (simp add: session_cleanup_def Let_def)
    then show ?thesis
      using r_into_rtranclp [of send_step, OF send_step.cleanup [OF less.prems(1,3) True]] by force
  next
    case False
    then obtain i where i: "i < length (writers y)" "holds_lock (writers y ! i)"
      by (auto simp: in_set_conv_nth)
    then obtain z r where z: "send_step\<^sup>*\<^sup>* y z" "writers z = (writers y)[i := WReturned r]" "exiting z"
      "ses_ctx_err (sess z) = Some e" "\<not> ses_done (sess z)"
      using writer_can_return [OF less.prems(2) i] less.prems by (auto simp: returns_to_def)
    have "length (filter holds_lock (writers z)) < length (filter holds_lock (writers y))"
      unfolding z(2) using i by (intro length_filter_update) simp_all
    from less.hyps [OF this z(3-5)] z(1) show ?thesis by (meson rtranclp_trans)
  qed
qed


section \<open>The step-by-step code and the method agree\<close>

definition select_ready :: "select_case \<Rightarrow> wsSession \<Rightarrow> bool" where
  "select_ready sel s = (case sel of
     SelDone e \<Rightarrow> e = Canceled | SelTimer \<Rightarrow> True | SelSend \<Rightarrow> length (ses_send s) < send_capacity)"

definition lone_writer :: "wsSession \<Rightarrow> writer \<Rightarrow> bytes list \<Rightarrow> send_sys" where
  "lone_writer s w acc = \<lparr>sess = s, writers = [w], serving = None, exiting = False, accepted = acc,
     written = [], dropped = []\<rparr>"

lemma lone_select:
  assumes "select_ready sel s" "ses_ctx_err s = None" "ses_queuedBytes s = i64 (used + int (length b))"
  shows "\<exists>z. send_step\<^sup>*\<^sup>* (lone_writer s (WSelect b) []) z \<and>
    (case sel of
       SelDone e \<Rightarrow> writers z = [WReturned (Some e)] \<and>
         sess z = s\<lparr>ses_queuedBytes := i64 (ses_queuedBytes s - int (length b)), ses_ctx_err := Some e\<rparr>
     | SelTimer \<Rightarrow> writers z = [WReturned (Some (ErrorString ''websocket send queue full''))] \<and>
         sess z = s\<lparr>ses_queuedBytes := i64 (ses_queuedBytes s - int (length b))\<rparr>
     | SelSend \<Rightarrow> writers z = [WReturned None] \<and> sess z = s\<lparr>ses_send := ses_send s @ [b]\<rparr>)"
proof -
  let ?y = "lone_writer s (WSelect b) []"
  have at: "writer_at ?y 0 (WSelect b)" by (simp add: lone_writer_def)
  show ?thesis
  proof (cases sel)
    case (SelDone e)
    let ?y1 = "?y\<lparr>sess := cancel_session (sess ?y)\<rparr>"
    let ?z = "set_queued (i64 (ses_queuedBytes (sess ?y1) - int (length b)))
      (set_writer 0 (WReturned (Some Canceled)) ?y1)"
    have c: "ses_ctx_err (sess ?y1) = Some Canceled" "writer_at ?y1 0 (WSelect b)"
      using assms(2) by (simp_all add: lone_writer_def cancel_session_def)
    have "send_step\<^sup>*\<^sup>* ?y ?z"
      using send_step.cancelled send_step.sel_done [OF c(2,1)]
      by (meson converse_rtranclp_into_rtranclp r_into_rtranclp)
    moreover have "writers ?z = [WReturned (Some e)] \<and>
         sess ?z = s\<lparr>ses_queuedBytes := i64 (ses_queuedBytes s - int (length b)), ses_ctx_err := Some e\<rparr>"
      using SelDone assms(1,2) by (simp add: lone_writer_def cancel_session_def select_ready_def)
    ultimately show ?thesis unfolding SelDone select_case.case by blast
  next
    case SelTimer
    let ?z = "set_queued (i64 (ses_queuedBytes (sess ?y) - int (length b)))
      (set_writer 0 (WReturned (Some (ErrorString ''websocket send queue full''))) ?y)"
    have "send_step ?y ?z" using at by (rule send_step.sel_timer)
    then have "send_step\<^sup>*\<^sup>* ?y ?z" ..
    moreover have "writers ?z = [WReturned (Some (ErrorString ''websocket send queue full''))] \<and>
         sess ?z = s\<lparr>ses_queuedBytes := i64 (ses_queuedBytes s - int (length b))\<rparr>"
      by (simp add: lone_writer_def)
    ultimately show ?thesis unfolding SelTimer select_case.case by blast
  next
    case SelSend
    let ?z = "set_writer 0 (WReturned None)
      (?y\<lparr>sess := (sess ?y)\<lparr>ses_send := ses_send (sess ?y) @ [b]\<rparr>, accepted := accepted ?y @ [b]\<rparr>)"
    have "length (ses_send (sess ?y)) < send_capacity"
      using SelSend assms(1) by (simp add: lone_writer_def select_ready_def)
    with at have "send_step ?y ?z" by (rule send_step.sel_send)
    then have "send_step\<^sup>*\<^sup>* ?y ?z" ..
    moreover have "writers ?z = [WReturned None] \<and> sess ?z = s\<lparr>ses_send := ses_send s @ [b]\<rparr>"
      by (simp add: lone_writer_def)
    ultimately show ?thesis unfolding SelSend select_case.case by blast
  qed
qed

lemma lone_steps:
  "int (length b) > maxMessageSize \<Longrightarrow> send_step (lone_writer s (WIdle b) [])
     (lone_writer s (WReturned (Some (ErrorString ''websocket message too large''))) [])"
  "int (length b) \<le> maxMessageSize \<Longrightarrow>
     send_step (lone_writer s (WIdle b) []) (lone_writer s (WLocked b) [])"
  "ses_ctx_err s = Some e \<Longrightarrow>
     send_step (lone_writer s (WLocked b) []) (lone_writer s (WReturned (Some e)) [])"
  "ses_ctx_err s = None \<Longrightarrow> send_step (lone_writer s (WLocked b) []) (lone_writer s (WLoad b) [])"
  "i64 (ses_queuedBytes s + int (length b)) > maxMessageSize \<Longrightarrow>
     send_step (lone_writer s (WLoad b) [])
       (lone_writer s (WReturned (Some (ErrorString ''websocket send byte budget exceeded''))) [])"
  "\<not> i64 (ses_queuedBytes s + int (length b)) > maxMessageSize \<Longrightarrow>
     send_step (lone_writer s (WLoad b) []) (lone_writer s (WCas b (ses_queuedBytes s)) [])"
  "send_step (lone_writer s (WCas b (ses_queuedBytes s)) [])
     (lone_writer (s\<lparr>ses_queuedBytes := i64 (ses_queuedBytes s + int (length b))\<rparr>) (WSelect b) [])"
  using send_step.too_large [where y = "lone_writer s (WIdle b) []" and i = 0]
    send_step.lock [where y = "lone_writer s (WIdle b) []" and i = 0]
    send_step.ctx_error [where y = "lone_writer s (WLocked b) []" and i = 0]
    send_step.ctx_live [where y = "lone_writer s (WLocked b) []" and i = 0]
    send_step.over_budget [where y = "lone_writer s (WLoad b) []" and i = 0]
    send_step.load [where y = "lone_writer s (WLoad b) []" and i = 0]
    send_step.cas [where y = "lone_writer s (WCas b (ses_queuedBytes s)) []" and i = 0]
  by (simp_all add: lone_writer_def)


text \<open>A run of the lone writer that ends in its return is what the method's result asks for.\<close>

lemma lone_run:
  assumes "send_step\<^sup>*\<^sup>* y (lone_writer s (WReturned r) acc)" "r = r'" "session d = Some s"
  shows "\<exists>z. send_step\<^sup>*\<^sup>* y z \<and> writers z = [WReturned r'] \<and> session d = Some (sess z)"
  using assms by (intro exI [of _ "lone_writer s (WReturned r) acc"]) (simp add: lone_writer_def)

lemma Write_run:
  assumes "session c = Some s" "select_ready sel s" "Write sel b c = (r, d)"
  shows "\<exists>z. send_step\<^sup>*\<^sup>* (lone_writer s (WIdle b) []) z \<and> writers z = [WReturned r] \<and> session d = Some (sess z)"
proof (cases "int (length b) > maxMessageSize")
  case True
  then have "Some (ErrorString ''websocket message too large'') = r" "session d = Some s"
    using assms by (auto simp: Write_def)
  then show ?thesis by (rule lone_run [OF r_into_rtranclp [of send_step, OF lone_steps(1) [OF True]]])
next
  case False
  then have "int (length b) \<le> maxMessageSize" by simp
  note locked = r_into_rtranclp [of send_step, OF lone_steps(2) [OF this, of s]]
  show ?thesis
  proof (cases "ses_ctx_err s")
    case (Some e)
    then have "Some e = r" "session d = Some s" using assms False by (auto simp: Write_def)
    then show ?thesis
      by (rule lone_run [OF rtranclp.rtrancl_into_rtrancl [OF locked lone_steps(3) [OF Some]]])
  next
    case None
    then have load: "send_step\<^sup>*\<^sup>* (lone_writer s (WIdle b) []) (lone_writer s (WLoad b) [])"
      using rtranclp.rtrancl_into_rtrancl [OF locked lone_steps(4)] by simp
    show ?thesis
    proof (cases "i64 (ses_queuedBytes s + int (length b)) > maxMessageSize")
      case True
      then have "Write sel b c = (Some (ErrorString ''websocket send byte budget exceeded''), c)"
        using assms(1) False None by (simp add: Write_def Let_def del: i64_small i64_id)
      then have "Some (ErrorString ''websocket send byte budget exceeded'') = r" "session d = Some s"
        using assms(1,3) by simp_all
      moreover have "send_step\<^sup>*\<^sup>* (lone_writer s (WIdle b) [])
          (lone_writer s (WReturned (Some (ErrorString ''websocket send byte budget exceeded''))) [])"
        using load lone_steps(5) [OF True] by (rule rtranclp.rtrancl_into_rtrancl)
      ultimately show ?thesis by (intro lone_run)
    next
      case notover: False
      let ?s = "s\<lparr>ses_queuedBytes := i64 (ses_queuedBytes s + int (length b))\<rparr>"
      have sel: "send_step\<^sup>*\<^sup>* (lone_writer s (WIdle b) []) (lone_writer ?s (WSelect b) [])"
        using rtranclp.rtrancl_into_rtrancl [OF rtranclp.rtrancl_into_rtrancl
            [OF load lone_steps(6) [OF notover]] lone_steps(7)] .
      have "select_ready sel ?s" using assms(2) by (cases sel) (simp_all add: select_ready_def)
      then obtain z where z: "send_step\<^sup>*\<^sup>* (lone_writer ?s (WSelect b) []) z"
        "case sel of
           SelDone e \<Rightarrow> writers z = [WReturned (Some e)] \<and>
             sess z = ?s\<lparr>ses_queuedBytes := i64 (ses_queuedBytes ?s - int (length b)), ses_ctx_err := Some e\<rparr>
         | SelTimer \<Rightarrow> writers z = [WReturned (Some (ErrorString ''websocket send queue full''))] \<and>
             sess z = ?s\<lparr>ses_queuedBytes := i64 (ses_queuedBytes ?s - int (length b))\<rparr>
         | SelSend \<Rightarrow> writers z = [WReturned None] \<and> sess z = ?s\<lparr>ses_send := ses_send ?s @ [b]\<rparr>"
        using lone_select [of sel ?s "ses_queuedBytes s" b] None by auto
      have "writers z = [WReturned r] \<and> session d = Some (sess z)"
        using z(2) assms(1,3) False None notover
        by (cases sel) (auto simp: Write_def Let_def simp del: i64_small i64_id)
      with rtranclp_trans [OF sel z(1)] show ?thesis by blast
    qed
  qed
qed



section \<open>Properties\<close>

text \<open>
  C5. The byte budget holds in every interleaving of any number of writers, the connection,
  cancellation and the clean-up: the counter is never negative and never above 16 MiB, it is
  exactly the number of bytes that are queued, being written or reserved by a writer, the
  64-bit arithmetic on it never wraps, and the channel never holds more than 64 buffers.
\<close>

theorem send_budget:
  assumes "reachable send_init send_step y"
  shows "0 \<le> ses_queuedBytes (sess y) \<and> ses_queuedBytes (sess y) \<le> maxMessageSize \<and>
    ses_queuedBytes (sess y) = bytes_len (ses_send (sess y)) + bytes_len (in_service y) +
      sum_list (map reserved (writers y)) \<and>
    length (ses_send (sess y)) \<le> send_capacity"
proof -
  have "acct_inv y" using sendq.reachable_inv [OF assms] by (simp add: send_inv_def)
  then show ?thesis using acct_queued_range [of y] by (simp add: acct_inv_def)
qed

lemma lone_reachable: "reachable send_init send_step (lone_writer fresh_session (WIdle b) [])"
  by (rule reach_init) (simp add: send_init_def lone_writer_def)

theorem send_budget_witness:
  "reachable send_init send_step (lone_writer fresh_session (WLocked [1, 2]) []) \<and>
   ses_queuedBytes (sess (lone_writer fresh_session (WLocked [1, 2]) [])) \<le> maxMessageSize"
proof -
  have r: "reachable send_init send_step (lone_writer fresh_session (WLocked [1, 2]) [])"
    by (rule reach_step [OF lone_reachable lone_steps(2)]) (simp add: maxMessageSize_def)
  show ?thesis using r send_budget [OF r] by blast
qed



text \<open>
  C23. When a session is done its queue is empty, its counter is zero, its context is
  cancelled and no writer is still working on the queue, so that a later \<^verbatim>\<open>Write\<close> on
  the same session can only return the context's error.
\<close>

theorem send_done_clean:
  assumes "reachable send_init send_step y" "ses_done (sess y)"
  shows "ses_send (sess y) = [] \<and> ses_queuedBytes (sess y) = 0 \<and> ses_ctx_err (sess y) \<noteq> None \<and>
    (\<forall>w \<in> set (writers y). \<not> in_queue_code w)"
proof -
  have inv: "acct_inv y" "exit_inv y" using sendq.reachable_inv [OF assms(1)] by (simp_all add: send_inv_def)
  then have w: "\<forall>w \<in> set (writers y). \<not> in_queue_code w"
    using assms(2) by (auto simp: exit_inv_def in_set_conv_nth)
  then have "sum_list (map reserved (writers y)) = 0"
    by (intro sum_list_map_all_zero) (metis in_queue_code.simps(3) reserved.elims)
  with inv w assms(2) show ?thesis by (simp add: acct_inv_def exit_inv_def in_service_def)
qed

text \<open>
  C24. Tearing a session down cannot get stuck: from every reachable state in which the
  session's goroutine has left its loop, whatever the writers are doing, there is a
  continuation in which all of them return and the session becomes done with an empty queue.
\<close>

theorem teardown_can_finish:
  assumes "reachable send_init send_step y" "exiting y"
  shows "\<exists>z. send_step\<^sup>*\<^sup>* y z \<and> ses_done (sess z) \<and> ses_send (sess z) = []"
proof -
  have inv: "send_inv y" by (rule sendq.reachable_inv [OF assms(1)])
  then obtain e where e: "ses_ctx_err (sess y) = Some e"
    using assms(2) by (auto simp: send_inv_def exit_inv_def)
  obtain z where z: "send_step\<^sup>*\<^sup>* y z" "ses_done (sess z)"
    using teardown_completes [OF assms(2) e] by (cases "ses_done (sess y)") auto
  have "send_inv z" using sendq.steps_inv [OF z(1) inv] .
  then show ?thesis using z by (auto simp: send_inv_def exit_inv_def)
qed

lemma exiting_reachable:
  "reachable send_init send_step ((lone_writer fresh_session (WLocked []) [])
     \<lparr>sess := cancel_session fresh_session, exiting := True\<rparr>)"
proof -
  have r: "reachable send_init send_step (lone_writer fresh_session (WLocked []) [])"
    by (rule reach_step [OF lone_reachable lone_steps(2)]) (simp add: maxMessageSize_def)
  have "send_step (lone_writer fresh_session (WLocked []) []) ((lone_writer fresh_session (WLocked []) [])
     \<lparr>sess := cancel_session fresh_session, exiting := True\<rparr>)"
    using send_step.leave_loop [of "lone_writer fresh_session (WLocked []) []"]
    by (simp add: lone_writer_def)
  with r show ?thesis by (rule reach_step)
qed

theorem teardown_can_finish_witness:
  "\<exists>z. send_step\<^sup>*\<^sup>* ((lone_writer fresh_session (WLocked []) [])
     \<lparr>sess := cancel_session fresh_session, exiting := True\<rparr>) z \<and> ses_done (sess z)"
  using teardown_can_finish [OF exiting_reachable] by auto

theorem send_done_clean_witness:
  "\<exists>y. reachable send_init send_step y \<and> ses_done (sess y) \<and> ses_queuedBytes (sess y) = 0"
proof -
  have r: "reachable send_init send_step ((lone_writer fresh_session (WIdle []) [])
     \<lparr>sess := cancel_session fresh_session, exiting := True\<rparr>)"
    using reach_step [OF lone_reachable [of "[]"] send_step.leave_loop]
    by (simp add: lone_writer_def)
  let ?y = "(lone_writer fresh_session (WIdle []) [])\<lparr>sess := cancel_session fresh_session, exiting := True\<rparr>"
  let ?z = "?y\<lparr>sess := session_cleanup (sess ?y), dropped := dropped ?y @ ses_send (sess ?y)\<rparr>"
  have "send_step ?y ?z"
    by (rule send_step.cleanup) (simp_all add: lone_writer_def fresh_session_def)
  then have z: "reachable send_init send_step ?z" using r by (rule reach_step [rotated])
  have d: "ses_done (sess ?z)" by (simp add: session_cleanup_def Let_def)
  show ?thesis using z d send_done_clean [OF z d] by blast
qed

text \<open>
  C25. The method and the step-by-step code agree: what an undisturbed \<^verbatim>\<open>Write\<close> returns
  and leaves behind, on every branch, is what a lone writer reaches by its steps.
\<close>

theorem Write_refines_steps:
  assumes "session c = Some s" "select_ready sel s" "Write sel b c = (r, d)"
  shows "\<exists>z. send_step\<^sup>*\<^sup>* (lone_writer s (WIdle b) []) z \<and> writers z = [WReturned r] \<and>
    session d = Some (sess z)"
  using assms by (rule Write_run)

theorem Write_refines_steps_witness:
  "\<exists>z. send_step\<^sup>*\<^sup>* (lone_writer fresh_session (WIdle [5]) []) z \<and> writers z = [WReturned None] \<and>
     ses_send (sess z) = [[5]]"
proof -
  have s: "session (snd (Start example_client)) = Some fresh_session"
    by (simp add: Start_def example_client_def)
  have r: "select_ready SelSend fresh_session"
    by (simp add: select_ready_def fresh_session_def send_capacity_def)
  have w: "Write SelSend [5] (snd (Start example_client)) =
    (None, (snd (Start example_client))\<lparr>session := Some (fresh_session\<lparr>ses_queuedBytes := 1, ses_send := [[5]]\<rparr>)\<rparr>)"
    using s by (simp add: Write_def fresh_session_def maxMessageSize_def Let_def)
  obtain z where z: "send_step\<^sup>*\<^sup>* (lone_writer fresh_session (WIdle [5]) []) z"
      "writers z = [WReturned None]"
      "Some (sess z) = Some (fresh_session\<lparr>ses_queuedBytes := 1, ses_send := [[5]]\<rparr>)"
    using Write_refines_steps [OF s r w] by (auto simp: eq_commute)
  then have "ses_send (sess z) = [[5]]" by simp
  with z(1,2) show ?thesis by blast
qed

end
