(* ===== verification/Session.thy ===== *)
theory Session
  imports Send_Queue
begin

text \<open>
  The goroutine of a session: \<^verbatim>\<open>runSession\<close>, which dials, serves the connection and
  backs off, and \<^verbatim>\<open>serveConnection\<close>, which keeps the peer's subscription up to date,
  writes queued messages and pings. Time is counted in nanoseconds, as \<^verbatim>\<open>time.Duration\<close>
  does. What the goroutine observes from outside (the client as other goroutines left it, the
  context, the network) is the input of each step; \<open>Lifecycle\<close> puts the steps together
  with the methods of the client.
\<close>


section \<open>Durations\<close>

definition Millisecond :: int where "Millisecond = 1000000"
definition Second :: int where "Second = 1000000000"

lemmas duration_defs = Millisecond_def Second_def

definition HandshakeTimeout :: int where "HandshakeTimeout = 7 * Second"
definition writeTimeout :: int where "writeTimeout = 7 * Second"
definition enqueueTimeout :: int where "enqueueTimeout = 100 * Millisecond"
definition pongWait :: int where "pongWait = 30 * Second"
definition pingPeriod :: int where "pingPeriod = 10 * Second"

definition initial_delay :: int where "initial_delay = 100 * Millisecond"

definition next_delay :: "int \<Rightarrow> int" where
  "next_delay delay =
     (if delay < 25 * Second
      then (let delay = i64 (delay * 2) in if delay > 25 * Second then 25 * Second else delay)
      else delay)"


section \<open>The headers of a dial\<close>

text \<open>
  \<^verbatim>\<open>net/http\<close> keeps header fields under canonical keys: the first letter and every
  letter after a hyphen is upper case, the others lower case, unless the key has a byte that
  no token may have.
\<close>

definition ascii_upper :: "char \<Rightarrow> char" where
  "ascii_upper c = (if 97 \<le> (of_char c :: nat) \<and> (of_char c :: nat) \<le> 122 then char_of ((of_char c :: nat) - 32) else c)"

definition token_char :: "char \<Rightarrow> bool" where
  "token_char c \<longleftrightarrow> (let n = (of_char c :: nat) in
     (48 \<le> n \<and> n \<le> 57) \<or> (65 \<le> n \<and> n \<le> 90) \<or> (97 \<le> n \<and> n \<le> 122) \<or>
     n \<in> {33, 35, 36, 37, 38, 39, 42, 43, 45, 46, 94, 95, 96, 124, 126})"

fun canonical_from :: "bool \<Rightarrow> string \<Rightarrow> string" where
  "canonical_from upper [] = []"
| "canonical_from upper (c # cs) =
     (if upper then ascii_upper c else ascii_lower c) # canonical_from (c = CHR ''-'') cs"

definition CanonicalHeaderKey :: "string \<Rightarrow> string" where
  "CanonicalHeaderKey s = (if list_all token_char s then canonical_from True s else s)"

type_synonym http_header = "(string, string list) gomap"

definition hdr_Add :: "string \<Rightarrow> string \<Rightarrow> http_header \<Rightarrow> http_header" where
  "hdr_Add key value h =
     (let k = CanonicalHeaderKey key in gm_put k (gm_get_or [] h k @ [value]) h)"

definition hdr_Set :: "string \<Rightarrow> string \<Rightarrow> http_header \<Rightarrow> http_header" where
  "hdr_Set key value h = gm_put (CanonicalHeaderKey key) [value] h"

text \<open>The copy of the client's WebSocket headers that a dial starts from.\<close>

definition ws_headers :: "'h header_ops \<Rightarrow> 'h client \<Rightarrow> http_header" where
  "ws_headers H c = fold (\<lambda>(k, v). hdr_Add k v) (h_All H (wsHeaders c)) []"


section \<open>One attempt of runSession\<close>

text \<open>
  What one round of the loop observes: the context at its head, the client when its fields
  are copied under the read lock, the clock and the random nonce, the context during
  signing, the outcome of dialling and of serving, the context afterwards, and whether the
  wait ends by cancellation.
\<close>

record 'h attempt =
  at_ctx_head :: "go_error option"
  at_client :: "'h client"
  at_nonce :: "bytes option"
  at_now :: int
  at_ctx_sign :: context_obs
  at_dial :: "string \<Rightarrow> http_header \<Rightarrow> go_error option"
  at_serve :: "go_error option"
  at_ctx_end :: "go_error option"
  at_wait_cancelled :: bool

datatype session_action =
    Retrievers
  | Dial string http_header
  | Serve
  | Report go_error
  | Wait int

text \<open>The authority and the headers of this dial, or the error that prevents it.\<close>

definition dial_headers :: "'h header_ops \<Rightarrow> 'h attempt \<Rightarrow> http_header result" where
  "dial_headers H a =
     (let c = at_client a; h = ws_headers H c in
      case authoritySigner c of
        None \<Rightarrow> Inr h
      | Some signer \<Rightarrow>
          (case CreateWSAuthorityV3 (at_nonce a) (at_now a) (Some (at_ctx_sign a))
                  (authorityAddress c) (Some signer) of
             Inl e \<Rightarrow> Inl e
           | Inr authority \<Rightarrow> Inr (hdr_Set ''X-Authority'' authority h)))"

text \<open>Dialling: the actions and the error (\<open>None\<close> when a connection was made).\<close>

definition dial_attempt :: "'h header_ops \<Rightarrow> 'h attempt \<Rightarrow> session_action list \<times> go_error option" where
  "dial_attempt H a =
     (case dial_headers H a of
        Inl e \<Rightarrow> ([], Some e)
      | Inr h \<Rightarrow>
          let endpoint = u_String (wsURL (at_client a))
          in ([Dial endpoint h], at_dial a endpoint h))"

text \<open>\<^verbatim>\<open>websocket.IsCloseError\<close> with the two codes that end a session.\<close>

definition CloseNormalClosure :: nat where "CloseNormalClosure = 1000"
definition ClosePolicyViolation :: nat where "ClosePolicyViolation = 1008"

fun IsCloseError :: "go_error option \<Rightarrow> nat list \<Rightarrow> bool" where
  "IsCloseError (Some (CloseError n)) codes = (n \<in> set codes)"
| "IsCloseError _ codes = False"

definition session_over :: "go_error option \<Rightarrow> go_error option \<Rightarrow> bool" where
  "session_over ctx_err err \<longleftrightarrow>
     ctx_err \<noteq> None \<or> IsCloseError err [CloseNormalClosure, ClosePolicyViolation]"

text \<open>The body of the loop: its actions and the delay of the next round, or \<open>None\<close> to return.\<close>

definition session_attempt ::
  "'h header_ops \<Rightarrow> 'h attempt \<Rightarrow> int \<Rightarrow> session_action list \<times> int option" where
  "session_attempt H a delay =
     (let (dialled, derr) = dial_attempt H a;
          delay = (if derr = None then initial_delay else delay);
          err = (if derr = None then at_serve a else derr);
          done = Retrievers # dialled @ (if derr = None then [Serve] else [])
      in if session_over (at_ctx_end a) err then (done, None)
         else
           let done = done @ (case err of Some e \<Rightarrow> [Report e] | None \<Rightarrow> []) @ [Wait delay]
           in if at_wait_cancelled a then (done, None) else (done, Some (next_delay delay)))"

text \<open>
  The loop over what its rounds observe. The result says whether the function returned; a
  run whose observations are used up is still going on.
\<close>

fun session_loop :: "'h header_ops \<Rightarrow> 'h attempt list \<Rightarrow> int \<Rightarrow> session_action list \<times> bool" where
  "session_loop H [] delay = ([], False)"
| "session_loop H (a # as) delay =
     (if at_ctx_head a \<noteq> None then ([], True)
      else (case session_attempt H a delay of
              (acts, None) \<Rightarrow> (acts, True)
            | (acts, Some delay') \<Rightarrow>
                let (more, ret) = session_loop H as delay' in (acts @ more, ret)))"

definition runSession :: "'h header_ops \<Rightarrow> 'h attempt list \<Rightarrow> session_action list \<times> bool" where
  "runSession H as = session_loop H as initial_delay"


section \<open>serveConnection\<close>

text \<open>What a connection remembers between the rounds of its loop.\<close>

record conn =
  previous :: "string list option"
  wasListening :: bool
  revision :: uint64
  first :: bool

definition conn_new :: conn where
  "conn_new = \<lparr>previous = None, wasListening = False, revision = 0, first = True\<rparr>"

text \<open>
  The head of the loop: \<open>current\<close> is the revision read under the lock, \<open>c\<close> the client
  when \<^verbatim>\<open>syncSubscription\<close> takes the lock again.
\<close>

definition serve_sync ::
  "(bytes \<Rightarrow> go_error option) \<Rightarrow> uint64 \<Rightarrow> 'h client \<Rightarrow> conn \<Rightarrow> Message list \<times> conn result" where
  "serve_sync wr current c k =
     (if first k \<or> revision k \<noteq> current
      then (case syncSubscription wr c (previous k) (wasListening k) of
              (sent, p, l, r, Some e) \<Rightarrow> (sent, Inl e)
            | (sent, p, l, r, None) \<Rightarrow>
                (sent, Inr \<lparr>previous = p, wasListening = l, revision = r, first = False\<rparr>))
      else ([], Inr k))"

text \<open>
  The \<^verbatim>\<open>select\<close>: a case is taken only when it is ready. The two writing cases carry
  the outcome of the write.
\<close>

datatype serve_case =
    OnDone
  | OnRead go_error
  | OnSubscriptions
  | OnSend "go_error option"
  | OnTick "go_error option"

fun serve_ready :: "serve_case \<Rightarrow> wsSession \<Rightarrow> bool" where
  "serve_ready OnDone s = (ses_ctx_err s \<noteq> None)"
| "serve_ready (OnRead e) s = True"
| "serve_ready OnSubscriptions s = ses_subscriptions s"
| "serve_ready (OnSend r) s = (ses_send s \<noteq> [])"
| "serve_ready (OnTick r) s = True"

text \<open>The session after the case, and the error with which the function returns, if it does.\<close>

fun serve_select :: "serve_case \<Rightarrow> wsSession \<Rightarrow> wsSession \<times> go_error option" where
  "serve_select OnDone s = (s, ses_ctx_err s)"
| "serve_select (OnRead e) s = (s, Some e)"
| "serve_select OnSubscriptions s = (s\<lparr>ses_subscriptions := False\<rparr>, None)"
| "serve_select (OnSend r) s =
     (case ses_send s of
        [] \<Rightarrow> (s, None)
      | b # q \<Rightarrow> (s\<lparr>ses_send := q, ses_queuedBytes := i64 (ses_queuedBytes s - int (length b))\<rparr>, r))"
| "serve_select (OnTick r) s = (s, r)"

text \<open>
  The reading goroutine: what one round makes of the next frame. \<open>next\<close> is the outcome of
  \<^verbatim>\<open>conn.NextReader\<close>: an error, or the frame's type and a reader for it.
\<close>

definition TextMessage :: nat where "TextMessage = 1"

datatype read_step = ReadStop go_error | ReadParse bytes | ReadSkip

definition read_round :: "(nat \<times> reader) result \<Rightarrow> read_step" where
  "read_round next =
     (case next of
        Inl e \<Rightarrow> ReadStop e
      | Inr (typ, r) \<Rightarrow>
          (case ReadAll_limited (nat maxMessageSize + 1) r of
             (msg, Some e) \<Rightarrow> ReadStop e
           | (msg, None) \<Rightarrow>
               if int (length msg) > maxMessageSize
               then ReadStop (ErrorString ''websocket message too large'')
               else if typ = TextMessage then ReadParse msg else ReadSkip))"


section \<open>Backing off\<close>

text \<open>The wait after \<open>k\<close> doublings, in closed form.\<close>

definition backoff :: "nat \<Rightarrow> int" where
  "backoff k = min (initial_delay * 2 ^ k) (25 * Second)"

text \<open>
  The schedule as a specification: a round that connects starts again from the shortest
  wait, a round that does not waits as long as the failures before it say.
\<close>

fun backoff_plan :: "nat \<Rightarrow> bool list \<Rightarrow> int list" where
  "backoff_plan k [] = []"
| "backoff_plan k (connected # cs) =
     (if connected then backoff 0 # backoff_plan 1 cs else backoff k # backoff_plan (Suc k) cs)"

definition connects :: "'h header_ops \<Rightarrow> 'h attempt \<Rightarrow> bool" where
  "connects H a \<longleftrightarrow> snd (dial_attempt H a) = None"

fun waits :: "session_action list \<Rightarrow> int list" where
  "waits [] = []"
| "waits (Wait d # xs) = d # waits xs"
| "waits (_ # xs) = waits xs"

lemma waits_append [simp]: "waits (xs @ ys) = waits xs @ waits ys"
  by (induction xs rule: waits.induct) simp_all

lemma backoff_0: "backoff 0 = initial_delay"
  by (simp add: backoff_def initial_delay_def duration_defs)

lemma next_delay_backoff: "next_delay (backoff k) = backoff (Suc k)"
proof (cases "initial_delay * 2 ^ k < 25 * Second")
  case True
  have "i64 (x * 2) = x * 2" if "0 \<le> x" "x < 25 * Second" for x
    by (rule i64_id) (use that in \<open>simp_all add: duration_defs\<close>)
  from this [OF _ True] have "i64 (initial_delay * 2 ^ k * 2) = initial_delay * 2 ^ k * 2"
    by (simp add: initial_delay_def duration_defs)
  with True show ?thesis by (simp add: next_delay_def backoff_def Let_def)
next
  case False
  moreover from False have "25 * Second \<le> initial_delay * (2 * 2 ^ k)"
    by (simp add: duration_defs)
  ultimately show ?thesis by (simp add: next_delay_def backoff_def)
qed

lemma backoff_bounds: "initial_delay \<le> backoff k \<and> backoff k \<le> 25 * Second"
proof -
  have "initial_delay * 1 \<le> initial_delay * 2 ^ k"
    by (rule mult_left_mono) (simp_all add: initial_delay_def duration_defs)
  then show ?thesis by (simp add: backoff_def initial_delay_def duration_defs)
qed

lemma backoff_plan_bounds: "w \<in> set (backoff_plan k cs) \<Longrightarrow> initial_delay \<le> w \<and> w \<le> 25 * Second"
  by (induction k cs rule: backoff_plan.induct) (auto split: if_splits simp: backoff_bounds)

lemma dial_attempt_waits [simp]: "waits (fst (dial_attempt H a)) = []"
  by (simp add: dial_attempt_def Let_def split: sum.split)

text \<open>When a round ends the session, in terms of what it observes.\<close>

definition attempt_err :: "'h header_ops \<Rightarrow> 'h attempt \<Rightarrow> go_error option" where
  "attempt_err H a = (if connects H a then at_serve a else snd (dial_attempt H a))"

definition attempt_ends :: "'h header_ops \<Rightarrow> 'h attempt \<Rightarrow> bool" where
  "attempt_ends H a \<longleftrightarrow>
     at_ctx_head a \<noteq> None \<or> at_ctx_end a \<noteq> None \<or>
     attempt_err H a \<in> {Some (CloseError 1000), Some (CloseError 1008)} \<or> at_wait_cancelled a"

lemma session_over_iff:
  "session_over x e \<longleftrightarrow> x \<noteq> None \<or> e \<in> {Some (CloseError 1000), Some (CloseError 1008)}"
  by (cases "(e, [CloseNormalClosure, ClosePolicyViolation])" rule: IsCloseError.cases)
    (auto simp: session_over_def CloseNormalClosure_def ClosePolicyViolation_def)

lemma session_attempt_next:
  "snd (session_attempt H a d) =
     (if session_over (at_ctx_end a) (attempt_err H a) \<or> at_wait_cancelled a then None
      else Some (next_delay (if connects H a then initial_delay else d)))"
  by (cases "dial_attempt H a") (simp add: session_attempt_def Let_def attempt_err_def connects_def)

lemma session_attempt_waits:
  "waits (fst (session_attempt H a d)) =
     (if session_over (at_ctx_end a) (attempt_err H a) then []
      else [if connects H a then initial_delay else d])"
  using dial_attempt_waits [of H a]
  by (cases "dial_attempt H a")
    (auto simp: session_attempt_def Let_def attempt_err_def connects_def split: option.splits)

lemma session_loop_waits:
  "\<exists>n \<le> length as. waits (fst (session_loop H as (backoff k))) =
       take n (backoff_plan k (map (connects H) as)) \<and>
     (snd (session_loop H as (backoff k)) \<or> n = length as)"
proof (induction as arbitrary: k)
  case Nil
  then show ?case by simp
next
  case (Cons a as)
  let ?k = "if connects H a then 0 else k"
  obtain acts nd where at: "session_attempt H a (backoff k) = (acts, nd)" by fastforce
  note next_d = session_attempt_next [of H a "backoff k", unfolded at snd_conv]
  note wts = session_attempt_waits [of H a "backoff k", unfolded at fst_conv]
  show ?case
  proof (cases "at_ctx_head a \<noteq> None \<or> session_over (at_ctx_end a) (attempt_err H a)")
    case True
    then show ?thesis using at next_d wts by (intro exI [of _ 0]) auto
  next
    case False
    then have w: "waits acts = [backoff ?k]" using wts by (simp add: backoff_0)
    show ?thesis
    proof (cases nd)
      case None
      then show ?thesis using False at w by (intro exI [of _ 1]) auto
    next
      case (Some d)
      then have d: "d = backoff (Suc ?k)"
        using next_d by (auto simp flip: backoff_0 simp: next_delay_backoff split: if_splits)
      obtain more ret where rest: "session_loop H as (backoff (Suc ?k)) = (more, ret)" by fastforce
      obtain n where "n \<le> length as" "waits more = take n (backoff_plan (Suc ?k) (map (connects H) as))"
        "ret \<or> n = length as"
        using Cons.IH [of "Suc ?k"] unfolding rest by auto
      then show ?thesis
        using False at Some d w rest by (intro exI [of _ "Suc n"]) (auto simp del: backoff_plan.simps(1))
    qed
  qed
qed

lemma session_loop_returns: "snd (session_loop H as d) \<longleftrightarrow> (\<exists>a \<in> set as. attempt_ends H a)"
proof (induction as arbitrary: d)
  case Nil
  then show ?case by simp
next
  case (Cons a as)
  have "attempt_ends H a \<longleftrightarrow> at_ctx_head a \<noteq> None \<or> snd (session_attempt H a d) = None"
    by (auto simp: attempt_ends_def session_attempt_next session_over_iff)
  then show ?case
    by (cases "session_attempt H a d"; cases "snd (session_attempt H a d)")
      (simp_all add: Cons.IH split_beta Let_def)
qed

text \<open>Where the dials of a run come from.\<close>

lemma session_attempt_Dial:
  "Dial ep h \<in> set (fst (session_attempt H a d)) \<longleftrightarrow>
     dial_headers H a = Inr h \<and> ep = u_String (wsURL (at_client a))"
  by (cases "dial_headers H a")
    (auto simp: session_attempt_def dial_attempt_def Let_def split: option.splits)

lemma session_loop_Dial:
  "Dial ep h \<in> set (fst (session_loop H as d)) \<Longrightarrow>
     \<exists>a \<in> set as. at_ctx_head a = None \<and> dial_headers H a = Inr h \<and> ep = u_String (wsURL (at_client a))"
proof (induction as arbitrary: d)
  case Nil
  then show ?case by simp
next
  case (Cons a as)
  then show ?case
    using session_attempt_Dial [of ep h H a d]
    by (cases "session_attempt H a d"; cases "snd (session_attempt H a d)")
      (auto simp: split_beta Let_def split: if_splits)
qed

lemma canonical_X_Authority [simp]: "CanonicalHeaderKey ''X-Authority'' = ''X-Authority''"
  by code_simp

lemma dial_headers_signed:
  assumes "dial_headers H a = Inr h" "authoritySigner (at_client a) = Some signer"
  shows "\<exists>authority. CreateWSAuthorityV3 (at_nonce a) (at_now a) (Some (at_ctx_sign a))
      (authorityAddress (at_client a)) (Some signer) = Inr authority \<and>
    gm_get h = (gm_get (ws_headers H (at_client a)))(''X-Authority'' \<mapsto> [authority])"
  using assms
  by (auto simp: dial_headers_def hdr_Set_def gm.lookup_put Let_def split: sum.splits)

text \<open>Serving a queued message is the two steps of the queue's consumer.\<close>

lemma serve_send_steps:
  assumes "serving y = None" "\<not> exiting y" "ses_send (sess y) = b # q"
  shows "send_step\<^sup>*\<^sup>* y (y\<lparr>sess := fst (serve_select (OnSend r) (sess y)), written := written y @ [b]\<rparr>)"
proof -
  let ?y1 = "y\<lparr>sess := (sess y)\<lparr>ses_send := q\<rparr>, serving := Some b\<rparr>"
  have "send_step y ?y1" using assms by (rule send_step.receive)
  moreover have "send_step ?y1 (set_queued (i64 (ses_queuedBytes (sess ?y1) - int (length b)))
      (?y1\<lparr>serving := None, written := written ?y1 @ [b]\<rparr>))"
    by (rule send_step.frame_written) simp
  moreover have "set_queued (i64 (ses_queuedBytes (sess ?y1) - int (length b)))
      (?y1\<lparr>serving := None, written := written ?y1 @ [b]\<rparr>) =
    y\<lparr>sess := fst (serve_select (OnSend r) (sess y)), written := written y @ [b]\<rparr>"
    using assms by simp
  ultimately show ?thesis by (metis converse_rtranclp_into_rtranclp r_into_rtranclp)
qed


section \<open>Properties\<close>

text \<open>
  C16. A session reconnects with exponential back-off: the waits of a run are, in order, the
  planned ones, 100 ms doubled for every failed dial in a row up to 25 s, and 100 ms again
  after a connection was made; a run that has not returned has waited after every round.
\<close>

theorem runSession_backoff:
  "\<exists>n \<le> length as. waits (fst (runSession H as)) = take n (backoff_plan 0 (map (connects H) as)) \<and>
     (snd (runSession H as) \<or> n = length as)"
  using session_loop_waits [of as H 0] by (simp add: runSession_def backoff_0)

text \<open>
  C17. A session ends exactly when its context is cancelled (seen at the head of the loop,
  after the connection, or while waiting) or the peer closes with 1000 (normal closure) or
  1008 (policy violation); every other error leads to another round.
\<close>

theorem runSession_returns_iff:
  "snd (runSession H as) \<longleftrightarrow> (\<exists>a \<in> set as. attempt_ends H a)"
  unfolding runSession_def by (rule session_loop_returns)



text \<open>A round that connects without a signer, at which the property is applied.\<close>

definition example_attempt :: "(string \<times> string) list attempt" where
  "example_attempt = \<lparr>at_ctx_head = None, at_client = example_client, at_nonce = None, at_now = 0,
     at_ctx_sign = \<lparr>ctx_err_before = None, ctx_err_after = None\<rparr>, at_dial = (\<lambda>_ _. None),
     at_serve = Some (CloseError 1000), at_ctx_end = None, at_wait_cancelled = False\<rparr>"


text \<open>
  What the loop of \<^verbatim>\<open>serveConnection\<close> does with a queued message is what the
  consumer of the send queue does: the message leaves the head of the queue, is handed to
  the connection and gives its bytes back, whether or not the write succeeds.
\<close>

theorem serve_send_refines_queue:
  assumes "serving y = None" "\<not> exiting y" "ses_send (sess y) = b # q"
  shows "send_step\<^sup>*\<^sup>* y (y\<lparr>sess := fst (serve_select (OnSend r) (sess y)), written := written y @ [b]\<rparr>) \<and>
    snd (serve_select (OnSend r) (sess y)) = r"
  using serve_send_steps [OF assms] assms(3) by simp

theorem serve_send_refines_queue_witness:
  "\<exists>y. ses_send (sess y) = [[1]] \<and> send_step\<^sup>*\<^sup>* y
     (y\<lparr>sess := fst (serve_select (OnSend None) (sess y)), written := written y @ [[1]]\<rparr>)"
  using serve_send_refines_queue [of "lone_writer (fresh_session\<lparr>ses_send := [[1]]\<rparr>) (WReturned None) [[1]]" "[1]" "[]" None]
  by (intro exI [of _ "lone_writer (fresh_session\<lparr>ses_send := [[1]]\<rparr>) (WReturned None) [[1]]"])
    (simp add: lone_writer_def)

end
