(* ===== verification/Incoming.thy ===== *)
theory Incoming
  imports Session
begin

text \<open>
  What the client does with a message of the read node: \<^verbatim>\<open>parseIncoming\<close> and
  \<^verbatim>\<open>decodeTransaction\<close>, the three groups of callbacks, and \<^verbatim>\<open>dispatch\<close>, which
  starts a callback when one of the sixteen slots is free.
\<close>


section \<open>Callbacks and their slots\<close>

text \<open>
  The \<^verbatim>\<open>select\<close> of \<^verbatim>\<open>dispatch\<close> takes a ready case: the context is done, or a slot
  is free, possibly after some running callbacks have returned theirs.
\<close>

datatype dispatch_case = DispatchDone | DispatchSlot nat

definition dispatch_ctx_err :: "'h client \<Rightarrow> go_error option" where
  "dispatch_ctx_err c = (case session c of None \<Rightarrow> ctx_Err c | Some s \<Rightarrow> ses_ctx_err s)"

fun dispatch_ready :: "dispatch_case \<Rightarrow> 'h client \<Rightarrow> bool" where
  "dispatch_ready DispatchDone c = (dispatch_ctx_err c \<noteq> None)"
| "dispatch_ready (DispatchSlot freed) c =
     (freed \<le> callbackSlots c \<and> callbackSlots c - freed < callback_capacity)"

fun dispatch :: "dispatch_case \<Rightarrow> 'h client \<Rightarrow> bool \<times> 'h client" where
  "dispatch DispatchDone c = (False, c)"
| "dispatch (DispatchSlot freed) c = (True, c\<lparr>callbackSlots := callbackSlots c - freed + 1\<rparr>)"

text \<open>A callback that returns gives its slot back.\<close>

definition callback_returns :: "'h client \<Rightarrow> 'h client" where
  "callback_returns c = c\<lparr>callbackSlots := callbackSlots c - 1\<rparr>"

text \<open>What a callback is called with.\<close>

datatype payload =
    ToListener "Block option" "Transaction option"
  | ToErrorHandler go_error
  | ToRetriever

type_synonym invocation = "nat \<times> payload"

text \<open>
  The loop the three functions share: the registered callbacks in order, until the context
  is done. \<open>outs\<close> gives the case each dispatch takes; where it ends, the loop still waits.
\<close>

fun call_each ::
  "dispatch_case list \<Rightarrow> payload \<Rightarrow> nat list \<Rightarrow> 'h client \<Rightarrow> invocation list \<times> 'h client" where
  "call_each outs p [] c = ([], c)"
| "call_each [] p (f # fs) c = ([], c)"
| "call_each (out # outs) p (f # fs) c =
     (case dispatch out c of
        (False, c) \<Rightarrow> ([], c)
      | (True, c) \<Rightarrow> (let (inv, d) = call_each outs p fs c in ((f, p) # inv, d)))"

definition callListenCallbacks ::
  "dispatch_case list \<Rightarrow> Block option \<Rightarrow> Transaction option \<Rightarrow> 'h client \<Rightarrow> invocation list \<times> 'h client" where
  "callListenCallbacks outs block tx c = call_each outs (ToListener block tx) (listenCallbacks c) c"

definition callErrorCallbacks ::
  "dispatch_case list \<Rightarrow> go_error \<Rightarrow> 'h client \<Rightarrow> invocation list \<times> 'h client" where
  "callErrorCallbacks outs err c = call_each outs (ToErrorHandler err) (errorCallbacks c) c"

definition callRetrievers ::
  "dispatch_case list \<Rightarrow> 'h client \<Rightarrow> invocation list \<times> 'h client" where
  "callRetrievers outs c = call_each outs ToRetriever (retrieveCallbacks c) c"


section \<open>Messages of the read node\<close>

text \<open>
  The envelope struct: the raw fields, \<open>None\<close> when absent, and the optional state. A raw
  message holds the text of one value, so decoding it is decoding that value.
\<close>

record envelope =
  env_ID :: "jraw option"
  env_Type :: "jraw option"
  env_Data :: "jraw option"
  env_State :: "State option"

definition envelope_zero :: envelope where
  "envelope_zero = \<lparr>env_ID = None, env_Type = None, env_Data = None, env_State = None\<rparr>"

definition dec_RawMessage :: "jraw option decoder" where
  "dec_RawMessage v old = Some (Some v)"

definition envelope_fields :: "envelope fields" where
  "envelope_fields = [
     json_field ''id'' env_ID env_ID_update dec_RawMessage,
     json_field ''type'' env_Type env_Type_update dec_RawMessage,
     json_field ''data'' env_Data env_Data_update dec_RawMessage,
     json_field ''state'' env_State env_State_update (dec_ptr 0 dec_int)]"

definition dec_envelope :: "envelope decoder" where
  "dec_envelope = dec_struct envelope_fields"

text \<open>
  \<^verbatim>\<open>bytes.TrimSpace\<close> on ASCII text; the source applies it only to texts that were
  accepted as JSON, which begin and end in ASCII.
\<close>

definition is_space :: "char \<Rightarrow> bool" where
  "is_space c \<longleftrightarrow> (of_char c :: nat) \<in> {9, 10, 11, 12, 13, 32}"

definition TrimSpace :: "string \<Rightarrow> string" where
  "TrimSpace s = rev (dropWhile is_space (rev (dropWhile is_space s)))"

text \<open>The argument is the scanned value, \<open>None\<close> for a text that is not one JSON value.\<close>

definition decodeTransaction :: "jraw option \<Rightarrow> Transaction result" where
  "decodeTransaction raw =
     (case Option.bind raw (\<lambda>v. dec_Transaction v Transaction_zero) of
        None \<Rightarrow> Inl (ErrorString ''invalid transaction JSON'')
      | Some tx \<Rightarrow>
          (case tx_ID tx of
             JStr i \<Rightarrow> if i = [] then Inl (ErrorString ''invalid transaction id'') else Inr tx
           | _ \<Rightarrow> Inl (ErrorString ''invalid transaction id'')))"

definition missing_or_null :: "jraw option \<Rightarrow> bool" where
  "missing_or_null v \<longleftrightarrow> v = None \<or> v = Some RNull"

definition deliver_transaction ::
  "dispatch_case list \<Rightarrow> jraw option \<Rightarrow> 'h client \<Rightarrow> invocation list \<times> 'h client" where
  "deliver_transaction outs raw c =
     (case decodeTransaction raw of
        Inl err \<Rightarrow> callErrorCallbacks outs err c
      | Inr tx \<Rightarrow> callListenCallbacks outs None (Some tx) c)"

definition parseIncoming ::
  "dispatch_case list \<Rightarrow> string \<Rightarrow> 'h client \<Rightarrow> invocation list \<times> 'h client" where
  "parseIncoming outs raw c =
     (case Option.bind (json_Parse raw) (\<lambda>v. dec_envelope v envelope_zero) of
        None \<Rightarrow> callErrorCallbacks outs (ErrorString ''invalid websocket JSON'') c
      | Some envelope \<Rightarrow>
     if TrimSpace raw = ''null'' then callErrorCallbacks outs (ErrorString ''invalid websocket JSON'') c
     else if env_ID envelope \<noteq> None \<and> env_ID envelope \<noteq> Some RNull
     then deliver_transaction outs (json_Parse raw) c
     else
     (case (if missing_or_null (env_Type envelope) then None else dec_int (the (env_Type envelope)) 0) of
        None \<Rightarrow> callErrorCallbacks outs (ErrorString ''invalid websocket message type'') c
      | Some typ \<Rightarrow>
          if typ = 0 then
            (case (if missing_or_null (env_Data envelope) then None
                   else dec_Block (the (env_Data envelope)) Block_zero) of
               None \<Rightarrow> callErrorCallbacks outs (ErrorString ''invalid block message'') c
             | Some block \<Rightarrow> callListenCallbacks outs (Some block) None c)
          else if typ = 1 then deliver_transaction outs (env_Data envelope) c
          else if typ = 3 then
            (if env_State envelope = None \<or> env_State envelope \<noteq> Some OK
             then (let (inv, c) = callErrorCallbacks outs (ErrorString ''listen rejected'') c
                   in (inv, c\<lparr>session := map_option cancel_session (session c)\<rparr>))
             else ([], c))
          else if typ = 2 then
            (if env_State envelope = Some Fail
             then callErrorCallbacks outs (ErrorString ''subscription rejected'') c
             else ([], c))
          else callErrorCallbacks outs (ErrorString ''unknown websocket message type'') c))"


section \<open>Lemmas\<close>

text \<open>Each dispatch takes a case that is ready when it is reached.\<close>

fun cases_ready :: "dispatch_case list \<Rightarrow> nat list \<Rightarrow> 'h client \<Rightarrow> bool" where
  "cases_ready outs [] c = True"
| "cases_ready [] (f # fs) c = True"
| "cases_ready (out # outs) (f # fs) c =
     (dispatch_ready out c \<and> (fst (dispatch out c) \<longrightarrow> cases_ready outs fs (snd (dispatch out c))))"

lemma call_each_result:
  "\<exists>n k. call_each outs p fs c = (map (\<lambda>f. (f, p)) (take n fs), c\<lparr>callbackSlots := k\<rparr>)"
proof (induction fs arbitrary: outs c)
  case Nil
  then show ?case by (auto intro!: exI [of _ "callbackSlots c"])
next
  case (Cons f fs)
  consider (stop) "outs = [] \<or> (\<exists>r. outs = DispatchDone # r)" | (slot) n r where "outs = DispatchSlot n # r"
    by (metis dispatch_case.exhaust list.exhaust)
  then show ?case
  proof cases
    case stop
    then have "call_each outs p (f # fs) c =
        (map (\<lambda>f. (f, p)) (take 0 (f # fs)), c\<lparr>callbackSlots := callbackSlots c\<rparr>)" by auto
    then show ?thesis by blast
  next
    case (slot freed r)
    obtain n k where "call_each r p fs (c\<lparr>callbackSlots := callbackSlots c - freed + 1\<rparr>) =
        (map (\<lambda>f. (f, p)) (take n fs), c\<lparr>callbackSlots := callbackSlots c - freed + 1\<rparr>\<lparr>callbackSlots := k\<rparr>)"
      using Cons by blast
    with slot show ?thesis by (intro exI [of _ "Suc n"] exI [of _ k]) simp
  qed
qed

lemma call_each_slots:
  assumes "cases_ready outs fs c" "callbackSlots c \<le> callback_capacity"
  shows "callbackSlots (snd (call_each outs p fs c)) \<le> callback_capacity"
  using assms
proof (induction outs fs c rule: cases_ready.induct)
  case (3 out outs f fs c)
  then show ?case by (cases out) (auto simp: split_beta Let_def)
qed simp_all

text \<open>When enough slots come free every callback is started, in order.\<close>

lemma call_each_all:
  assumes "length fs \<le> length outs" "\<forall>out \<in> set outs. out \<noteq> DispatchDone"
  shows "fst (call_each outs p fs c) = map (\<lambda>f. (f, p)) fs"
  using assms
proof (induction outs p fs c rule: call_each.induct)
  case (3 out outs p f fs c)
  then show ?case by (cases out) (auto simp: split_beta Let_def)
qed simp_all

text \<open>A transaction that is delivered has a non-empty string as its identifier.\<close>

lemma decodeTransaction_Inr:
  "decodeTransaction raw = Inr tx \<Longrightarrow>
     (\<exists>v. raw = Some v \<and> dec_Transaction v Transaction_zero = Some tx) \<and> (\<exists>i. tx_ID tx = JStr i \<and> i \<noteq> [])"
  by (cases raw) (auto simp: decodeTransaction_def split: option.splits json.splits if_splits)

text \<open>The only message that ends the session: a listen acknowledgement that is not OK.\<close>

definition listen_rejected :: "string \<Rightarrow> bool" where
  "listen_rejected raw \<longleftrightarrow>
     (case Option.bind (json_Parse raw) (\<lambda>v. dec_envelope v envelope_zero) of
        None \<Rightarrow> False
      | Some e \<Rightarrow> TrimSpace raw \<noteq> ''null'' \<and> missing_or_null (env_ID e) \<and> \<not> missing_or_null (env_Type e) \<and>
          dec_int (the (env_Type e)) 0 = Some 3 \<and> env_State e \<noteq> Some OK)"

text \<open>What one message leads to: a group of callbacks with one payload, and the session.\<close>

definition well_formed_payload :: "payload \<Rightarrow> bool" where
  "well_formed_payload p = (case p of
     ToListener (Some b) None \<Rightarrow> Block_typed b
   | ToListener None (Some tx) \<Rightarrow> Transaction_typed tx \<and> (case tx_ID tx of JStr i \<Rightarrow> i \<noteq> [] | _ \<Rightarrow> False)
   | ToListener _ _ \<Rightarrow> False
   | ToErrorHandler _ \<Rightarrow> True
   | ToRetriever \<Rightarrow> False)"

definition payload_callbacks :: "payload \<Rightarrow> 'h client \<Rightarrow> nat list" where
  "payload_callbacks p c = (case p of
     ToListener _ _ \<Rightarrow> listenCallbacks c | ToErrorHandler _ \<Rightarrow> errorCallbacks c
   | ToRetriever \<Rightarrow> retrieveCallbacks c)"

definition outcome_ok ::
  "dispatch_case list \<Rightarrow> bool \<Rightarrow> 'h client \<Rightarrow> invocation list \<times> 'h client \<Rightarrow> bool" where
  "outcome_ok outs rej c r \<longleftrightarrow>
     (\<exists>p. well_formed_payload p \<and>
        fst r = fst (call_each outs p (payload_callbacks p c) c) \<and>
        snd r = (let d = snd (call_each outs p (payload_callbacks p c) c) in
                 if rej then d\<lparr>session := map_option cancel_session (session d)\<rparr> else d)) \<or>
     \<not> rej \<and> r = ([], c)"

lemma outcome_error: "outcome_ok outs False c (callErrorCallbacks outs e c)"
  unfolding outcome_ok_def
  by (intro disjI1 exI [of _ "ToErrorHandler e"])
    (simp add: well_formed_payload_def payload_callbacks_def callErrorCallbacks_def)

lemma outcome_block: "Block_typed b \<Longrightarrow> outcome_ok outs False c (callListenCallbacks outs (Some b) None c)"
  unfolding outcome_ok_def
  by (intro disjI1 exI [of _ "ToListener (Some b) None"])
    (simp add: well_formed_payload_def payload_callbacks_def callListenCallbacks_def)

lemma outcome_transaction: "outcome_ok outs False c (deliver_transaction outs raw c)"
proof (cases "decodeTransaction raw")
  case (Inl e)
  then show ?thesis by (simp add: deliver_transaction_def outcome_error)
next
  case (Inr tx)
  then have "well_formed_payload (ToListener None (Some tx))"
    using decodeTransaction_Inr [OF Inr] keepsD [OF keeps_Transaction zero_typed(3)]
    by (auto simp: well_formed_payload_def)
  with Inr show ?thesis unfolding outcome_ok_def
    by (intro disjI1 exI [of _ "ToListener None (Some tx)"])
      (simp add: payload_callbacks_def deliver_transaction_def callListenCallbacks_def)
qed

lemma outcome_rejected:
  "outcome_ok outs True c (let (inv, c) = callErrorCallbacks outs e c
     in (inv, c\<lparr>session := map_option cancel_session (session c)\<rparr>))"
  unfolding outcome_ok_def
  by (intro disjI1 exI [of _ "ToErrorHandler e"])
    (simp add: well_formed_payload_def payload_callbacks_def callErrorCallbacks_def split_beta Let_def)

lemma outcome_nothing: "outcome_ok outs False c ([], c)"
  by (simp add: outcome_ok_def)

lemmas outcomes = outcome_error outcome_block outcome_transaction outcome_rejected outcome_nothing

lemma parseIncoming_ok: "outcome_ok outs (listen_rejected raw) c (parseIncoming outs raw c)"
proof (cases "Option.bind (json_Parse raw) (\<lambda>v. dec_envelope v envelope_zero)")
  case None
  then show ?thesis by (simp add: parseIncoming_def listen_rejected_def outcome_error)
next
  case (Some e)
  have rej: "listen_rejected raw \<longleftrightarrow> TrimSpace raw \<noteq> ''null'' \<and> missing_or_null (env_ID e) \<and>
      \<not> missing_or_null (env_Type e) \<and> dec_int (the (env_Type e)) 0 = Some 3 \<and> env_State e \<noteq> Some OK"
    using Some by (simp add: listen_rejected_def)
  show ?thesis
  proof (cases "TrimSpace raw \<noteq> ''null'' \<and> missing_or_null (env_ID e) \<and> \<not> missing_or_null (env_Type e)")
    case False
    then have "\<not> listen_rejected raw" using rej by blast
    with False Some show ?thesis by (auto simp: parseIncoming_def missing_or_null_def outcomes)
  next
    case True
    then have i: "\<not> (env_ID e \<noteq> None \<and> env_ID e \<noteq> Some RNull)" by (auto simp: missing_or_null_def)
    show ?thesis
    proof (cases "dec_int (the (env_Type e)) 0")
      case None
      with True i Some rej show ?thesis by (auto simp: parseIncoming_def outcomes)
    next
      case ty: (Some t)
      show ?thesis
        using outcome_rejected [of outs c "ErrorString ''listen rejected''"]
        unfolding rej using True i Some ty
        by (cases "missing_or_null (env_Data e)"; cases "dec_Block (the (env_Data e)) Block_zero")
          (auto simp: parseIncoming_def outcomes keepsD [OF keeps_Block zero_typed(4)])
    qed
  qed
qed

lemma client_inv_call_each:
  assumes "client_inv c" "cases_ready outs fs c"
  shows "client_inv (snd (call_each outs p fs c))"
proof -
  obtain n k where r: "call_each outs p fs c = (map (\<lambda>f. (f, p)) (take n fs), c\<lparr>callbackSlots := k\<rparr>)"
    using call_each_result [of outs p fs c] by blast
  then have "k \<le> callback_capacity"
    using call_each_slots [OF assms(2), of p] assms(1) by (simp add: client_inv_def)
  with r assms(1) show ?thesis by (simp add: client_inv_def subs_inv_def)
qed

lemma outcome_invocations:
  assumes "outcome_ok outs rej c r"
  obtains p n where "fst r = map (\<lambda>f. (f, p)) (take n (payload_callbacks p c))" "well_formed_payload p"
    "\<exists>k. snd r = (if rej then c\<lparr>callbackSlots := k, session := map_option cancel_session (session c)\<rparr>
                 else c\<lparr>callbackSlots := k\<rparr>)"
proof -
  have "\<exists>p n k. fst r = map (\<lambda>f. (f, p)) (take n (payload_callbacks p c)) \<and> well_formed_payload p \<and>
    snd r = (if rej then c\<lparr>callbackSlots := k, session := map_option cancel_session (session c)\<rparr>
             else c\<lparr>callbackSlots := k\<rparr>)"
    using assms unfolding outcome_ok_def
  proof (elim disjE exE conjE)
    fix p assume p: "well_formed_payload p" "fst r = fst (call_each outs p (payload_callbacks p c) c)"
      "snd r = (let d = snd (call_each outs p (payload_callbacks p c) c) in
         if rej then d\<lparr>session := map_option cancel_session (session d)\<rparr> else d)"
    obtain n k where "call_each outs p (payload_callbacks p c) c =
        (map (\<lambda>f. (f, p)) (take n (payload_callbacks p c)), c\<lparr>callbackSlots := k\<rparr>)"
      using call_each_result [of outs p "payload_callbacks p c" c] by blast
    with p show ?thesis by (intro exI [of _ p] exI [of _ n] exI [of _ k]) simp
  next
    assume "\<not> rej" "r = ([], c)"
    then show ?thesis
      by (intro exI [of _ "ToErrorHandler Canceled"] exI [of _ 0] exI [of _ "callbackSlots c"])
        (simp add: well_formed_payload_def)
  qed
  then show ?thesis using that by blast
qed


section \<open>Properties\<close>


text \<open>Every dispatch that a message may lead to takes a ready case.\<close>

definition incoming_ready :: "dispatch_case list \<Rightarrow> 'h client \<Rightarrow> bool" where
  "incoming_ready outs c \<longleftrightarrow> cases_ready outs (listenCallbacks c) c \<and> cases_ready outs (errorCallbacks c) c"

lemma client_inv_outcome:
  assumes "outcome_ok outs rej c r" "client_inv c" "incoming_ready outs c"
  shows "client_inv (snd r)"
proof (cases "r = ([], c)")
  case True
  then show ?thesis using assms(2) by simp
next
  case False
  then obtain p where p: "well_formed_payload p"
    "snd r = (let d = snd (call_each outs p (payload_callbacks p c) c) in
       if rej then d\<lparr>session := map_option cancel_session (session d)\<rparr> else d)"
    using assms(1) by (auto simp: outcome_ok_def)
  then have "payload_callbacks p c = listenCallbacks c \<or> payload_callbacks p c = errorCallbacks c"
    by (auto simp: well_formed_payload_def payload_callbacks_def split: payload.splits)
  then have "cases_ready outs (payload_callbacks p c) c"
    using assms(3) by (auto simp: incoming_ready_def)
  from client_inv_call_each [OF assms(2) this, of p]
  have "client_inv (snd (call_each outs p (payload_callbacks p c) c))" (is "client_inv ?d") .
  with client_inv_cong [OF this, of "?d\<lparr>session := map_option cancel_session (session ?d)\<rparr>"] p(2)
  show ?thesis by (simp add: Let_def)
qed



end
