(* ===== verification/Lifecycle.thy ===== *)
theory Lifecycle
  imports Incoming
begin

text \<open>
  The whole client as a transition system: the methods a caller may invoke at any time
  (\<open>api_step\<close>) and the goroutine of the session (\<open>session_step\<close>), which is the
  control flow of \<^verbatim>\<open>runSession\<close> and \<^verbatim>\<open>serveConnection\<close> with one step per
  access to shared state. A step runs under the client's mutex or touches only the
  goroutine's own variables, so the interleavings of these steps are those of the program.
\<close>


section \<open>State\<close>

text \<open>
  Where the session's goroutine is: no session; at the head of the loop of
  \<^verbatim>\<open>runSession\<close>; dialling; at the head of the loop of \<^verbatim>\<open>serveConnection\<close>; with the
  current revision loaded; in its \<^verbatim>\<open>select\<close>; with the connection lost to an error;
  waiting before the next round; in the deferred clean-up; finished. The integer is the
  current back-off delay.
\<close>

datatype session_pc =
    NoSession
  | AtLoop int
  | Dialing int
  | AtHead int
  | Loaded int uint64
  | Selecting int
  | Broken int go_error
  | Waiting int
  | Leaving
  | Finished

text \<open>
  \<open>kn\<close> is what the connection remembers and \<open>node\<close> the peer's view of it. Two
  counters are not in the program: \<open>changes\<close> numbers the changes of the subscription
  and \<open>synced\<close> is that number at the last synchronisation; the program's own counter is
  \<open>changes\<close> modulo 2^64.
\<close>

record 'h sys =
  cl :: "'h client"
  pc :: session_pc
  kn :: conn
  node :: peer
  changes :: nat
  synced :: nat

fun connected :: "session_pc \<Rightarrow> bool" where
  "connected (AtHead _) = True"
| "connected (Loaded _ _) = True"
| "connected (Selecting _) = True"
| "connected _ = False"

fun pc_delay :: "session_pc \<Rightarrow> int option" where
  "pc_delay (AtLoop d) = Some d"
| "pc_delay (Dialing d) = Some d"
| "pc_delay (AtHead d) = Some d"
| "pc_delay (Loaded d _) = Some d"
| "pc_delay (Selecting d) = Some d"
| "pc_delay (Broken d _) = Some d"
| "pc_delay (Waiting d) = Some d"
| "pc_delay _ = None"


section \<open>Steps of callers\<close>

text \<open>The methods that change neither the subscription nor the session.\<close>

inductive config_step :: "'h client \<Rightarrow> 'h client \<Rightarrow> bool" where
  "config_step c (WithProxy p c)"
| "config_step c (WithLogger l c)"
| "config_step c (SetVerbose v c)"
| "config_step c (SetListenCallback f c)"
| "config_step c (AddListenCallback f c)"
| "config_step c (AddRetrieveCallback f c)"
| "config_step c (AddErrorCallback f c)"
| "config_step c (AddHeader H k w c)"
| "config_step c (RemoveHeader H k c)"
| "config_step c (AddWSHeader H k w c)"
| "config_step c (RemoveWSHeader H k c)"
| "config_step c (snd (WithWSAuthority a sg c))"

text \<open>The end of the context the client was made with: it ends the session's context too.\<close>

definition parent_cancel :: "go_error \<Rightarrow> 'h client \<Rightarrow> 'h client" where
  "parent_cancel e c =
     (let c = c\<lparr>ctx_Err := (case ctx_Err c of None \<Rightarrow> Some e | Some x \<Rightarrow> Some x)\<rparr>
      in c\<lparr>session := map_option
            (\<lambda>s. s\<lparr>ses_ctx_err := (case ses_ctx_err s of None \<Rightarrow> Some e | Some x \<Rightarrow> Some x)\<rparr>) (session c)\<rparr>)"

definition bump :: "go_error option \<Rightarrow> nat \<Rightarrow> nat" where
  "bump r n = (if r = None then n + 1 else n)"

inductive api_step :: "'h sys \<Rightarrow> 'h sys \<Rightarrow> bool" where
  start: "Start (cl y) = (None, d) \<Longrightarrow> api_step y (y\<lparr>cl := d, pc := AtLoop initial_delay\<rparr>)"
| stop_request: "api_step y (y\<lparr>cl := Stop_request (cl y)\<rparr>)"
| stop_complete: "session (cl y) = Some s \<Longrightarrow> ses_done s \<Longrightarrow>
    api_step y (y\<lparr>cl := Stop_complete (cl y), pc := NoSession, changes := changes y + 1\<rparr>)"
| subscribe: "Subscribe as sd ts (cl y) = (r, d) \<Longrightarrow>
    api_step y (y\<lparr>cl := d, changes := bump r (changes y)\<rparr>)"
| unsubscribe: "Unsubscribe (cl y) = (r, d) \<Longrightarrow>
    api_step y (y\<lparr>cl := d, changes := bump r (changes y)\<rparr>)"
| with_mode: "api_step y (y\<lparr>cl := WithMode m (cl y), changes := changes y + 1\<rparr>)"
| config: "config_step (cl y) d \<Longrightarrow> api_step y (y\<lparr>cl := d\<rparr>)"
| enqueue: "Write sel b (cl y) = (r, d) \<Longrightarrow> api_step y (y\<lparr>cl := d\<rparr>)"
| parent: "api_step y (y\<lparr>cl := parent_cancel e (cl y)\<rparr>)"
| callback_end: "callbackSlots (cl y) > 0 \<Longrightarrow> api_step y (y\<lparr>cl := callback_returns (cl y)\<rparr>)"


section \<open>Steps of the session's goroutines\<close>

inductive session_step :: "'h sys \<Rightarrow> 'h sys \<Rightarrow> bool" where
  loop_exit: "pc y = AtLoop d \<Longrightarrow> session (cl y) = Some s \<Longrightarrow> ses_ctx_err s \<noteq> None \<Longrightarrow>
    session_step y (y\<lparr>pc := Leaving\<rparr>)"
| loop_go: "pc y = AtLoop d \<Longrightarrow> session (cl y) = Some s \<Longrightarrow> ses_ctx_err s = None \<Longrightarrow>
    cases_ready outs (retrieveCallbacks (cl y)) (cl y) \<Longrightarrow>
    session_step y (y\<lparr>cl := snd (callRetrievers outs (cl y)), pc := Dialing d\<rparr>)"
| dial_ok: "pc y = Dialing d \<Longrightarrow>
    session_step y (y\<lparr>pc := AtHead initial_delay, kn := conn_new, node := peer_none\<rparr>)"
| dial_failed: "pc y = Dialing d \<Longrightarrow> session_step y (y\<lparr>pc := Broken d e\<rparr>)"
| load: "pc y = AtHead d \<Longrightarrow>
    session_step y (y\<lparr>pc := Loaded d (subscriptionRevision (cl y))\<rparr>)"
| sync: "pc y = Loaded d current \<Longrightarrow> serve_sync (\<lambda>_. None) current (cl y) (kn y) = (sent, Inr k) \<Longrightarrow>
    session_step y (y\<lparr>pc := Selecting d, kn := k, node := fold peer_apply sent (node y),
      synced := (if first (kn y) \<or> revision (kn y) \<noteq> current then changes y else synced y)\<rparr>)"
| sync_failed: "pc y = Loaded d current \<Longrightarrow> serve_sync wr current (cl y) (kn y) = (sent, Inl e) \<Longrightarrow>
    session_step y (y\<lparr>pc := Broken d e\<rparr>)"
| select_go: "pc y = Selecting d \<Longrightarrow> session (cl y) = Some s \<Longrightarrow> serve_ready ev s \<Longrightarrow>
    serve_select ev s = (s', None) \<Longrightarrow>
    session_step y (y\<lparr>cl := (cl y)\<lparr>session := Some s'\<rparr>, pc := AtHead d\<rparr>)"
| select_end: "pc y = Selecting d \<Longrightarrow> session (cl y) = Some s \<Longrightarrow> serve_ready ev s \<Longrightarrow>
    serve_select ev s = (s', Some e) \<Longrightarrow>
    session_step y (y\<lparr>cl := (cl y)\<lparr>session := Some s'\<rparr>, pc := Broken d e\<rparr>)"
| incoming: "connected (pc y) \<Longrightarrow> incoming_ready outs (cl y) \<Longrightarrow>
    session_step y (y\<lparr>cl := snd (parseIncoming outs raw (cl y))\<rparr>)"
| over: "pc y = Broken d e \<Longrightarrow> session (cl y) = Some s \<Longrightarrow> session_over (ses_ctx_err s) (Some e) \<Longrightarrow>
    session_step y (y\<lparr>pc := Leaving\<rparr>)"
| report: "pc y = Broken d e \<Longrightarrow> session (cl y) = Some s \<Longrightarrow> \<not> session_over (ses_ctx_err s) (Some e) \<Longrightarrow>
    cases_ready outs (errorCallbacks (cl y)) (cl y) \<Longrightarrow>
    session_step y (y\<lparr>cl := snd (callErrorCallbacks outs e (cl y)), pc := Waiting d\<rparr>)"
| wait_cancelled: "pc y = Waiting d \<Longrightarrow> session (cl y) = Some s \<Longrightarrow> ses_ctx_err s \<noteq> None \<Longrightarrow>
    session_step y (y\<lparr>pc := Leaving\<rparr>)"
| wait_over: "pc y = Waiting d \<Longrightarrow> session_step y (y\<lparr>pc := AtLoop (next_delay d)\<rparr>)"
| cleanup: "pc y = Leaving \<Longrightarrow> session (cl y) = Some s \<Longrightarrow>
    session_step y (y\<lparr>cl := (cl y)\<lparr>session := Some (session_cleanup s)\<rparr>, pc := Finished\<rparr>)"

definition sys_step :: "'h sys \<Rightarrow> 'h sys \<Rightarrow> bool" where
  "sys_step y z \<longleftrightarrow> api_step y z \<or> session_step y z"

text \<open>The system starts with a client that was constructed and never started.\<close>

definition sys_init :: "'h sys \<Rightarrow> bool" where
  "sys_init y \<longleftrightarrow>
     (\<exists>E ctx addr wsAddr cName cVersion insecure fp cert.
        newClient E ctx addr wsAddr cName cVersion insecure fp cert = Inr (cl y)) \<and>
     pc y = NoSession \<and> changes y = 0"


section \<open>The invariant\<close>

text \<open>The client invariant and the correspondence between session and goroutine.\<close>

definition session_state :: "'h client \<Rightarrow> bool option" where
  "session_state c = map_option ses_done (session c)"

fun pc_state :: "session_pc \<Rightarrow> bool option" where
  "pc_state NoSession = None"
| "pc_state Finished = Some True"
| "pc_state _ = Some False"

definition life_inv :: "'h sys \<Rightarrow> bool" where
  "life_inv y \<longleftrightarrow> client_inv (cl y) \<and> session_state (cl y) = pc_state (pc y) \<and>
     (\<forall>d. pc_delay (pc y) = Some d \<longrightarrow> (\<exists>k. d = backoff k))"

definition notified :: "'h client \<Rightarrow> bool" where
  "notified c \<longleftrightarrow> (case session c of None \<Rightarrow> False | Some s \<Rightarrow> ses_subscriptions s)"

text \<open>
  What the connection remembers is what the peer has; unless the subscription has changed
  since, that is what is wanted; and a change that the goroutine has not seen has left a
  notification in the channel.
\<close>

definition conn_inv :: "'h sys \<Rightarrow> bool" where
  "conn_inv y \<longleftrightarrow>
     subscriptionRevision (cl y) = of_nat (changes y) \<and>
     (connected (pc y) \<longrightarrow>
        peer_addrs (node y) = set (slice_elems (previous (kn y))) \<and>
        peer_listen (node y) = wasListening (kn y) \<and> peer_settle (node y) = node y \<and>
        (\<not> first (kn y) \<longrightarrow>
           synced y \<le> changes y \<and> revision (kn y) = of_nat (synced y) \<and>
           (synced y = changes y \<longrightarrow> node y = peer_wanted (cl y)))) \<and>
     (\<forall>d current. pc y = Loaded d current \<longrightarrow>
        (\<exists>n \<le> changes y. current = of_nat n \<and> (n < changes y \<longrightarrow> notified (cl y)))) \<and>
     (\<forall>d. pc y = Selecting d \<longrightarrow> \<not> first (kn y) \<and>
        (changes y < 2 ^ 64 \<longrightarrow> synced y < changes y \<longrightarrow> notified (cl y)))"

definition sys_inv :: "'h sys \<Rightarrow> bool" where
  "sys_inv y \<longleftrightarrow> life_inv y \<and> conn_inv y"



section \<open>Every step keeps the invariant\<close>

text \<open>
  Two kinds of client steps: one that leaves the subscription and the existence of the
  session alone, and one that changes the subscription, counts it and leaves a notification.
\<close>

definition same_view :: "'h client \<Rightarrow> 'h client \<Rightarrow> bool" where
  "same_view c d \<longleftrightarrow> session_state d = session_state c \<and>
     subscriptionRevision d = subscriptionRevision c \<and> peer_wanted d = peer_wanted c \<and>
     notified d = notified c"

definition changed_view :: "'h client \<Rightarrow> 'h client \<Rightarrow> bool" where
  "changed_view c d \<longleftrightarrow> session_state d = session_state c \<and>
     subscriptionRevision d = subscriptionRevision c + 1 \<and> (session d \<noteq> None \<longrightarrow> notified d)"

text \<open>What is wanted of the peer depends on five fields of the client only.\<close>

lemma peer_wanted_cong:
  assumes "mode d = mode c" "subscribedAddresses d = subscribedAddresses c"
    "subscribedSignedData d = subscribedSignedData c" "subscribedTypes d = subscribedTypes c"
    "clientInstanceID d = clientInstanceID c"
  shows "peer_wanted d = peer_wanted c"
proof -
  have "signature_of d = signature_of c" "desired d = desired c"
    using assms by (simp_all add: fun_eq_iff signature_of_def desired_def)
  then show ?thesis using assms by (simp add: peer_wanted_def cong: if_cong)
qed

lemma peer_wanted_unrelated [simp]:
  "peer_wanted (c\<lparr>session := s\<rparr>) = peer_wanted c"
  "peer_wanted (c\<lparr>callbackSlots := k\<rparr>) = peer_wanted c"
  "peer_wanted (c\<lparr>ctx_Err := e\<rparr>) = peer_wanted c"
  by (rule peer_wanted_cong; simp)+

lemma same_view_refl [simp]: "same_view c c"
  by (simp add: same_view_def)

lemma same_view_slots: "same_view c (c\<lparr>callbackSlots := k\<rparr>)"
  by (simp add: same_view_def session_state_def notified_def)

lemma same_view_session:
  assumes "session c = Some s" "ses_done s' = ses_done s" "ses_subscriptions s' = ses_subscriptions s"
  shows "same_view c (c\<lparr>session := Some s'\<rparr>)"
  using assms by (simp add: same_view_def session_state_def notified_def)

lemma same_view_cancel: "same_view c (c\<lparr>callbackSlots := k, session := map_option cancel_session (session c)\<rparr>)"
  by (cases "session c") (simp_all add: same_view_def session_state_def notified_def)

lemma same_view_config: "config_step c d \<Longrightarrow> same_view c d"
  by (induction rule: config_step.induct)
    (auto simp: same_view_def session_state_def notified_def client_defs Let_def
      intro: peer_wanted_cong split: option.splits)

lemma same_view_Stop_request: "same_view c (Stop_request c)"
  by (auto simp: Stop_request_def split: option.split intro!: same_view_session)

lemma same_view_Write: "Write sel b c = (r, d) \<Longrightarrow> same_view c d"
  by (auto simp: Write_def Let_def split: if_splits option.splits select_case.splits
      intro!: same_view_session simp del: i64_small i64_id)

lemma same_view_parent: "same_view c (parent_cancel e c)"
  by (cases "session c")
    (simp_all add: same_view_def session_state_def notified_def
      parent_cancel_def Let_def)

lemma same_view_call_each: "same_view c (snd (call_each outs p fs c))"
  using call_each_result [of outs p fs c] same_view_slots by (metis snd_conv)

lemma same_view_incoming: "same_view c (snd (parseIncoming outs raw c))"
  by (rule outcome_invocations [OF parseIncoming_ok [of outs raw c]])
    (auto simp: same_view_slots same_view_cancel split: if_splits)

lemma same_view_callback_returns: "same_view c (callback_returns c)"
  unfolding callback_returns_def by (rule same_view_slots)

lemma notified_notify: "session (notifySubscriptionLocked c) \<noteq> None \<Longrightarrow> notified (notifySubscriptionLocked c)"
  by (cases "session c") (simp_all add: notified_def)

lemma session_state_notify: "session_state (notifySubscriptionLocked c) = session_state c"
  by (cases "session c") (simp_all add: session_state_def)

lemma changed_view_notify:
  "session_state d = session_state c \<Longrightarrow> subscriptionRevision d = subscriptionRevision c + 1 \<Longrightarrow>
     changed_view c (notifySubscriptionLocked d)"
  by (simp add: changed_view_def session_state_notify notified_notify)

lemma changed_view_WithMode: "changed_view c (WithMode m c)"
  unfolding WithMode_def Let_def by (rule changed_view_notify) (simp_all add: session_state_def)

lemma changed_view_Subscribe:
  "Subscribe as sd ts c = (r, d) \<Longrightarrow> if r = None then changed_view c d else d = c"
  by (auto simp: Subscribe_def Let_def merge_addresses_eq session_state_def
      split: if_splits option.splits intro!: changed_view_notify)

lemma changed_view_Unsubscribe:
  "Unsubscribe c = (r, d) \<Longrightarrow> if r = None then changed_view c d else d = c"
  by (auto simp: Unsubscribe_def Let_def session_state_def
      split: if_splits option.splits intro!: changed_view_notify)

lemma sys_inv_same:
  assumes "sys_inv y" "same_view (cl y) d" "client_inv d"
  shows "sys_inv (y\<lparr>cl := d\<rparr>)"
  using assms unfolding sys_inv_def life_inv_def conn_inv_def same_view_def by simp

lemma changed_notified:
  assumes "life_inv y" "changed_view (cl y) d" "pc y \<noteq> NoSession"
  shows "notified d"
  using assms unfolding life_inv_def changed_view_def session_state_def by (cases "pc y") auto

lemma sys_inv_changed:
  assumes "sys_inv y" "changed_view (cl y) d" "client_inv d"
  shows "sys_inv (y\<lparr>cl := d, changes := changes y + 1\<rparr>)"
proof -
  let ?z = "y\<lparr>cl := d, changes := changes y + 1\<rparr>"
  have l: "life_inv y" and c: "conn_inv y" using assms(1) by (simp_all add: sys_inv_def)
  note n = changed_notified [OF l assms(2)]
  have "life_inv ?z" using l assms(2,3) by (simp add: life_inv_def changed_view_def)
  moreover have "subscriptionRevision (cl ?z) = of_nat (changes ?z)"
    using c assms(2) by (simp add: conn_inv_def changed_view_def)
  moreover have "\<exists>n \<le> changes ?z. current = of_nat n \<and> (n < changes ?z \<longrightarrow> notified (cl ?z))"
    if pc: "pc y = Loaded b current" for b current
  proof -
    obtain m where "m \<le> changes y" "current = of_nat m" using c pc unfolding conn_inv_def by metis
    then show ?thesis using n pc by (intro exI [of _ m]) simp
  qed
  moreover have "notified (cl ?z)" if "pc y = Selecting b" for b using n that by simp
  moreover have "connected (pc y) \<longrightarrow> \<not> first (kn y) \<longrightarrow>
      synced y \<le> Suc (changes y) \<and> (synced y = Suc (changes y) \<longrightarrow> node y = peer_wanted d)"
    using c unfolding conn_inv_def by auto
  ultimately show ?thesis
    using c unfolding sys_inv_def conn_inv_def by simp
qed

lemma sys_inv_bump:
  assumes "sys_inv y" "if r = None then changed_view (cl y) d else d = cl y" "client_inv d"
  shows "sys_inv (y\<lparr>cl := d, changes := bump r (changes y)\<rparr>)"
  using assms sys_inv_changed [OF assms(1)] by (cases r) (simp_all add: bump_def)

lemma client_inv_Write: "client_inv c \<Longrightarrow> Write sel b c = (r, d) \<Longrightarrow> client_inv d"
  by (auto simp: Write_def Let_def split: if_splits option.splits select_case.splits
      elim!: client_inv_cong simp del: i64_small i64_id)

lemma client_inv_config_step: "config_step c d \<Longrightarrow> client_inv c \<Longrightarrow> client_inv d"
  by (induction rule: config_step.induct) (simp_all add: client_inv_config)

lemma client_inv_parent: "client_inv c \<Longrightarrow> client_inv (parent_cancel e c)"
  by (auto simp: parent_cancel_def Let_def elim!: client_inv_cong)

lemma client_inv_callback_returns: "client_inv c \<Longrightarrow> client_inv (callback_returns c)"
  by (auto simp: callback_returns_def client_inv_def subs_inv_def)

lemma Start_None:
  assumes "Start c = (None, d)"
  shows "d = c\<lparr>session := Some fresh_session\<rparr> \<and> session_state c \<noteq> Some False"
  using assms by (auto simp: Start_def session_state_def split: if_splits option.splits)

lemma sys_inv_start:
  assumes "sys_inv y" "Start (cl y) = (None, d)"
  shows "sys_inv (y\<lparr>cl := d, pc := AtLoop initial_delay\<rparr>)"
proof -
  have "client_inv d"
    using client_inv_Start [of "cl y"] assms by (simp add: sys_inv_def life_inv_def)
  moreover have "session_state d = Some False"
    using Start_None [OF assms(2)] by (simp add: session_state_def fresh_session_def)
  moreover have "subscriptionRevision d = subscriptionRevision (cl y)"
    using Start_None [OF assms(2)] by simp
  ultimately show ?thesis
    using assms(1) backoff_0 by (auto simp: sys_inv_def life_inv_def conn_inv_def intro: exI [of _ 0])
qed

lemma sys_inv_stop:
  assumes "sys_inv y"
  shows "sys_inv (y\<lparr>cl := Stop_complete (cl y), pc := NoSession, changes := changes y + 1\<rparr>)"
  using assms client_inv_Stop_complete [of "cl y"]
  by (auto simp: sys_inv_def life_inv_def conn_inv_def session_state_def Stop_complete_def Let_def)

lemma sys_inv_api:
  assumes "api_step y z" "sys_inv y"
  shows "sys_inv z"
proof -
  have inv: "client_inv (cl y)" using assms(2) by (simp add: sys_inv_def life_inv_def)
  from assms(1) show ?thesis
  proof cases
    case (start d)
    then show ?thesis using sys_inv_start assms(2) by blast
  next
    case stop_request
    then show ?thesis
      using sys_inv_same [OF assms(2) same_view_Stop_request client_inv_Stop_request [OF inv]] by simp
  next
    case (stop_complete s)
    then show ?thesis using sys_inv_stop [OF assms(2)] by simp
  next
    case (subscribe as sd ts r d)
    then show ?thesis
      using sys_inv_bump [OF assms(2) changed_view_Subscribe] client_inv_Subscribe [OF inv, of as sd ts] by simp
  next
    case (unsubscribe r d)
    then show ?thesis
      using sys_inv_bump [OF assms(2) changed_view_Unsubscribe] client_inv_Unsubscribe [OF inv] by simp
  next
    case (with_mode m)
    then show ?thesis
      using sys_inv_changed [OF assms(2) changed_view_WithMode client_inv_config(1) [OF inv]] by simp
  next
    case (config d)
    then show ?thesis
      using sys_inv_same [OF assms(2) same_view_config client_inv_config_step [OF _ inv]] by simp
  next
    case (enqueue sel b r d)
    then show ?thesis
      using sys_inv_same [OF assms(2) same_view_Write client_inv_Write [OF inv]] by blast
  next
    case (parent e)
    then show ?thesis
      using sys_inv_same [OF assms(2) same_view_parent client_inv_parent [OF inv]] by simp
  next
    case callback_end
    then show ?thesis
      using sys_inv_same [OF assms(2) same_view_callback_returns client_inv_callback_returns [OF inv]]
      by simp
  qed
qed

text \<open>The goroutine moves to a point where it promises nothing about the peer that it did not before.\<close>

definition quiet_pc :: "session_pc \<Rightarrow> bool" where
  "quiet_pc p \<longleftrightarrow> (\<forall>d c. p \<noteq> Loaded d c) \<and> (\<forall>d. p \<noteq> Selecting d)"

lemma quiet_pc_simps [simp]:
  "quiet_pc NoSession" "quiet_pc (AtLoop d)" "quiet_pc (Dialing d)" "quiet_pc (AtHead d)"
  "quiet_pc (Broken d e)" "quiet_pc (Waiting d)" "quiet_pc Leaving" "quiet_pc Finished"
  by (simp_all add: quiet_pc_def)

lemma sys_inv_move:
  assumes "sys_inv y" "client_inv d" "session_state d = pc_state p" "quiet_pc p"
    and "subscriptionRevision d = subscriptionRevision (cl y)" "peer_wanted d = peer_wanted (cl y)"
    and "connected p \<Longrightarrow> connected (pc y)" "\<And>b. pc_delay p = Some b \<Longrightarrow> \<exists>k. b = backoff k"
  shows "sys_inv (y\<lparr>cl := d, pc := p\<rparr>)"
proof -
  have "life_inv (y\<lparr>cl := d, pc := p\<rparr>)" using assms by (simp add: life_inv_def)
  moreover have "conn_inv (y\<lparr>cl := d, pc := p\<rparr>)"
    using assms unfolding sys_inv_def conn_inv_def quiet_pc_def by simp
  ultimately show ?thesis by (simp add: sys_inv_def)
qed

lemma sys_inv_pc:
  assumes "sys_inv y" "pc_state p = pc_state (pc y)" "quiet_pc p"
    and "connected p \<Longrightarrow> connected (pc y)" "\<And>b. pc_delay p = Some b \<Longrightarrow> \<exists>k. b = backoff k"
  shows "sys_inv (y\<lparr>pc := p\<rparr>)"
  using sys_inv_move [of y "cl y" p] assms by (simp add: sys_inv_def life_inv_def)

lemma sys_inv_delay: "sys_inv y \<Longrightarrow> pc_delay (pc y) = Some d \<Longrightarrow> \<exists>k. d = backoff k"
  by (simp add: sys_inv_def life_inv_def)

lemma sys_inv_connect:
  assumes "sys_inv y" "pc_state (pc y) = Some False"
  shows "sys_inv (y\<lparr>pc := AtHead initial_delay, kn := conn_new, node := peer_none\<rparr>)"
proof -
  have "life_inv (y\<lparr>pc := AtHead initial_delay, kn := conn_new, node := peer_none\<rparr>)"
    using assms backoff_0 by (auto simp: sys_inv_def life_inv_def intro: exI [of _ 0])
  with assms(1) show ?thesis
    by (simp add: sys_inv_def conn_inv_def conn_new_def peer_none_def peer_addrs_def peer_settle_def)
qed

lemma sys_inv_load:
  assumes "sys_inv y" "pc y = AtHead d"
  shows "sys_inv (y\<lparr>pc := Loaded d (subscriptionRevision (cl y))\<rparr>)"
proof -
  have "life_inv (y\<lparr>pc := Loaded d (subscriptionRevision (cl y))\<rparr>)"
    using assms by (simp add: sys_inv_def life_inv_def)
  with assms show ?thesis by (auto simp: sys_inv_def conn_inv_def)
qed

lemma of_nat_word64_inject:
  assumes "of_nat m = (of_nat n :: uint64)" "m < 2 ^ 64" "n < 2 ^ 64"
  shows "m = n"
proof -
  have "unat (of_nat m :: uint64) = unat (of_nat n :: uint64)" using assms(1) by simp
  with assms(2,3) show ?thesis by (simp add: unat_of_nat)
qed

text \<open>The synchronisation, when no write fails: what the connection remembers afterwards.\<close>

lemma serve_sync_done:
  assumes "serve_sync (\<lambda>_. None) current c k = (sent, Inr k')" "first k \<or> revision k \<noteq> current"
    and "peer_addrs p = set (slice_elems (previous k))" "peer_listen p = wasListening k" "peer_settle p = p"
  shows "fold peer_apply sent p = peer_wanted c \<and> revision k' = subscriptionRevision c \<and> \<not> first k' \<and>
    peer_addrs (peer_wanted c) = set (slice_elems (previous k')) \<and>
    peer_listen (peer_wanted c) = wasListening k'"
proof -
  note ok = syncSubscription_ok [where wr = "\<lambda>_. None" and c = c and previous = "previous k"
      and wasListening = "wasListening k", OF refl]
  have "sent = fst (syncSubscription (\<lambda>_. None) c (previous k) (wasListening k))"
    "k' = \<lparr>previous = msg_Addrs (sync_message c), wasListening = (mode c = Listen),
      revision = subscriptionRevision c, first = False\<rparr>"
    using assms(1,2) by (auto simp: serve_sync_def ok)
  then show ?thesis
    using sync_refines_peer [where c = c, OF refl assms(3,4,5)] sync_message_Addrs [of c]
    by (simp add: peer_wanted_fields)
qed

lemma serve_sync_skip:
  "\<not> (first k \<or> revision k \<noteq> current) \<Longrightarrow> serve_sync wr current c k = ([], Inr k)"
  by (simp add: serve_sync_def)

lemma sys_inv_sync:
  assumes "sys_inv y" "pc y = Loaded d current"
    and "serve_sync (\<lambda>_. None) current (cl y) (kn y) = (sent, Inr k)"
  shows "sys_inv (y\<lparr>pc := Selecting d, kn := k, node := fold peer_apply sent (node y),
      synced := (if first (kn y) \<or> revision (kn y) \<noteq> current then changes y else synced y)\<rparr>)" (is "sys_inv ?z")
proof -
  have life: "life_inv ?z" using assms(1,2) by (simp add: sys_inv_def life_inv_def)
  have c: "conn_inv y" using assms(1) by (simp add: sys_inv_def)
  have mem: "peer_addrs (node y) = set (slice_elems (previous (kn y)))"
    "peer_listen (node y) = wasListening (kn y)" "peer_settle (node y) = node y"
    using c assms(2) by (simp_all add: conn_inv_def)
  show ?thesis
  proof (cases "first (kn y) \<or> revision (kn y) \<noteq> current")
    case True
    with serve_sync_done [OF assms(3) True mem] c life show ?thesis
      by (simp add: sys_inv_def conn_inv_def peer_wanted_fields)
  next
    case False
    then have k: "k = kn y" "sent = []" using assms(3) by (simp_all add: serve_sync_skip)
    obtain n where n: "n \<le> changes y" "current = of_nat n" "n < changes y \<longrightarrow> notified (cl y)"
      using c assms(2) unfolding conn_inv_def by blast
    have "of_nat (synced y) = (of_nat n :: uint64)" "synced y \<le> changes y"
      using False c assms(2) n(2) unfolding conn_inv_def by simp_all
    then have "synced y = n" if "changes y < 2 ^ 64"
      using that n(1) of_nat_word64_inject [of "synced y" n] by linarith
    with n(3) have "changes y < 2 ^ 64 \<longrightarrow> synced y < changes y \<longrightarrow> notified (cl y)" by auto
    with False k c assms(2) life show ?thesis by (simp add: sys_inv_def conn_inv_def)
  qed
qed

lemma serve_select_keeps:
  "serve_select ev s = (s', r) \<Longrightarrow> ses_done s' = ses_done s"
  by (cases ev) (auto split: list.splits)

lemma session_state_Some: "session_state c = Some b \<longleftrightarrow> (\<exists>s. session c = Some s \<and> ses_done s = b)"
  by (auto simp: session_state_def)

lemma client_inv_session:
  "client_inv c \<Longrightarrow> client_inv (c\<lparr>session := Some s\<rparr>)"
  by (erule client_inv_cong) simp_all

lemma sys_inv_session:
  assumes "sys_inv y" "session_step y z"
  shows "sys_inv z"
proof -
  have inv: "client_inv (cl y)" and st: "session_state (cl y) = pc_state (pc y)"
    using assms(1) by (simp_all add: sys_inv_def life_inv_def)
  note delay = sys_inv_delay [OF assms(1)]
  have called: "same_view (cl y) (snd (call_each outs p fs (cl y)))" for outs p fs
    by (rule same_view_call_each)
  from assms(2) show ?thesis
  proof cases
    case (loop_exit d s)
    then show ?thesis using sys_inv_pc [OF assms(1), of Leaving] by simp
  next
    case (loop_go d s outs)
    with called [of outs ToRetriever "retrieveCallbacks (cl y)"] st delay show ?thesis
      using sys_inv_move [OF assms(1) client_inv_call_each [OF inv, of outs], of _ ToRetriever "Dialing d"]
      by (simp add: callRetrievers_def same_view_def)
  next
    case (dial_ok d)
    then show ?thesis using sys_inv_connect [OF assms(1)] by simp
  next
    case (dial_failed d e)
    then show ?thesis using sys_inv_pc [OF assms(1), of "Broken d e"] delay by simp
  next
    case (load d)
    then show ?thesis using sys_inv_load [OF assms(1)] by simp
  next
    case (sync d current sent k)
    then show ?thesis using sys_inv_sync [OF assms(1)] by simp
  next
    case (sync_failed d current wr sent e)
    then show ?thesis using sys_inv_pc [OF assms(1), of "Broken d e"] delay by simp
  next
    case (select_go d s ev s')
    then have "session_state ((cl y)\<lparr>session := Some s'\<rparr>) = Some False"
      using st serve_select_keeps by (simp add: session_state_def)
    with select_go delay show ?thesis
      using sys_inv_move [OF assms(1) client_inv_session [OF inv], of s' "AtHead d"]
      by (simp add:)
  next
    case (select_end d s ev s' e)
    then have "session_state ((cl y)\<lparr>session := Some s'\<rparr>) = Some False"
      using st serve_select_keeps by (simp add: session_state_def)
    with select_end delay show ?thesis
      using sys_inv_move [OF assms(1) client_inv_session [OF inv], of s' "Broken d e"]
      by (simp add:)
  next
    case (incoming outs raw)
    then show ?thesis
      using sys_inv_same [OF assms(1) same_view_incoming client_inv_outcome [OF parseIncoming_ok inv]]
      by simp
  next
    case (over d e s)
    then show ?thesis using sys_inv_pc [OF assms(1), of Leaving] by simp
  next
    case (report d e s outs)
    with called [of outs "ToErrorHandler e" "errorCallbacks (cl y)"] st delay show ?thesis
      using sys_inv_move [OF assms(1) client_inv_call_each [OF inv, of outs], of _ "ToErrorHandler e" "Waiting d"]
      by (simp add: callErrorCallbacks_def same_view_def)
  next
    case (wait_cancelled d s)
    then show ?thesis using sys_inv_pc [OF assms(1), of Leaving] by simp
  next
    case (wait_over d)
    then obtain k where "d = backoff k" using delay by auto
    then have "\<exists>k. next_delay d = backoff k" using next_delay_backoff by blast
    with wait_over show ?thesis using sys_inv_pc [OF assms(1), of "AtLoop (next_delay d)"] by simp
  next
    case (cleanup s)
    then show ?thesis
      using sys_inv_move [OF assms(1) client_inv_session [OF inv], of "session_cleanup s" Finished]
      by (simp add: session_state_def session_cleanup_def Let_def)
  qed
qed

lemma sys_inv_init: "sys_init y \<Longrightarrow> sys_inv y"
  unfolding sys_init_def
  by (elim conjE exE newClient_Inr)
    (simp add: sys_inv_def life_inv_def conn_inv_def client_inv_def subs_inv_empty session_state_def)

interpretation life: step_system sys_init sys_step sys_inv
  by unfold_locales (auto simp: sys_step_def intro: sys_inv_init sys_inv_api sys_inv_session)



section \<open>The goroutine alone makes progress\<close>

lemma serve_sync_total: "\<exists>sent k. serve_sync (\<lambda>_. None) current c k0 = (sent, Inr k)"
  using syncSubscription_ok [where wr = "\<lambda>_. None" and c = c and previous = "previous k0"
      and wasListening = "wasListening k0", OF refl]
  by (simp add: serve_sync_def)

text \<open>The state the loop of \<^verbatim>\<open>serveConnection\<close> reaches from a point before its select.\<close>

lemma sync_reaches_select:
  assumes "pc y = Loaded d current"
  obtains z where "session_step y z" "pc z = Selecting d" "cl z = cl y" "changes z = changes y"
proof -
  obtain sent' k' where s: "serve_sync (\<lambda>_. None) current (cl y) (kn y) = (sent', Inr k')"
    using serve_sync_total by blast
  show ?thesis by (rule that [OF session_step.sync [OF assms s]]) simp_all
qed

lemma head_converges:
  assumes "sys_inv y" "pc y = AtHead d" "changes y < 2 ^ 64"
  shows "\<exists>z. session_step\<^sup>*\<^sup>* y z \<and> node z = peer_wanted (cl y) \<and> cl z = cl y"
proof -
  let ?y1 = "y\<lparr>pc := Loaded d (subscriptionRevision (cl y))\<rparr>"
  have step1: "session_step y ?y1" using assms(2) by (rule session_step.load)
  obtain sent k where s: "serve_sync (\<lambda>_. None) (subscriptionRevision (cl y)) (cl ?y1) (kn ?y1) = (sent, Inr k)"
    using serve_sync_total by blast
  have pc1: "pc ?y1 = Loaded d (subscriptionRevision (cl y))" by simp
  note step2 = session_step.sync [OF pc1 s]
  have c: "conn_inv y" using assms(1) by (simp add: sys_inv_def)
  have wanted: "fold peer_apply sent (node y) = peer_wanted (cl y)"
  proof (cases "first (kn y) \<or> revision (kn y) \<noteq> subscriptionRevision (cl y)")
    case True
    then show ?thesis
      using serve_sync_done [of "subscriptionRevision (cl y)" "cl y" "kn y" sent k "node y"] s c assms(2)
      by (simp add: conn_inv_def)
  next
    case False
    then have "of_nat (synced y) = (of_nat (changes y) :: uint64)" "synced y \<le> changes y"
      using c assms(2) unfolding conn_inv_def by auto
    then have "synced y = changes y"
      using assms(3) of_nat_word64_inject [of "synced y" "changes y"] by linarith
    with False s c assms(2) show ?thesis by (simp add: conn_inv_def serve_sync_skip)
  qed
  show ?thesis
    by (intro exI conjI, rule converse_rtranclp_into_rtranclp [of session_step, OF step1
          r_into_rtranclp [of session_step, OF step2]]) (simp_all add: wanted)
qed

lemma select_converges:
  assumes "sys_inv y" "pc y = Selecting d" "changes y < 2 ^ 64"
  shows "\<exists>z. session_step\<^sup>*\<^sup>* y z \<and> node z = peer_wanted (cl y) \<and> peer_wanted (cl z) = peer_wanted (cl y)"
proof (cases "synced y = changes y")
  case True
  then have "node y = peer_wanted (cl y)" using assms by (simp add: sys_inv_def conn_inv_def)
  then show ?thesis by blast
next
  case False
  then have "synced y < changes y" using assms(1,2) by (simp add: sys_inv_def conn_inv_def nat_less_le)
  then have "notified (cl y)" using assms by (simp add: sys_inv_def conn_inv_def)
  then obtain s where s: "session (cl y) = Some s" "ses_subscriptions s"
    by (auto simp: notified_def split: option.splits)
  let ?y1 = "y\<lparr>cl := (cl y)\<lparr>session := Some (s\<lparr>ses_subscriptions := False\<rparr>)\<rparr>, pc := AtHead d\<rparr>"
  have step: "session_step y ?y1"
    using session_step.select_go [OF assms(2) s(1), of OnSubscriptions] s(2) by simp
  have w: "peer_wanted (cl ?y1) = peer_wanted (cl y)" by (simp add:)
  obtain z where "session_step\<^sup>*\<^sup>* ?y1 z" "node z = peer_wanted (cl ?y1)" "cl z = cl ?y1"
    using head_converges [OF sys_inv_session [OF assms(1) step], of d] assms(3) by auto
  with step w show ?thesis by (metis converse_rtranclp_into_rtranclp)
qed

lemma connected_converges:
  assumes "sys_inv y" "connected (pc y)" "changes y < 2 ^ 64"
  shows "\<exists>z. session_step\<^sup>*\<^sup>* y z \<and> node z = peer_wanted (cl y) \<and> peer_wanted (cl z) = peer_wanted (cl y)"
  using assms(2)
proof (cases "pc y" rule: connected.cases)
  case (1 d)
  then show ?thesis using head_converges [OF assms(1) 1 assms(3)] by force
next
  case (2 d current)
  then obtain z where z: "session_step y z" "pc z = Selecting d" "cl z = cl y" "changes z = changes y"
    using sync_reaches_select by blast
  then have "sys_inv z" using sys_inv_session assms(1) by blast
  with select_converges [of z d] z assms(3) show ?thesis
    by (metis converse_rtranclp_into_rtranclp)
next
  case (3 d)
  then show ?thesis using select_converges [OF assms(1) 3 assms(3)] by blast
qed simp_all

text \<open>A cancelled session is finished by its own steps, wherever its goroutine is.\<close>

abbreviation finishes :: "'h sys \<Rightarrow> bool" where
  "finishes y \<equiv> \<exists>z. session_step\<^sup>*\<^sup>* y z \<and> pc z = Finished"

lemma finishes_step: "session_step y z \<Longrightarrow> finishes z \<Longrightarrow> finishes y"
  by (meson converse_rtranclp_into_rtranclp)

lemma leaving_finishes: "session (cl y) = Some s \<Longrightarrow> pc y = Leaving \<Longrightarrow> finishes y"
  by (rule finishes_step [OF session_step.cleanup]) auto

lemma broken_finishes:
  "session (cl y) = Some s \<Longrightarrow> ses_ctx_err s \<noteq> None \<Longrightarrow> pc y = Broken d e \<Longrightarrow> finishes y"
  by (rule finishes_step [OF session_step.over leaving_finishes]) (auto simp: session_over_def)

lemma selecting_finishes:
  assumes "session (cl y) = Some s" "ses_ctx_err s \<noteq> None" "pc y = Selecting d"
  shows "finishes y"
proof -
  obtain e where e: "ses_ctx_err s = Some e" using assms(2) by auto
  have "session_step y (y\<lparr>cl := (cl y)\<lparr>session := Some s\<rparr>, pc := Broken d e\<rparr>)"
    using session_step.select_end [OF assms(3,1), of OnDone] e by simp
  then show ?thesis by (rule finishes_step) (rule broken_finishes [of _ s], use e in simp_all)
qed

lemma loaded_finishes:
  assumes "session (cl y) = Some s" "ses_ctx_err s \<noteq> None" "pc y = Loaded d current"
  shows "finishes y"
proof -
  obtain z where z: "session_step y z" "pc z = Selecting d" "cl z = cl y"
    using sync_reaches_select [OF assms(3)] by blast
  have "finishes z" by (rule selecting_finishes [of _ s d]) (use assms(1,2) z in simp_all)
  with z(1) show ?thesis by (rule finishes_step)
qed

lemma cancelled_finishes:
  assumes "session (cl y) = Some s" "ses_ctx_err s \<noteq> None" "pc y \<noteq> NoSession"
  shows "finishes y"
proof (cases "pc y")
  case (AtLoop d)
  then have "session_step y (y\<lparr>pc := Leaving\<rparr>)" using assms(1,2) by (rule session_step.loop_exit)
  then show ?thesis by (rule finishes_step) (rule leaving_finishes [of _ s], use assms(1) in simp_all)
next
  case (Dialing d)
  then have "session_step y (y\<lparr>pc := Broken d Canceled\<rparr>)" by (rule session_step.dial_failed)
  then show ?thesis by (rule finishes_step) (rule broken_finishes [of _ s], use assms in simp_all)
next
  case (AtHead d)
  then have "session_step y (y\<lparr>pc := Loaded d (subscriptionRevision (cl y))\<rparr>)" by (rule session_step.load)
  then show ?thesis by (rule finishes_step) (rule loaded_finishes [of _ s], use assms in simp_all)
next
  case (Waiting d)
  then have "session_step y (y\<lparr>pc := Leaving\<rparr>)" using assms(1,2) by (rule session_step.wait_cancelled)
  then show ?thesis by (rule finishes_step) (rule leaving_finishes [of _ s], use assms(1) in simp_all)
next
  case Finished
  then show ?thesis by blast
next
  case (Loaded d current)
  with assms(1,2) show ?thesis by (rule loaded_finishes)
next
  case (Selecting d)
  with assms(1,2) show ?thesis by (rule selecting_finishes)
next
  case (Broken d e)
  with assms(1,2) show ?thesis by (rule broken_finishes)
next
  case Leaving
  with assms(1) show ?thesis by (rule leaving_finishes)
qed (use assms(3) in simp)



section \<open>Properties\<close>

text \<open>
  C4. In every state the program can reach, by any interleaving of the client's methods,
  the session's goroutines and the network: at most 251 addresses are subscribed, each with
  its signature; a client without a session has no subscription; at most sixteen callbacks
  run; there is a running session goroutine exactly when there is a session that is not
  done; and the back-off delay is between 100 ms and 25 s.
\<close>

theorem lifecycle_invariant:
  assumes "reachable sys_init sys_step y"
  shows "subs_inv (cl y) \<and>
    (session (cl y) = None \<longrightarrow> subscribedAddresses (cl y) = [] \<and> subscribedTypes (cl y) = []) \<and>
    callbackSlots (cl y) \<le> callback_capacity \<and>
    session_state (cl y) = pc_state (pc y) \<and>
    (\<forall>d. pc_delay (pc y) = Some d \<longrightarrow> initial_delay \<le> d \<and> d \<le> 25 * Second)"
  using life.reachable_inv [OF assms] backoff_bounds
  unfolding sys_inv_def life_inv_def client_inv_def by blast

text \<open>A system that has just been constructed, and its start.\<close>

definition example_sys :: "(string \<times> string) list sys" where
  "example_sys = \<lparr>cl = example_client, pc = NoSession, kn = conn_new, node = peer_none,
     changes = 0, synced = 0\<rparr>"

lemma example_sys_reachable: "reachable sys_init sys_step example_sys"
proof (rule reach_init, unfold sys_init_def, intro conjI exI)
  show "newClient example_env (Some None) ''https://a'' ''wss://b'' ''medusa'' ''v2'' False None None =
      Inr (cl example_sys)"
    using example_client_new by (simp add: example_sys_def)
qed (simp_all add: example_sys_def)

definition example_run :: "(string \<times> string) list sys" where
  "example_run = example_sys\<lparr>cl := example_client\<lparr>session := Some fresh_session\<rparr>, pc := AtLoop initial_delay\<rparr>"

lemma example_run_reachable: "reachable sys_init sys_step example_run"
proof -
  have "Start (cl example_sys) = (None, example_client\<lparr>session := Some fresh_session\<rparr>)"
    by (simp add: Start_def example_sys_def example_client_def)
  from api_step.start [OF this] have "sys_step example_sys example_run"
    by (simp add: sys_step_def example_run_def)
  with example_sys_reachable show ?thesis by (rule reach_step)
qed

theorem lifecycle_invariant_witness:
  "reachable sys_init sys_step example_run \<and> session_state (cl example_run) = Some False"
  using example_run_reachable lifecycle_invariant [OF example_run_reachable]
  by (simp add: example_run_def)

text \<open>
  C3. No change of the subscription is lost: whenever the goroutine waits in its select and
  no notification is pending, the read node delivers exactly what the client wants now,
  addresses with their signatures, type filter and instance id, whatever interleaving of \<^verbatim>\<open>Subscribe\<close>, \<^verbatim>\<open>Unsubscribe\<close> and
  \<^verbatim>\<open>WithMode\<close> led there (as long as the 64-bit revision has not wrapped around).
\<close>

theorem no_lost_update:
  assumes "reachable sys_init sys_step y" "pc y = Selecting d" "changes y < 2 ^ 64"
    and "session (cl y) = Some s" "\<not> ses_subscriptions s"
  shows "node y = peer_wanted (cl y)"
proof -
  have c: "conn_inv y" using life.reachable_inv [OF assms(1)] by (simp add: sys_inv_def)
  have "\<not> notified (cl y)" using assms(4,5) by (simp add: notified_def)
  with c assms(2,3) have "synced y = changes y" "\<not> first (kn y)"
    unfolding conn_inv_def by (auto simp: nat_less_le)
  with c assms(2) show ?thesis by (simp add: conn_inv_def)
qed

text \<open>
  C11. The peer's view converges: in every reachable state with a connection, the goroutine
  can, by its own steps and if the network accepts the frames, bring the read node to the
  subscription the client wants.
\<close>

theorem subscription_converges:
  assumes "reachable sys_init sys_step y" "connected (pc y)" "changes y < 2 ^ 64"
  shows "\<exists>z. session_step\<^sup>*\<^sup>* y z \<and> node z = peer_wanted (cl y) \<and> peer_wanted (cl z) = peer_wanted (cl y)"
  using connected_converges [OF life.reachable_inv [OF assms(1)] assms(2,3)] .



text \<open>The example run connects.\<close>

lemma example_connected:
  obtains y where "reachable sys_init sys_step y" "pc y = AtHead initial_delay" "changes y = 0"
    "cl y = cl example_run"
proof -
  have r: "retrieveCallbacks (cl example_run) = []" by (simp add: example_run_def example_client_def)
  have "session_step example_run (example_run\<lparr>cl := snd (callRetrievers [] (cl example_run)), pc := Dialing initial_delay\<rparr>)"
    by (rule session_step.loop_go [where s = fresh_session])
      (simp_all add: example_run_def fresh_session_def example_client_def)
  then have s1: "sys_step example_run (example_run\<lparr>pc := Dialing initial_delay\<rparr>)"
    using r by (simp add: sys_step_def callRetrievers_def)
  have "session_step (example_run\<lparr>pc := Dialing initial_delay\<rparr>)
      (example_run\<lparr>pc := Dialing initial_delay\<rparr>\<lparr>pc := AtHead initial_delay, kn := conn_new, node := peer_none\<rparr>)"
    by (rule session_step.dial_ok) simp
  then have s2: "sys_step (example_run\<lparr>pc := Dialing initial_delay\<rparr>)
      (example_run\<lparr>pc := AtHead initial_delay, kn := conn_new, node := peer_none\<rparr>)"
    by (simp add: sys_step_def)
  show ?thesis
    by (rule that [OF reach_step [OF reach_step [OF example_run_reachable s1] s2]])
      (simp_all add: example_run_def example_sys_def)
qed

theorem subscription_converges_witness:
  "\<exists>y z :: (string \<times> string) list sys. reachable sys_init sys_step y \<and> connected (pc y) \<and>
     session_step\<^sup>*\<^sup>* y z \<and> node z = peer_wanted (cl y)"
proof (rule example_connected)
  fix y :: "(string \<times> string) list sys"
  assume y: "reachable sys_init sys_step y" "pc y = AtHead initial_delay" "changes y = 0"
  then have "connected (pc y)" "changes y < 2 ^ 64" by simp_all
  from subscription_converges [OF y(1) this] y(1) this(1) show ?thesis by blast
qed

theorem no_lost_update_witness:
  "\<exists>y :: (string \<times> string) list sys. reachable sys_init sys_step y \<and> pc y = Selecting initial_delay \<and>
     node y = peer_wanted (cl y)"
proof (rule example_connected)
  fix y :: "(string \<times> string) list sys"
  assume y: "reachable sys_init sys_step y" "pc y = AtHead initial_delay" "changes y = 0"
    "cl y = cl example_run"
  let ?y1 = "y\<lparr>pc := Loaded initial_delay (subscriptionRevision (cl y))\<rparr>"
  have "sys_step y ?y1" using session_step.load [OF y(2)] by (simp add: sys_step_def)
  then have r1: "reachable sys_init sys_step ?y1" by (rule reach_step [OF y(1)])
  obtain z where z: "session_step ?y1 z" "pc z = Selecting initial_delay" "cl z = cl y" "changes z = changes y"
    using sync_reaches_select [of ?y1 initial_delay "subscriptionRevision (cl y)"] by auto
  have r2: "reachable sys_init sys_step z" by (rule reach_step [OF r1]) (simp add: sys_step_def z(1))
  have "session (cl z) = Some fresh_session" "changes z < 2 ^ 64"
    using y z by (simp_all add: example_run_def)
  from no_lost_update [OF r2 z(2) this(2) this(1)] r2 z(2) show ?thesis
    by (auto simp: fresh_session_def)
qed

end
