(* ===== verification/Node_View.thy ===== *)
theory Node_View
  imports Subscriptions
begin

text \<open>
  The read node's end of a connection, on bytes: a node that decodes every frame with
  \<^verbatim>\<open>encoding/json\<close> into the \<^verbatim>\<open>Message\<close> struct of \<^verbatim>\<open>message.go\<close> and applies the
  messages as the abstract peer does. The peer's view of the subscription is thereby a
  statement about the bytes on the wire.
\<close>


section \<open>The node\<close>

text \<open>A frame that does not decode changes nothing.\<close>

definition node_receive :: "bytes \<Rightarrow> peer \<Rightarrow> peer" where
  "node_receive b p = (case Unmarshal dec_Message Message_zero b of None \<Rightarrow> p | Some m \<Rightarrow> peer_apply m p)"

text \<open>What decoding changes of a message makes no difference to the node.\<close>

lemma Message_norm_fields:
  "msg_Type (Message_norm m) = msg_Type m" "msg_Addrs (Message_norm m) = msg_Addrs m"
  "msg_TXTypes (Message_norm m) = msg_TXTypes m" "msg_ClientInstanceID (Message_norm m) = msg_ClientInstanceID m"
  "msg_SignedAddrs (Message_norm m) = map_option gm_sort (msg_SignedAddrs m)"
  by (simp_all add: Message_norm_def)

lemma peer_apply_norm: "peer_apply (Message_norm m) p = peer_apply m p"
proof -
  have sort: "gm_get_or [] (slice_elems (map_option gm_sort s)) = gm_get_or [] (slice_elems s)" for s
    by (cases s) (simp_all add: gm_get_or_def gm_sort_lookup fun_eq_iff)
  show ?thesis by (simp only: peer_apply_def peer_message_def Message_norm_fields sort)
qed

lemma node_receive_marshal: "Message_ok m \<Longrightarrow> node_receive (marshal_Message m) p = peer_apply m p"
  by (simp add: node_receive_def marshal_Message_def msgc.unmarshal_marshal peer_apply_norm)

lemma node_receive_fold:
  "\<forall>m \<in> set ms. Message_ok m \<Longrightarrow> fold node_receive (map marshal_Message ms) p = fold peer_apply ms p"
  by (induction ms arbitrary: p) (simp_all add: node_receive_marshal)


section \<open>What the client sends\<close>

text \<open>
  Texts that JSON carries unchanged: addresses, signatures, the filter and the instance id
  are valid UTF-8.
\<close>

definition texts_ok :: "'h client \<Rightarrow> bool" where
  "texts_ok c \<longleftrightarrow> strings_ok (subscribedSignedData c) \<and> list_all valid_utf8 (gm_keys (subscribedAddresses c)) \<and>
     list_all valid_utf8 (subscribedTypes c) \<and> valid_utf8 (clientInstanceID c)"

lemma valid_utf8_Nil [simp]: "valid_utf8 []"
  by (simp add: valid_utf8_def)

lemma message_types_valid: "t \<in> {SubscribeMessage, UnsubscribeMessage, ListenMessage} \<Longrightarrow> valid_utf8 t"
  by (auto simp: message_type_defs plain_name_def intro!: plain_name_valid)

lemma unsubscribe_message_ok: "slice_ok r \<Longrightarrow> Message_ok (unsubscribe_message r)"
  by (simp add: Message_ok_def unsubscribe_message_def Message_zero_def map_ok_def slice_ok_def
      message_types_valid)

lemma slice_ok_elems: "slice_ok xs = list_all valid_utf8 (slice_elems xs)"
  by (cases xs) (simp_all add: slice_ok_def)

lemma signature_valid: "texts_ok c \<Longrightarrow> valid_utf8 (signature_of c a)"
  by (auto simp: texts_ok_def signature_of_def strings_ok_def gm_get_or_def list_all_iff
      split: option.split dest!: map_of_SomeD)

lemma sync_message_ok:
  assumes "gm_wf (subscribedAddresses c)" "texts_ok c"
  shows "Message_ok (sync_message c)"
proof -
  have "slice_ok (msg_Addrs (sync_message c))" "slice_ok (msg_TXTypes (sync_message c))"
    using assms(2) by (auto simp: slice_ok_elems sync_message_Addrs sync_message_fields desired_def
        texts_ok_def list_all_iff)
  moreover have "map_ok (msg_SignedAddrs (sync_message c))"
    using assms signature_valid [OF assms(2)]
    by (auto simp: msg_SignedAddrs_sync map_ok_def strings_ok_def gm_wf_def texts_ok_def list_all_iff
        comp_def signature_of_def)
  moreover have "valid_utf8 (msg_ClientInstanceID (sync_message c))"
    using sync_message_fields(3) [of c] assms(2) by (auto simp: texts_ok_def)
  ultimately show ?thesis
    using message_types_valid by (simp add: Message_ok_def sync_message_Type)
qed

lemma sync_frames_ok:
  assumes "\<And>b. wr b = None" "gm_wf (subscribedAddresses c)" "texts_ok c" "slice_ok previous"
    and "m \<in> set (fst (syncSubscription wr c previous wasListening))"
  shows "Message_ok m"
  using assms(4,5) sync_message_ok [OF assms(2,3)]
  by (auto simp: syncSubscription_ok [OF assms(1)] slice_ok_elems removed_addresses_eq list_all_iff
      intro!: unsubscribe_message_ok split: if_splits)


section \<open>Properties\<close>

text \<open>
  C8. Synchronisation on the wire: a node that decodes the bytes of the frames with the same
  struct ends up with exactly the wanted addresses, each with the signature the client
  stores for it, with the client's type filter and instance id (where a frame was needed),
  and listening exactly in listen mode, whatever it held before, as long as the connection
  remembers the addresses the node has; texts must be valid UTF-8, since JSON replaces
  other bytes.
\<close>

theorem sync_bytes_reach_node:
  assumes "\<And>b. wr b = None" "peer_addrs p = set (slice_elems previous)" "peer_listen p = wasListening"
    and "peer_settle p = p" "subs_inv c" "texts_ok c" "slice_ok previous"
  shows "fold node_receive (map marshal_Message (fst (syncSubscription wr c previous wasListening))) p = peer_wanted c"
proof -
  have "gm_wf (subscribedAddresses c)" using assms(5) by (simp add: subs_inv_def)
  then have "\<forall>m \<in> set (fst (syncSubscription wr c previous wasListening)). Message_ok m"
    using sync_frames_ok [where wr = wr and c = c and previous = previous, OF assms(1) _ assms(6,7)] by blast
  then show ?thesis
    using sync_refines_peer [where c = c, OF assms(1-4)] by (simp add: node_receive_fold)
qed

definition example_subscriber :: "(string \<times> string) list client" where
  "example_subscriber = example_client\<lparr>subscribedAddresses := [(''a'', True)],
     subscribedSignedData := [(''a'', ''s'')], subscribedTypes := [TypeTransfer]\<rparr>"

lemma valid_utf8_hex: "valid_utf8 (hex_EncodeToString b)"
proof -
  have "(of_char (hexdigit n) :: nat) < 128" if "n < 16" for n using that by (simp add: hexdigit_def)
  then have "list_all (\<lambda>c. (of_char c :: nat) < 128) (hex_EncodeToString b)"
    by (induction b) (use unsigned_less [where 'a = nat and 'b = 8] in \<open>simp_all add: less_mult_imp_div_less\<close>)
  then show ?thesis by (simp add: valid_utf8_def to_valid_utf8_ascii)
qed

theorem sync_bytes_reach_node_witness:
  "peer_sigs (fold node_receive (map marshal_Message (fst (syncSubscription (\<lambda>_. None) example_subscriber None False))) peer_none)
     ''a'' = Some ''s''"
proof -
  have "subs_inv example_subscriber"
    by (auto simp: subs_inv_def example_subscriber_def example_client_def gm_wf_def max_addresses_def
        Type_IsValid_iff TypesSlice_def ran_def split: if_splits)
  moreover have "valid_utf8 ''a''" "valid_utf8 ''s''" "valid_utf8 TypeTransfer"
    by (rule plain_name_valid; simp add: plain_name_def TypeTransfer_def)+
  then have "texts_ok example_subscriber"
    using valid_utf8_hex by (simp add: texts_ok_def example_subscriber_def example_client_def strings_ok_def)
  moreover have "slice_ok None" by (simp add: slice_ok_def)
  ultimately have "fold node_receive (map marshal_Message (fst (syncSubscription (\<lambda>_. None) example_subscriber None False))) peer_none =
      peer_wanted example_subscriber"
    by (intro sync_bytes_reach_node) (simp_all add: peer_addrs_def peer_settle_def peer_none_def)
  then show ?thesis
    by (simp add: peer_wanted_def desired_def signature_of_def example_subscriber_def example_client_def gm_get_or_def)
qed

end
