(* ===== verification/Dial.thy ===== *)
theory Dial
  imports Session
begin

text \<open>
  \<^verbatim>\<open>dialConnection\<close> of \<^verbatim>\<open>websocket.go\<close>: the dialer of the WebSocket package does not
  close its socket when the context is cancelled during the handshake, so the client wraps
  the function that opens the socket and registers a callback on the context that closes it,
  until the dial has returned. The dialer, the context and its callbacks run concurrently:
  this is a step relation.
\<close>


section \<open>States and steps\<close>

text \<open>
  The sockets that were opened (whether each is still open), the callbacks that are registered
  and have not run, by the number of their socket, and the variable \<^verbatim>\<open>stopCancel\<close>: the
  callback it removes.
\<close>

record dial =
  dl_cancelled :: bool
  dl_conns :: "bool list"
  dl_hooks :: "nat list"
  dl_stop :: "nat option"
  dl_returned :: bool

definition dial_new :: "bool \<Rightarrow> dial" where
  "dial_new cancelled = \<lparr>dl_cancelled = cancelled, dl_conns = [], dl_hooks = [], dl_stop = None, dl_returned = False\<rparr>"

text \<open>
  The function put into \<^verbatim>\<open>NetDialContext\<close>, with the outcome of the original one: on success
  the new socket gets a callback (\<^verbatim>\<open>context.AfterFunc\<close>).
\<close>

definition NetDialContext_hook :: "go_error option \<Rightarrow> dial \<Rightarrow> dial" where
  "NetDialContext_hook err d = (case err of
     Some _ \<Rightarrow> d
   | None \<Rightarrow> let n = length (dl_conns d) in
       d\<lparr>dl_conns := dl_conns d @ [True], dl_hooks := dl_hooks d @ [n], dl_stop := Some n\<rparr>)"

text \<open>A callback runs: it is no longer registered and its socket is closed.\<close>

definition run_hook :: "nat \<Rightarrow> dial \<Rightarrow> dial" where
  "run_hook n d = d\<lparr>dl_conns := (dl_conns d)[n := False], dl_hooks := removeAll n (dl_hooks d)\<rparr>"

text \<open>The deferred function: \<^verbatim>\<open>stopCancel\<close> removes a callback that has not started.\<close>

definition dial_return :: "dial \<Rightarrow> dial" where
  "dial_return d = d\<lparr>dl_returned := True,
     dl_hooks := (case dl_stop d of None \<Rightarrow> dl_hooks d | Some n \<Rightarrow> removeAll n (dl_hooks d))\<rparr>"

inductive dial_step :: "dial \<Rightarrow> dial \<Rightarrow> bool" where
  hook: "\<not> dl_returned d \<Longrightarrow> dial_step d (NetDialContext_hook err d)"
| cancel: "dial_step d (d\<lparr>dl_cancelled := True\<rparr>)"
| run: "dl_cancelled d \<Longrightarrow> n \<in> set (dl_hooks d) \<Longrightarrow> dial_step d (run_hook n d)"
| close: "n < length (dl_conns d) \<Longrightarrow> dial_step d (d\<lparr>dl_conns := (dl_conns d)[n := False]\<rparr>)"
| return: "\<not> dl_returned d \<Longrightarrow> dial_step d (dial_return d)"

definition dial_init :: "dial \<Rightarrow> bool" where
  "dial_init d \<longleftrightarrow> (\<exists>b. d = dial_new b)"


section \<open>The invariant\<close>

text \<open>
  Callbacks belong to sockets; until the dial returns every open socket has its callback and
  the variable holds the last socket's; afterwards the last socket has none.
\<close>

definition dial_inv :: "dial \<Rightarrow> bool" where
  "dial_inv d \<longleftrightarrow>
     (\<forall>n \<in> set (dl_hooks d). n < length (dl_conns d)) \<and>
     dl_stop d = (if dl_conns d = [] then None else Some (length (dl_conns d) - 1)) \<and>
     (\<not> dl_returned d \<longrightarrow> (\<forall>n < length (dl_conns d). dl_conns d ! n \<longrightarrow> n \<in> set (dl_hooks d))) \<and>
     (dl_returned d \<longrightarrow> length (dl_conns d) - 1 \<notin> set (dl_hooks d))"

lemma dial_inv_step:
  assumes "dial_inv d" "dial_step d e"
  shows "dial_inv e"
  using assms(2)
proof (cases rule: dial_step.cases)
  case (hook err)
  then show ?thesis using assms(1)
    by (cases err) (auto simp: dial_inv_def NetDialContext_hook_def Let_def nth_append less_Suc_eq)
next
  case cancel
  then show ?thesis using assms(1) by (simp add: dial_inv_def)
next
  case (run n)
  then show ?thesis using assms(1) by (auto simp: dial_inv_def run_hook_def nth_list_update)
next
  case (close n)
  have "dl_conns d ! m" if "(dl_conns d)[n := False] ! m" "m < length (dl_conns d)" for m
    using that by (cases "m = n") simp_all
  then show ?thesis using assms(1) close(1) by (simp add: dial_inv_def)
next
  case return
  then show ?thesis using assms(1)
    by (cases "dl_conns d = []") (simp_all add: dial_inv_def dial_return_def)
qed

interpretation dl: step_system dial_init dial_step dial_inv
proof unfold_locales
  show "dial_init d \<Longrightarrow> dial_inv d" for d by (auto simp: dial_init_def dial_new_def dial_inv_def)
qed (rule dial_inv_step)

text \<open>Running every callback closes its sockets.\<close>

definition open_conns :: "dial \<Rightarrow> nat set" where
  "open_conns d = {n. n < length (dl_conns d) \<and> dl_conns d ! n}"

lemma run_hooks:
  assumes "dl_cancelled d" "\<forall>n \<in> set (dl_hooks d). n < length (dl_conns d)"
  shows "\<exists>e. dial_step\<^sup>*\<^sup>* d e \<and> dl_hooks e = [] \<and> open_conns e = open_conns d - set (dl_hooks d) \<and>
    dl_returned e = dl_returned d"
  using assms
proof (induction "length (dl_hooks d)" arbitrary: d rule: less_induct)
  case less
  show ?case
  proof (cases "dl_hooks d")
    case Nil
    then show ?thesis by (intro exI [of _ d]) simp
  next
    case (Cons n ns)
    let ?e = "run_hook n d"
    have step: "dial_step d ?e" using less.prems(1) Cons by (intro dial_step.run) simp_all
    have "length (dl_hooks ?e) < length (dl_hooks d)"
      using Cons length_removeAll_less_eq [of n ns] by (simp add: run_hook_def le_imp_less_Suc)
    moreover have "dl_cancelled ?e" "\<forall>m \<in> set (dl_hooks ?e). m < length (dl_conns ?e)"
      using less.prems by (simp_all add: run_hook_def)
    ultimately obtain z where z: "dial_step\<^sup>*\<^sup>* ?e z" "dl_hooks z = []"
      "open_conns z = open_conns ?e - set (dl_hooks ?e)" "dl_returned z = dl_returned ?e"
      using less.hyps by blast
    have "open_conns ?e - set (dl_hooks ?e) = open_conns d - set (dl_hooks d)"
      using Cons less.prems(2) by (auto simp: open_conns_def run_hook_def nth_list_update split: if_splits)
    then show ?thesis
      using z step by (intro exI [of _ z]) (simp add: converse_rtranclp_into_rtranclp, simp add: run_hook_def)
  qed
qed


section \<open>Properties\<close>



end
