(* ===== verification/Output.thy ===== *)
theory Output
  imports Client_State
begin

text \<open>
  What leaves the client other than through the network: \<^verbatim>\<open>logger.go\<close>, whose three methods
  hand an entry to logrus, and \<^verbatim>\<open>transport.go\<close>, whose \<^verbatim>\<open>RoundTrip\<close> prints a line
  to standard error when the client is verbose.
\<close>


section \<open>The logger (logger.go)\<close>

text \<open>
  An entry as it is given to logrus, which formats it as JSON on standard output: its level,
  its fields and its arguments. \<^verbatim>\<open>Print\<close> logs at the level of \<^verbatim>\<open>Info\<close>.
\<close>

datatype log_level = InfoLevel | ErrorLevel

datatype log_value = LogString string | LogInt int

record log_entry =
  le_level :: log_level
  le_fields :: "(string, log_value) gomap"
  le_args :: "string list"

text \<open>
  A logrus logger formats its entries and writes them somewhere; a new one writes text to
  standard error. The client's logger keeps the context, its logrus logger, the fields of the
  base entry and two settings nothing uses. What \<^verbatim>\<open>runtime.Caller(1)\<close> gives, the file and the
  line of the caller, is the argument \<open>caller\<close>.
\<close>

datatype log_format = TextFormatter | JSONFormatter

datatype log_output = Stdout | Stderr

record logrus =
  lr_formatter :: log_format
  lr_output :: log_output

definition logrus_New :: logrus where
  "logrus_New = \<lparr>lr_formatter = TextFormatter, lr_output = Stderr\<rparr>"

record 'c logger =
  lg_ctx :: 'c
  lg_l :: logrus
  lg_e :: "(string, log_value) gomap"
  lg_withSentry :: bool
  lg_sentryDSN :: string

definition logger_init :: "'c logger \<Rightarrow> 'c logger" where
  "logger_init l =
     (let l1 = logrus_New;
          l1 = l1\<lparr>lr_formatter := JSONFormatter\<rparr>;
          l1 = l1\<lparr>lr_output := Stdout\<rparr>
      in l\<lparr>lg_l := l1, lg_e := gm_put ''name'' (LogString ''tcabci-read-go-client'') []\<rparr>)"

definition NewLogger :: "'c \<Rightarrow> 'c logger" where
  "NewLogger ctx = logger_init \<lparr>lg_ctx = ctx, lg_l = logrus_New, lg_e = [], lg_withSentry = False, lg_sentryDSN = []\<rparr>"

definition with_caller :: "'c logger \<Rightarrow> string \<times> int \<Rightarrow> (string, log_value) gomap" where
  "with_caller l caller =
     gm_put ''line'' (LogInt (snd caller)) (gm_put ''file'' (LogString (fst caller)) (lg_e l))"

definition logger_Print :: "'c logger \<Rightarrow> string \<times> int \<Rightarrow> string list \<Rightarrow> log_entry" where
  "logger_Print l caller args = \<lparr>le_level = InfoLevel, le_fields = with_caller l caller, le_args = args\<rparr>"

definition logger_Info :: "'c logger \<Rightarrow> string \<times> int \<Rightarrow> string list \<Rightarrow> log_entry" where
  "logger_Info l caller args = \<lparr>le_level = InfoLevel, le_fields = with_caller l caller, le_args = args\<rparr>"

definition logger_Error :: "'c logger \<Rightarrow> string \<times> int \<Rightarrow> string list \<Rightarrow> log_entry" where
  "logger_Error l caller args = \<lparr>le_level = ErrorLevel, le_fields = with_caller l caller, le_args = args\<rparr>"

text \<open>Every entry carries the name of the client and the place it was logged from.\<close>

lemma logger_fields:
  "map_of (with_caller (NewLogger ctx) caller) =
     [''name'' \<mapsto> LogString ''tcabci-read-go-client'', ''file'' \<mapsto> LogString (fst caller), ''line'' \<mapsto> LogInt (snd caller)]"
  by (simp add: with_caller_def NewLogger_def logger_init_def Let_def update_conv' fun_eq_iff)


section \<open>The transport (transport.go)\<close>

definition format_bool :: "bool \<Rightarrow> string" where
  "format_bool b = (if b then ''true'' else ''false'')"

text \<open>The format string; it ends with a newline.\<close>

definition verbose_line :: "int \<Rightarrow> nat \<Rightarrow> bool \<Rightarrow> string" where
  "verbose_line status len failed =
     ''tcabci HTTP status='' @ FormatInt status @ '' bytes='' @ dec_nat len @ '' failed='' @ format_bool failed @
     [char_of (10 :: nat)]"

text \<open>
  The exchange of \<^verbatim>\<open>fasthttp.DefaultTransport\<close> is an argument: whether to retry, the error
  and the response it leaves. The result is passed on; next to it are the lines printed.
\<close>

definition RoundTrip ::
  "('q \<Rightarrow> bool \<times> go_error option \<times> http_response) \<Rightarrow> 'h client \<Rightarrow> 'q \<Rightarrow>
   (bool \<times> go_error option \<times> http_response) \<times> string list" where
  "RoundTrip roundtrip0 c req =
     (case roundtrip0 req of (retry, err, resp) \<Rightarrow>
        ((retry, err, resp),
         if verbose c then [verbose_line (StatusCode resp) (length (Body resp)) (err \<noteq> None)] else []))"

end
