(* ===== verification/Http_Api.thy ===== *)
theory Http_Api
  imports Output
begin

text \<open>
  The request methods of \<^verbatim>\<open>client.go\<close>: \<^verbatim>\<open>LastBlock\<close>, \<^verbatim>\<open>Tx\<close>,
  \<^verbatim>\<open>TxSummary\<close>, \<^verbatim>\<open>TxSearch\<close>, the three broadcasts, \<^verbatim>\<open>Query\<close> and
  \<^verbatim>\<open>FetchNS\<close>. A method gives its result together with what it did: the requests
  it handed to \<^verbatim>\<open>fasthttp\<close> and the lines it logged.
\<close>


section \<open>Environment and results\<close>

text \<open>
  The library calls of the methods: header operations, the exchange of a request for a
  response or an error, the text of a status, URL parsing, and the text of the error with
  which \<^verbatim>\<open>json.Unmarshal\<close> refuses a body at a type.
\<close>

record 'h http_env =
  he_headers :: "'h header_ops"
  he_Do :: "'h http_request \<Rightarrow> http_response result"
  he_StatusMessage :: "int \<Rightarrow> string"
  he_url_Parse :: "string \<Rightarrow> url result"
  he_json_error :: "string \<Rightarrow> bytes \<Rightarrow> string"

record ('h, 'a) outcome =
  out_result :: "'a result"
  out_sent :: "'h http_request list"
  out_log :: "string list"

definition fail_with :: "go_error \<Rightarrow> 'h http_request list \<Rightarrow> string list \<Rightarrow> ('h, 'a) outcome" where
  "fail_with e sent log = \<lparr>out_result = Inl e, out_sent = sent, out_log = log\<rparr>"

text \<open>\<^verbatim>\<open>logError\<close> never logs the error itself.\<close>

definition logError :: "go_error \<Rightarrow> string list" where
  "logError err = [''read node request failed'']"

text \<open>
  \<^verbatim>\<open>json.Unmarshal\<close> at the types of the responses. The \<^verbatim>\<open>Data\<close> of the response
  of \<^verbatim>\<open>Tx\<close> and \<^verbatim>\<open>FetchNS\<close> points to a zero value before decoding.
\<close>

definition unmarshal_at :: "'h http_env \<Rightarrow> string \<Rightarrow> 'a decoder \<Rightarrow> 'a \<Rightarrow> bytes \<Rightarrow> 'a result" where
  "unmarshal_at E name d zero b =
     (case Unmarshal d zero b of None \<Rightarrow> Inl (LibError (he_json_error E name b)) | Some x \<Rightarrow> Inr x)"

definition get_Response :: "'h http_env \<Rightarrow> bytes \<Rightarrow> json Response result" where
  "get_Response E = unmarshal_at E ''Response'' dec_Response (Response_zero None)"

definition get_TxResponse :: "'h http_env \<Rightarrow> bytes \<Rightarrow> Transaction Response result" where
  "get_TxResponse E = unmarshal_at E ''Response of Transaction'' dec_TxResponse (Response_zero (Some Transaction_zero))"

definition get_NSResponse :: "'h http_env \<Rightarrow> bytes \<Rightarrow> NS Response result" where
  "get_NSResponse E = unmarshal_at E ''Response of NS'' dec_NSResponse (Response_zero (Some NS_zero))"

definition get_LastBlock :: "'h http_env \<Rightarrow> bytes \<Rightarrow> LastBlock result" where
  "get_LastBlock E = unmarshal_at E ''LastBlock'' dec_LastBlock LastBlock_zero"

definition get_Summary :: "'h http_env \<Rightarrow> bytes \<Rightarrow> SummaryResponse result" where
  "get_Summary E = unmarshal_at E ''SummaryResponse'' dec_SummaryResponse SummaryResponse_zero"

definition get_Search :: "'h http_env \<Rightarrow> bytes \<Rightarrow> SearchResponse result" where
  "get_Search E = unmarshal_at E ''SearchResponse'' dec_SearchResponse SearchResponse_zero"

definition get_Broadcast :: "'h http_env \<Rightarrow> bytes \<Rightarrow> BroadcastResponse result" where
  "get_Broadcast E = unmarshal_at E ''BroadcastResponse'' dec_BroadcastResponse BroadcastResponse_zero"

definition MethodGet :: string where "MethodGet = ''GET''"
definition MethodPost :: string where "MethodPost = ''POST''"

text \<open>
  \<^verbatim>\<open>parsedAddr\<close> parses the address again and ignores the error; without a URL the nil
  pointer makes the program panic, which is \<open>None\<close>.
\<close>

definition parsedAddr :: "'h http_env \<Rightarrow> 'h client \<Rightarrow> (string \<times> string) option" where
  "parsedAddr E c = (case he_url_Parse E (address c) of
     Inl _ \<Rightarrow> None | Inr u \<Rightarrow> Some (u_Scheme u, u_Host u))"

definition do_request :: "'h http_env \<Rightarrow> 'h http_request \<Rightarrow> http_response result" where
  "do_request E req = he_Do E req"

text \<open>The headers every request has: a copy of the client's and the content type.\<close>

definition json_headers :: "'h http_env \<Rightarrow> 'h client \<Rightarrow> 'h http_request \<Rightarrow> 'h http_request" where
  "json_headers E c req =
     (let req = copyHeaders c req
      in req\<lparr>req_Header := h_Set (he_headers E) ''Content-Type'' ''application/json'' (req_Header req)\<rparr>)"

definition set_uri :: "string \<Rightarrow> string \<Rightarrow> string \<Rightarrow> string \<Rightarrow> 'h http_request \<Rightarrow> 'h http_request" where
  "set_uri scheme host path query req =
     req\<lparr>req_Scheme := scheme, req_Host := host, req_Path := path, req_Query := query\<rparr>"

text \<open>
  The checks on the status that the methods share, with the statuses that count as success:
  the error and the log lines, or \<open>None\<close> to go on.
\<close>

definition check_status ::
  "'h http_env \<Rightarrow> (int \<Rightarrow> bool) \<Rightarrow> http_response \<Rightarrow> (go_error \<times> string list) option" where
  "check_status E success resp =
     (if StatusCode resp \<ge> 400 \<and> StatusCode resp < 500 then
        (case get_Response E (Body resp) of
           Inl err \<Rightarrow> Some (err, logError err)
         | Inr _ \<Rightarrow> let err = ErrorString ''read node request rejected'' in Some (err, logError err))
      else if StatusCode resp \<ge> 500 then Some (ErrorString (he_StatusMessage E (StatusCode resp)), [])
      else if \<not> success (StatusCode resp)
      then Some (ErrorString (''unexpected status code: '' @ FormatInt (StatusCode resp)), [])
      else None)"

text \<open>Sending, checking and decoding; \<open>log_decode\<close> says whether a decoding error is logged.\<close>

definition exchange ::
  "'h http_env \<Rightarrow> (int \<Rightarrow> bool) \<Rightarrow> bool \<Rightarrow> (bytes \<Rightarrow> 'a result) \<Rightarrow> 'h http_request \<Rightarrow> ('h, 'a) outcome" where
  "exchange E success log_decode decode req =
     (case do_request E req of
        Inl err \<Rightarrow> fail_with err [req] (logError err)
      | Inr resp \<Rightarrow>
          (case check_status E success resp of
             Some (err, log) \<Rightarrow> fail_with err [req] log
           | None \<Rightarrow>
               (case decode (Body resp) of
                  Inl err \<Rightarrow> fail_with err [req] (if log_decode then logError err else [])
                | Inr a \<Rightarrow> \<lparr>out_result = Inr a, out_sent = [req], out_log = []\<rparr>)))"

definition then_check :: "('a \<Rightarrow> 'b result) \<Rightarrow> ('h, 'a) outcome \<Rightarrow> ('h, 'b) outcome" where
  "then_check f r = \<lparr>out_result = (case out_result r of Inl e \<Rightarrow> Inl e | Inr a \<Rightarrow> f a),
     out_sent = out_sent r, out_log = out_log r\<rparr>"


section \<open>Reading blocks and transactions\<close>

definition chain_query :: "string option \<Rightarrow> string option \<Rightarrow> 'h client \<Rightarrow> string" where
  "chain_query cName cVersion c =
     (case (cName, cVersion) of
        (Some n, Some v) \<Rightarrow> ''chain_name='' @ QueryEscape n @ ''&chain_version='' @ QueryEscape v
      | _ \<Rightarrow> ''chain_name='' @ QueryEscape (chainName c) @ ''&chain_version='' @ QueryEscape (chainVersion c))"

definition client_Error :: "go_error \<Rightarrow> int \<Rightarrow> http_response option \<Rightarrow> go_error" where
  "client_Error origin code resp =
     Error CLIENTErr origin (error_text origin) code
       (case resp of None \<Rightarrow> 0 | Some r \<Rightarrow> StatusCode r) (responseSnapshot resp)"

definition LastBlock_exchange :: "'h http_env \<Rightarrow> 'h http_request \<Rightarrow> ('h, LastBlock) outcome" where
  "LastBlock_exchange E req =
     (case do_request E req of
        Inl err \<Rightarrow> fail_with (client_Error err 5 None) [req] (logError err)
      | Inr resp \<Rightarrow>
          if StatusCode resp \<ge> 400 \<and> StatusCode resp < 500 then
            (case get_Response E (Body resp) of
               Inl err \<Rightarrow> fail_with (client_Error err 6 (Some resp)) [req] (logError err)
             | Inr _ \<Rightarrow> let err = ErrorString ''read node request rejected'' in fail_with err [req] (logError err))
          else if StatusCode resp \<ge> 500 then
            fail_with (client_Error (ErrorString (he_StatusMessage E (StatusCode resp))) 7 (Some resp)) [req] []
          else if StatusCode resp \<noteq> 200 then
            fail_with (ErrorString (''unexpected status code: '' @ FormatInt (StatusCode resp))) [req] []
          else
            (case get_LastBlock E (Body resp) of
               Inl err \<Rightarrow> fail_with (client_Error err 8 (Some resp)) [req] (logError err)
             | Inr b \<Rightarrow> \<lparr>out_result = Inr b, out_sent = [req], out_log = []\<rparr>))"

text \<open>A method that needs the parsed address panics (\<open>None\<close>) without it.\<close>

definition LastBlock_get ::
  "'h http_env \<Rightarrow> string option \<Rightarrow> string option \<Rightarrow> 'h client \<Rightarrow> ('h, LastBlock) outcome option" where
  "LastBlock_get E cName cVersion c =
     (let u = ''limit=1&offset=0&'' @ chain_query cName cVersion c;
          req = json_headers E c (AcquireRequest (he_headers E))
      in case parsedAddr E c of
           None \<Rightarrow> None
         | Some (scheme, host) \<Rightarrow> Some (LastBlock_exchange E (set_uri scheme host ''/v1/blocks'' u req)))"

definition Tx ::
  "'h http_env \<Rightarrow> string \<Rightarrow> string \<Rightarrow> string option \<Rightarrow> string option \<Rightarrow> 'h client \<Rightarrow>
   ('h, Transaction) outcome option" where
  "Tx E i signature cName cVersion c =
     (if i = [] then
        Some (fail_with (Error PARAMETERErr (ErrorString ''invalid tx id'') ''invalid tx id'' 9 0 None) [] [])
      else
        let u = chain_query cName cVersion c in
        case parsedAddr E c of
          None \<Rightarrow> None
        | Some (scheme, host) \<Rightarrow>
            let req = set_uri scheme host (''/v1/tx/'' @ i) u (AcquireRequest (he_headers E));
                req = json_headers E c req;
                req = req\<lparr>req_Header := h_Set (he_headers E) ''X-Signature'' signature (req_Header req)\<rparr>
            in Some (then_check
                 (\<lambda>r. case GetData r of
                        None \<Rightarrow> Inl (ErrorString ''invalid transaction response'') | Some tx \<Rightarrow> Inr tx)
                 (exchange E (\<lambda>st. st = 200) True (get_TxResponse E) req)))"


section \<open>Summary and search\<close>

text \<open>The caller's struct is copied and the client's chain is filled in where none is given.\<close>

definition Summary_with_chain :: "'h client \<Rightarrow> Summary \<Rightarrow> Summary" where
  "Summary_with_chain c summary =
     (let summary = (if sm_ChainName summary = None then summary\<lparr>sm_ChainName := Some (chainName c)\<rparr> else summary)
      in if sm_ChainVersion summary = None then summary\<lparr>sm_ChainVersion := Some (chainVersion c)\<rparr> else summary)"

definition Search_with_chain :: "'h client \<Rightarrow> Search \<Rightarrow> Search" where
  "Search_with_chain c search =
     (let search = (if s_ChainName search = None then search\<lparr>s_ChainName := Some (chainName c)\<rparr> else search)
      in if s_ChainVersion search = None then search\<lparr>s_ChainVersion := Some (chainVersion c)\<rparr> else search)"

definition TxSummary ::
  "'h http_env \<Rightarrow> Summary option \<Rightarrow> 'h client \<Rightarrow>
   ('h, uint64 \<times> Transaction option \<times> uint64) outcome option" where
  "TxSummary E summary0 c =
     (case summary0 of
        None \<Rightarrow> Some (fail_with (ErrorString ''invalid parameters'') [] [])
      | Some summary \<Rightarrow>
          if \<not> Summary_IsValid summary then Some (fail_with (ErrorString ''invalid parameters'') [] [])
          else
            let summary = Summary_with_chain c summary
            in (case Summary_ToRequest (he_headers E) summary of
                  Inl err \<Rightarrow> Some (fail_with err [] (logError err))
                | Inr req \<Rightarrow>
                    (case parsedAddr E c of
                       None \<Rightarrow> None
                     | Some (scheme, host) \<Rightarrow>
                         let req = json_headers E c (set_uri scheme host (Summary_URI summary) [] req);
                             req = req\<lparr>req_Method := Some MethodPost\<rparr>
                         in Some (then_check
                              (\<lambda>r. Inr (smr_LastBlockHeight r, smr_LastTransaction r, smr_TotalCount r))
                              (exchange E (\<lambda>st. st = 200) True (get_Summary E) req)))))"

definition TxSearch ::
  "'h http_env \<Rightarrow> Search option \<Rightarrow> 'h client \<Rightarrow>
   ('h, Transaction option list option \<times> uint64) outcome option" where
  "TxSearch E search0 c =
     (let invalid = (let err = ErrorString ''invalid parameters'' in Some (fail_with err [] (logError err))) in
      case search0 of
        None \<Rightarrow> invalid
      | Some search \<Rightarrow>
          if \<not> Search_IsValid search then invalid
          else
            let search = Search_with_chain c search
            in (case Search_ToRequest (he_headers E) search of
                  Inl err \<Rightarrow> Some (fail_with err [] (logError err))
                | Inr req \<Rightarrow>
                    (case parsedAddr E c of
                       None \<Rightarrow> None
                     | Some (scheme, host) \<Rightarrow>
                         let req = set_uri scheme host (Search_URI search) [] (json_headers E c req);
                             req = req\<lparr>req_Method := Some MethodPost\<rparr>
                         in Some (then_check (\<lambda>r. Inr (sr_TXS r, sr_TotalCount r))
                              (exchange E (\<lambda>st. st = 200) True (get_Search E) req)))))"


section \<open>Broadcasts\<close>

text \<open>\<open>b\<close> holds the arguments of the method, which it puts into the struct in this form.\<close>

definition broadcast ::
  "'h http_env \<Rightarrow> Broadcast \<Rightarrow> bool \<Rightarrow> bool \<Rightarrow> 'h client \<Rightarrow> ('h, BroadcastResponse) outcome option" where
  "broadcast E b commit sync c =
     (if \<not> Type_IsValid (b_Type b) then
        (let err = ErrorString ''invalid type'' in Some (fail_with err [] (logError err)))
      else
        (case Broadcast_ToRequest (he_headers E) b of
           Inl err \<Rightarrow> Some (fail_with err [] (logError err))
         | Inr req \<Rightarrow>
             (case parsedAddr E c of
                None \<Rightarrow> None
              | Some (scheme, host) \<Rightarrow>
                  let req = set_uri scheme host (Broadcast_URI b commit sync) [] (json_headers E c req);
                      req = req\<lparr>req_Method := Some MethodPost\<rparr>
                  in Some (exchange E (\<lambda>st. st = 201) False (get_Broadcast E) req))))"

definition log_failure :: "('h, 'a) outcome \<Rightarrow> ('h, 'a) outcome" where
  "log_failure r = (case out_result r of
     Inl err \<Rightarrow> r\<lparr>out_log := out_log r @ logError err\<rparr> | Inr _ \<Rightarrow> r)"

definition Broadcast_async where
  "Broadcast_async E b c = map_option log_failure (broadcast E b False False c)"

definition BroadcastSync where
  "BroadcastSync E b c = map_option log_failure (broadcast E b False True c)"

definition BroadcastCommit where
  "BroadcastCommit E b c = map_option log_failure (broadcast E b True False c)"


section \<open>Query and FetchNS\<close>

fun add_headers :: "'h header_ops \<Rightarrow> (string, string list) gomap \<Rightarrow> 'h \<Rightarrow> 'h" where
  "add_headers H [] h = h"
| "add_headers H ((k, vs) # m) h = add_headers H m (fold (h_Add H k) vs h)"

definition Query ::
  "'h http_env \<Rightarrow> string \<Rightarrow> string \<Rightarrow> bytes option \<Rightarrow> (string, string list) gomap \<Rightarrow> 'h client \<Rightarrow>
   ('h, json Response) outcome option" where
  "Query E m path data hdrs c =
     (if \<not> fst (InArray m (Some [MethodGet, MethodPost]))
      then Some (fail_with (ErrorString ''invalid method'') [] [])
      else
        let req = json_headers E c (AcquireRequest (he_headers E));
            req = req\<lparr>req_Header := add_headers (he_headers E) hdrs (req_Header req)\<rparr>
        in case parsedAddr E c of
             None \<Rightarrow> None
           | Some (scheme, host) \<Rightarrow>
               let req = set_uri scheme host path [] req;
                   req = (case data of None \<Rightarrow> req | Some d \<Rightarrow> req\<lparr>req_Body := d\<rparr>);
                   req = req\<lparr>req_Method := Some m\<rparr>
               in Some (exchange E (\<lambda>st. \<not> (st < 200 \<or> st \<ge> 300)) True (get_Response E) req))"

definition FetchNS ::
  "'h http_env \<Rightarrow> string \<Rightarrow> 'h client \<Rightarrow> ('h, NS) outcome option" where
  "FetchNS E identifier c =
     (let req = json_headers E c (AcquireRequest (he_headers E)) in
      case parsedAddr E c of
        None \<Rightarrow> None
      | Some (scheme, host) \<Rightarrow>
          let req = set_uri scheme host (''/v1/ns/'' @ identifier) [] req;
              req = req\<lparr>req_Method := Some MethodGet\<rparr>
          in Some (then_check
               (\<lambda>r. case rsp_Data r of
                      None \<Rightarrow> Inl (ErrorString ''invalid namespace response'') | Some ns \<Rightarrow> Inr ns)
               (exchange E (\<lambda>st. st = 200) True (get_NSResponse E) req)))"


lemmas http_defs [client_defs] = LastBlock_get_def Tx_def TxSummary_def TxSearch_def broadcast_def
  Query_def FetchNS_def Broadcast_async_def BroadcastSync_def BroadcastCommit_def


section \<open>Lemmas\<close>

lemma then_check_simps [simp]:
  "out_sent (then_check f r) = out_sent r" "out_log (then_check f r) = out_log r"
  "out_result (then_check f r) = (case out_result r of Inl e \<Rightarrow> Inl e | Inr a \<Rightarrow> f a)"
  by (simp_all add: then_check_def)

lemma fail_with_simps [simp]:
  "out_sent (fail_with e s l) = s" "out_log (fail_with e s l) = l" "out_result (fail_with e s l) = Inl e"
  by (simp_all add: fail_with_def)

lemma log_failure_simps [simp]:
  "out_sent (log_failure r) = out_sent r" "out_result (log_failure r) = out_result r"
  "set (out_log (log_failure r)) = set (out_log r) \<union> (if isl (out_result r) then {''read node request failed''} else {})"
  by (auto simp: log_failure_def logError_def split: sum.splits)

lemma exchange_sent [simp]: "out_sent (exchange E ok l dec req) = [req]"
  by (simp add: exchange_def split: sum.split option.split)

lemma LastBlock_exchange_sent [simp]: "out_sent (LastBlock_exchange E req) = [req]"
  by (simp add: LastBlock_exchange_def Let_def split: sum.split)

lemma check_status_log: "check_status E ok resp = Some (e, l) \<Longrightarrow> set l \<subseteq> {''read node request failed''}"
  by (auto simp: check_status_def logError_def Let_def split: if_splits sum.splits)

lemma exchange_log: "set (out_log (exchange E ok l dec req)) \<subseteq> {''read node request failed''}"
  by (auto simp: exchange_def logError_def split: sum.splits option.splits dest: check_status_log)

lemma LastBlock_exchange_log: "set (out_log (LastBlock_exchange E req)) \<subseteq> {''read node request failed''}"
  by (simp add: LastBlock_exchange_def logError_def Let_def split: sum.split)

text \<open>The statuses that lead to a result: those that count as success and are not errors.\<close>

lemma check_status_None:
  "check_status E ok resp = None \<longleftrightarrow> StatusCode resp < 400 \<and> ok (StatusCode resp)"
  by (auto simp: check_status_def Let_def split: if_splits sum.splits)

lemma exchange_Inr:
  "out_result (exchange E ok l dec req) = Inr a \<longleftrightarrow>
     (\<exists>resp. he_Do E req = Inr resp \<and> StatusCode resp < 400 \<and> ok (StatusCode resp) \<and> dec (Body resp) = Inr a)"
proof (cases "he_Do E req")
  case (Inl e)
  then show ?thesis by (simp add: exchange_def do_request_def)
next
  case (Inr resp)
  then show ?thesis
    using check_status_None [of E ok resp]
    by (cases "check_status E ok resp"; cases "dec (Body resp)")
      (auto simp: exchange_def do_request_def)
qed

text \<open>The error of an exchange, by status, in the order of the checks.\<close>

definition status_error :: "'h http_env \<Rightarrow> http_response \<Rightarrow> go_error" where
  "status_error E resp =
     (if StatusCode resp \<ge> 500 then ErrorString (he_StatusMessage E (StatusCode resp))
      else if StatusCode resp \<ge> 400
      then (case get_Response E (Body resp) of Inl e \<Rightarrow> e | Inr _ \<Rightarrow> ErrorString ''read node request rejected'')
      else ErrorString (''unexpected status code: '' @ FormatInt (StatusCode resp)))"

lemma exchange_Inl:
  "out_result (exchange E ok l dec req) =
     (case he_Do E req of
        Inl e \<Rightarrow> Inl e
      | Inr resp \<Rightarrow> if StatusCode resp < 400 \<and> ok (StatusCode resp) then dec (Body resp)
                   else Inl (status_error E resp))"
  by (auto simp: exchange_def do_request_def check_status_def status_error_def Let_def
      split: sum.split option.split)

text \<open>A constructed client has an address that parses.\<close>

lemma newClient_parsedAddr:
  assumes "newClient N ctx addr wsAddr cName cVersion insecure fp cert = Inr c"
    and "he_url_Parse E = env_url_Parse N"
  shows "\<exists>u. parsedAddr E c = Some (u_Scheme u, u_Host u) \<and> env_url_Parse N addr = Inr u"
  using assms(1)
proof (rule newClient_Inr)
  fix aURL assume "env_url_Parse N addr = Inr aURL" "address c = addr"
  with assms(2) show ?thesis by (simp add: parsedAddr_def)
qed

text \<open>The chain a request names: the one given, if both parts are, and the client's otherwise.\<close>

definition chain_of :: "string option \<Rightarrow> string option \<Rightarrow> 'h client \<Rightarrow> string \<times> string" where
  "chain_of cName cVersion c = (if cName \<noteq> None \<and> cVersion \<noteq> None
     then (the cName, the cVersion) else (chainName c, chainVersion c))"

lemma chain_query_eq:
  "chain_query n v c = ''chain_name='' @ QueryEscape (fst (chain_of n v c)) @ ''&chain_version='' @
     QueryEscape (snd (chain_of n v c))"
  by (simp add: chain_query_def chain_of_def split: option.split)

lemma chain_query_inject:
  "chain_query n v c = chain_query n' v' c' \<longleftrightarrow> chain_of n v c = chain_of n' v' c'"
proof -
  have "QueryEscape x @ ''&chain_version='' @ us = QueryEscape y @ ''&chain_version='' @ vs \<longleftrightarrow> x = y \<and> us = vs"
    for x y us vs
    using qryc.enc_join_inject [of "CHR ''&''" x "''chain_version='' @ us" y "''chain_version='' @ vs"] by simp
  then show ?thesis by (auto simp: chain_query_eq qryc.enc_inject prod_eq_iff)
qed

lemma Search_with_chain_eq:
  "(Search_with_chain c s)\<lparr>s_PHeight := Search_PHeight (Search_with_chain c s)\<rparr> =
     s\<lparr>s_PHeight := Search_PHeight s,
       s_ChainName := Some (case s_ChainName s of None \<Rightarrow> chainName c | Some x \<Rightarrow> x),
       s_ChainVersion := Some (case s_ChainVersion s of None \<Rightarrow> chainVersion c | Some x \<Rightarrow> x)\<rparr>"
  by (cases s) (auto simp: Search_with_chain_def Search_PHeight_def split: option.split)

lemma search_result:
  "out_result (then_check (\<lambda>r. Inr (sr_TXS r, sr_TotalCount r)) (exchange E (\<lambda>st. st = 200) l (get_Search E) req)) =
     Inr (txs, k) \<longleftrightarrow>
   (\<exists>resp x. he_Do E req = Inr resp \<and> StatusCode resp = 200 \<and> get_Search E (Body resp) = Inr x \<and>
      sr_TXS x = txs \<and> sr_TotalCount x = k)"
  by (auto simp: exchange_Inl split: sum.splits)


section \<open>Properties\<close>

text \<open>An environment in which every exchange succeeds with the given response.\<close>

definition example_http :: "http_response \<Rightarrow> (string \<times> string) list http_env" where
  "example_http resp = \<lparr>he_headers = assoc_headers, he_Do = (\<lambda>_. Inr resp),
     he_StatusMessage = (\<lambda>_. ''status''), he_url_Parse = env_url_Parse example_env,
     he_json_error = (\<lambda>_ _. ''json'')\<rparr>"

definition example_broadcast :: Broadcast where
  "example_broadcast = \<lparr>b_ID = ''i'', b_Version = 1, b_Type = TypeTransfer, b_SenderAddr = ''s'',
     b_RecipientAddr = ''r'', b_Data = None, b_AdditionalData = None, b_CipherData = None,
     b_Sign = None, b_Fee = 0\<rparr>"

text \<open>A response with a receipt of a broadcast as its body.\<close>

definition example_receipt :: json where
  "example_receipt = JObj (field ''data'' (JObj (field ''hash'' (JStr ''h'') @ field ''log'' (JStr ''l''))))"

definition status_response :: "int \<Rightarrow> http_response" where
  "status_response n = \<lparr>StatusCode = n, Body = json_Marshal example_receipt, RespHeader = [(''k'', ''v'')]\<rparr>"

lemma get_Broadcast_receipt:
  "get_Broadcast E (json_Marshal example_receipt) = Inr (BroadcastResponse_zero\<lparr>br_Hash := ''h'', br_Log := ''l''\<rparr>)"
proof -
  have ok: "json_ok example_receipt"
    unfolding example_receipt_def
    by (rule json_ok_obj) (simp add: field_def plain_name_def plain_name_valid)
  have "valid_utf8 ''h''" "valid_utf8 ''l''" by (rule plain_name_valid; simp add: plain_name_def)+
  then have "dec_BroadcastResponse (raw_of True example_receipt) BroadcastResponse_zero =
      Some (BroadcastResponse_zero\<lparr>br_Hash := ''h'', br_Log := ''l''\<rparr>)"
    unfolding example_receipt_def dec_BroadcastResponse_def
    by (simp add: dec_struct_obj dec_members_field dec_member_def plain_name_def BroadcastResponse_fields_def
        BroadcastResponse_Data_fields_def json_field_def codec_simps del: raw_of.simps)
  then show ?thesis
    by (simp add: get_Broadcast_def unmarshal_at_def Unmarshal_def json_Unmarshal_text [OF ok])
qed

definition sent_count :: "('h, 'a) outcome option \<Rightarrow> nat option" where
  "sent_count r = map_option (\<lambda>o'. length (out_sent o')) r"

definition log_of :: "('h, 'a) outcome option \<Rightarrow> string list" where
  "log_of r = (case r of None \<Rightarrow> [] | Some o' \<Rightarrow> out_log o')"

text \<open>
  C30. A constructed client never panics in a request method, and requests that it can see to
  be wrong never reach the network, while every other call sends exactly one request: an
  empty transaction id, a missing or invalid summary or search, an invalid transaction type
  and a method other than GET and POST send nothing.
\<close>

theorem invalid_requests_not_sent:
  assumes "newClient N ctx addr wsAddr cName cVersion insecure fp cert = Inr c"
    and "he_url_Parse E = env_url_Parse N"
  shows "sent_count (LastBlock_get E n v c) = Some 1 \<and>
    sent_count (Tx E i sg n v c) = Some (if i = [] then 0 else 1) \<and>
    sent_count (TxSummary E sm c) = Some (if sm = None \<or> \<not> Summary_IsValid (the sm) then 0 else 1) \<and>
    sent_count (TxSearch E se c) = Some (if se = None \<or> \<not> Search_IsValid (the se) then 0 else 1) \<and>
    sent_count (broadcast E b cm sy c) = Some (if Type_IsValid (b_Type b) then 1 else 0) \<and>
    sent_count (Query E m path data hdrs c) = Some (if m = ''GET'' \<or> m = ''POST'' then 1 else 0) \<and>
    sent_count (FetchNS E ident c) = Some 1"
proof -
  obtain u :: url where u: "parsedAddr E c = Some (u_Scheme u, u_Host u)"
    using newClient_parsedAddr [OF assms] by blast
  have "sent_count (TxSummary E sm c) = Some (if sm = None \<or> \<not> Summary_IsValid (the sm) then 0 else 1)"
    using u by (cases sm) (auto simp: sent_count_def TxSummary_def Summary_ToRequest_def Summary_ToJSON_def Let_def)
  moreover have "sent_count (TxSearch E se c) = Some (if se = None \<or> \<not> Search_IsValid (the se) then 0 else 1)"
    using u by (cases se) (auto simp: sent_count_def TxSearch_def Search_ToRequest_def Search_ToJSON_def Let_def)
  moreover have "sent_count (Query E m path data hdrs c) = Some (if m = ''GET'' \<or> m = ''POST'' then 1 else 0)"
    using u by (auto simp: sent_count_def Query_def InArray_def InArray_loop_spec MethodGet_def MethodPost_def Let_def)
  ultimately show ?thesis
    using u by (simp add: sent_count_def LastBlock_get_def Tx_def broadcast_def Broadcast_ToRequest_def
        Broadcast_ToJSON_def FetchNS_def Let_def)
qed

theorem invalid_requests_not_sent_witness:
  "sent_count (Tx (example_http (status_response 200)) [] [] None None example_client) = Some 0 \<and>
   sent_count (FetchNS (example_http (status_response 200)) ''me'' example_client) = Some 1"
proof -
  have "he_url_Parse (example_http (status_response 200)) = env_url_Parse example_env"
    by (simp add: example_http_def)
  from invalid_requests_not_sent [OF example_client_new this, of None None "[]" "[]"] show ?thesis by simp
qed

text \<open>
  C29. A broadcast succeeds only if the type is valid and the node answered the POST to the
  right path, with the JSON of exactly the given transaction as its body, with status 201
  and a body that decodes to the result.
\<close>

theorem broadcast_success:
  assumes "broadcast E b commit sync c = Some r" "out_result r = Inr a"
  shows "Type_IsValid (b_Type b) \<and>
    (\<exists>req resp. out_sent r = [req] \<and> req_Method req = Some ''POST'' \<and>
       req_Path req = (if commit then ''/v1/tx/commit'' else if sync then ''/v1/tx/sync'' else ''/v1/tx'') \<and>
       req_Body req = json_Marshal (json_of_Broadcast b) \<and>
       he_Do E req = Inr resp \<and> StatusCode resp = 201 \<and> get_Broadcast E (Body resp) = Inr a)"
  using assms
  by (auto simp: broadcast_def Broadcast_ToRequest_def Broadcast_ToJSON_def Let_def exchange_Inr
      set_uri_def json_headers_def copyHeaders_def Broadcast_URI_def MethodPost_def
      split: if_splits option.splits)

theorem broadcast_success_witness:
  "\<exists>r a. broadcast (example_http (status_response 201)) example_broadcast False True example_client = Some r \<and>
     out_result r = Inr a \<and> (\<exists>req. out_sent r = [req] \<and> req_Path req = ''/v1/tx/sync'')"
proof -
  let ?E = "example_http (status_response 201)"
  obtain r where r: "broadcast ?E example_broadcast False True example_client = Some r"
    "out_result r = get_Broadcast ?E (json_Marshal example_receipt)"
    by (simp add: broadcast_def Broadcast_ToRequest_def Broadcast_ToJSON_def Let_def exchange_Inl
        parsedAddr_def example_http_def example_broadcast_def example_client_def status_response_def
        Type_IsValid_iff TypesSlice_def)
  obtain a where a: "out_result r = Inr a" using r(2) by (simp add: get_Broadcast_receipt)
  show ?thesis using r(1) a broadcast_success [OF r(1) a] by auto
qed

text \<open>
  C27. A transaction is returned only for a non-empty id, when the node answered the request
  for that id, carrying the caller's signature header and the chain, with status 200 and a
  body whose data is that transaction; in every other case the error is the one of the
  transport, of the status (with 400 to 499 reported as rejected, 500 and above by its
  status text, anything else as unexpected), or of the body, in this order.
\<close>

theorem Tx_result:
  assumes "parsedAddr E c = Some (scheme, host)" "i \<noteq> []"
  shows "\<exists>r req. Tx E i sg n v c = Some r \<and> out_sent r = [req] \<and>
    req_Path req = ''/v1/tx/'' @ i \<and> req_Query req = chain_query n v c \<and> req_Host req = host \<and>
    req_Header req = h_Set (he_headers E) ''X-Signature'' sg
      (h_Set (he_headers E) ''Content-Type'' ''application/json'' (headers c)) \<and>
    out_result r =
      (case he_Do E req of
         Inl e \<Rightarrow> Inl e
       | Inr resp \<Rightarrow>
           if StatusCode resp = 200
           then (case get_TxResponse E (Body resp) of
                   Inl e \<Rightarrow> Inl e
                 | Inr x \<Rightarrow> (case rsp_Data x of None \<Rightarrow> Inl (ErrorString ''invalid transaction response'')
                             | Some tx \<Rightarrow> Inr tx))
           else Inl (status_error E resp))"
proof -
  let ?req = "let req = json_headers E c (set_uri scheme host (''/v1/tx/'' @ i) (chain_query n v c) (AcquireRequest (he_headers E)))
    in req\<lparr>req_Header := h_Set (he_headers E) ''X-Signature'' sg (req_Header req)\<rparr>"
  let ?r = "then_check
     (\<lambda>r. case GetData r of None \<Rightarrow> Inl (ErrorString ''invalid transaction response'') | Some tx \<Rightarrow> Inr tx)
     (exchange E (\<lambda>st. st = 200) True (get_TxResponse E) ?req)"
  have "Tx E i sg n v c = Some ?r" using assms by (simp add: Tx_def Let_def)
  moreover have "out_result ?r =
      (case he_Do E ?req of
         Inl e \<Rightarrow> Inl e
       | Inr resp \<Rightarrow>
           if StatusCode resp = 200
           then (case get_TxResponse E (Body resp) of
                   Inl e \<Rightarrow> Inl e
                 | Inr x \<Rightarrow> (case rsp_Data x of None \<Rightarrow> Inl (ErrorString ''invalid transaction response'')
                             | Some tx \<Rightarrow> Inr tx))
           else Inl (status_error E resp))"
    by (auto simp: exchange_Inl GetData_def split: sum.split option.split)
  ultimately show ?thesis
    by (intro exI [of _ ?r] exI [of _ ?req])
      (simp add: json_headers_def set_uri_def copyHeaders_def Let_def)
qed

theorem Tx_result_witness:
  "\<exists>r. Tx (example_http (status_response 503)) ''id'' ''sig'' None None example_client = Some r \<and>
     out_result r = Inl (ErrorString ''status'')"
proof -
  let ?E = "example_http (status_response 503)"
  have "parsedAddr ?E example_client = Some (''https'', ''a'')"
    by (simp add: parsedAddr_def example_http_def example_client_def)
  from Tx_result [OF this, of "''id''" "''sig''" None None] show ?thesis
    by (auto simp: example_http_def status_error_def status_response_def)
qed

text \<open>
  C32. Every error struct that \<^verbatim>\<open>LastBlock\<close> returns is a client error whose code says
  where the call failed (5 transport, 6 undecodable rejection, 7 server error, 8 undecodable
  result), whose origin \<^verbatim>\<open>errors.Is\<close> finds, and whose copy of the response carries
  the status and nothing else: no header and no byte of the body.
\<close>

theorem LastBlock_errors:
  assumes "LastBlock_get E n v c = Some r" "out_result r = Inl (Error t orig msg code st resp)"
  shows "t = CLIENTErr \<and> msg = error_text orig \<and> code \<in> {5, 6, 7, 8} \<and>
    errors_Is (Error t orig msg code st resp) orig \<and>
    (code = 5 \<longleftrightarrow> resp = None) \<and>
    (\<forall>s. resp = Some s \<longrightarrow> Body s = [] \<and> RespHeader s = [] \<and> StatusCode s = st \<and>
       (code = 6 \<longrightarrow> 400 \<le> st \<and> st < 500) \<and> (code = 7 \<longrightarrow> 500 \<le> st) \<and> (code = 8 \<longrightarrow> st = 200))"
proof -
  have is_refl: "errors_Is e e" for e by (cases e) simp_all
  obtain req where "r = LastBlock_exchange E req"
    using assms(1) by (auto simp: LastBlock_get_def Let_def split: option.splits)
  with assms(2) show ?thesis
    by (auto simp: LastBlock_exchange_def client_Error_def responseSnapshot_def fasthttp_Response_zero_def
        is_refl Let_def split: sum.splits if_splits)
qed

theorem LastBlock_errors_witness:
  "\<exists>r orig msg resp. LastBlock_get (example_http (status_response 503)) None None example_client = Some r \<and>
     out_result r = Inl (Error CLIENTErr orig msg 7 503 (Some resp)) \<and> Body resp = []"
proof -
  let ?E = "example_http (status_response 503)"
  obtain r where r: "LastBlock_get ?E None None example_client = Some r"
    "out_result r = Inl (Error CLIENTErr (ErrorString ''status'') ''status'' 7 503
       (responseSnapshot (Some (status_response 503))))"
    by (simp add: LastBlock_get_def LastBlock_exchange_def parsedAddr_def do_request_def client_Error_def
        example_http_def example_client_def status_response_def Let_def)
  from LastBlock_errors [OF r] r show ?thesis
    by (auto simp: responseSnapshot_def)
qed

text \<open>
  C34. Nothing of a request, a response or an error reaches the log: every line any of the
  request methods logs is the same constant; and the transport prints nothing unless the
  client is verbose, and then one line made of the status, the size of the body and whether
  the exchange failed.
\<close>

theorem logs_are_constant:
  "set (log_of (LastBlock_get E n v c)) \<subseteq> {''read node request failed''} \<and>
   set (log_of (Tx E i sg n v c)) \<subseteq> {''read node request failed''} \<and>
   set (log_of (TxSummary E sm c)) \<subseteq> {''read node request failed''} \<and>
   set (log_of (TxSearch E se c)) \<subseteq> {''read node request failed''} \<and>
   set (log_of (Broadcast_async E b c)) \<subseteq> {''read node request failed''} \<and>
   set (log_of (BroadcastSync E b c)) \<subseteq> {''read node request failed''} \<and>
   set (log_of (BroadcastCommit E b c)) \<subseteq> {''read node request failed''} \<and>
   set (log_of (Query E m path data hdrs c)) \<subseteq> {''read node request failed''} \<and>
   set (log_of (FetchNS E ident c)) \<subseteq> {''read node request failed''} \<and>
   snd (RoundTrip rt c q) = (case rt q of (retry, err, resp) \<Rightarrow>
     if verbose c then [verbose_line (StatusCode resp) (length (Body resp)) (err \<noteq> None)] else [])"
proof -
  note x = exchange_log
  have b: "set (log_of (broadcast E b cm sy c)) \<subseteq> {''read node request failed''}" for cm sy
    by (auto simp: log_of_def broadcast_def logError_def Broadcast_ToRequest_def Broadcast_ToJSON_def Let_def
        split: option.splits dest!: subsetD [OF x])
  have l: "set (log_of (map_option log_failure r)) \<subseteq> {''read node request failed''}"
    if "set (log_of r) \<subseteq> {''read node request failed''}" for r :: "('a, BroadcastResponse) outcome option"
    using that by (cases r) (auto simp: log_of_def)
  have "set (log_of (LastBlock_get E n v c)) \<subseteq> {''read node request failed''}"
    by (auto simp: log_of_def LastBlock_get_def Let_def split: option.splits dest!: subsetD [OF LastBlock_exchange_log])
  moreover have "set (log_of (Tx E i sg n v c)) \<subseteq> {''read node request failed''}"
    by (auto simp: log_of_def Tx_def Let_def split: option.splits dest!: subsetD [OF x])
  moreover have "set (log_of (TxSummary E sm c)) \<subseteq> {''read node request failed''}"
    by (auto simp: log_of_def TxSummary_def Summary_ToRequest_def Summary_ToJSON_def logError_def Let_def
        split: option.splits if_splits dest!: subsetD [OF x])
  moreover have "set (log_of (TxSearch E se c)) \<subseteq> {''read node request failed''}"
    by (auto simp: log_of_def TxSearch_def Search_ToRequest_def Search_ToJSON_def logError_def Let_def
        split: option.splits if_splits dest!: subsetD [OF x])
  moreover have "set (log_of (Query E m path data hdrs c)) \<subseteq> {''read node request failed''}"
    by (auto simp: log_of_def Query_def Let_def split: option.splits if_splits dest!: subsetD [OF x])
  moreover have "set (log_of (FetchNS E ident c)) \<subseteq> {''read node request failed''}"
    by (auto simp: log_of_def FetchNS_def Let_def split: option.splits dest!: subsetD [OF x])
  ultimately show ?thesis
    using l [OF b] by (simp add: Broadcast_async_def BroadcastSync_def BroadcastCommit_def RoundTrip_def split: prod.split)
qed

text \<open>
  C33. The query string names the chain unambiguously: two calls send the same query exactly
  when they mean the same chain, which is the given one if both its parts are given and the
  client's otherwise, whatever characters the names contain.
\<close>

theorem chain_query_unambiguous:
  "chain_query n v c = chain_query n' v' c' \<longleftrightarrow> chain_of n v c = chain_of n' v' c'"
  by (rule chain_query_inject)

text \<open>
  C31. A valid search is sent as one POST whose body is the JSON of the caller's search with
  the height rendered from operator and number (never the caller's own text) and the
  client's chain filled in where the caller gave none; the result is that of a 200 response.
\<close>

theorem TxSearch_request:
  assumes "Search_IsValid s" "parsedAddr E c = Some (scheme, host)"
  shows "\<exists>r req. TxSearch E (Some s) c = Some r \<and> out_sent r = [req] \<and>
    req_Method req = Some ''POST'' \<and> req_Path req = ''/v1/tx_search/p'' \<and> req_Host req = host \<and>
    req_Body req = json_Encode_raw (json_of_Search (s\<lparr>s_PHeight := Search_PHeight s,
      s_ChainName := Some (case s_ChainName s of None \<Rightarrow> chainName c | Some x \<Rightarrow> x),
      s_ChainVersion := Some (case s_ChainVersion s of None \<Rightarrow> chainVersion c | Some x \<Rightarrow> x)\<rparr>)) \<and>
    (\<forall>txs k. out_result r = Inr (txs, k) \<longleftrightarrow>
       (\<exists>resp x. he_Do E req = Inr resp \<and> StatusCode resp = 200 \<and> get_Search E (Body resp) = Inr x \<and>
          sr_TXS x = txs \<and> sr_TotalCount x = k))"
proof -
  let ?s = "Search_with_chain c s"
  let ?b = "(AcquireRequest (he_headers E))\<lparr>req_Body := json_Encode_raw (json_of_Search (?s\<lparr>s_PHeight := Search_PHeight ?s\<rparr>))\<rparr>"
  let ?req = "(set_uri scheme host (Search_URI ?s) [] (json_headers E c ?b))\<lparr>req_Method := Some MethodPost\<rparr>"
  let ?r = "then_check (\<lambda>r. Inr (sr_TXS r, sr_TotalCount r)) (exchange E (\<lambda>st. st = 200) True (get_Search E) ?req)"
  have "TxSearch E (Some s) c = Some ?r"
    using assms by (simp add: TxSearch_def Search_ToRequest_def Search_ToJSON_def Let_def)
  moreover have "req_Body ?req = json_Encode_raw (json_of_Search (s\<lparr>s_PHeight := Search_PHeight s,
      s_ChainName := Some (case s_ChainName s of None \<Rightarrow> chainName c | Some x \<Rightarrow> x),
      s_ChainVersion := Some (case s_ChainVersion s of None \<Rightarrow> chainVersion c | Some x \<Rightarrow> x)\<rparr>))"
    by (simp add: json_headers_def set_uri_def copyHeaders_def Let_def Search_with_chain_eq)
  moreover have "out_result ?r = Inr (txs, k) \<longleftrightarrow>
       (\<exists>resp x. he_Do E ?req = Inr resp \<and> StatusCode resp = 200 \<and> get_Search E (Body resp) = Inr x \<and>
          sr_TXS x = txs \<and> sr_TotalCount x = k)" for txs k
    by (rule search_result)
  moreover have "req_Method ?req = Some ''POST''" "req_Path ?req = ''/v1/tx_search/p''" "req_Host ?req = host"
    by (simp_all add: set_uri_def Search_URI_def MethodPost_def)
  ultimately show ?thesis by (intro exI [of _ ?r] exI [of _ ?req]) (simp del: then_check_simps(3))
qed

theorem TxSearch_request_witness:
  "\<exists>r req. TxSearch (example_http (status_response 200)) (Some example_search) example_client = Some r \<and>
     out_sent r = [req] \<and> req_Path req = ''/v1/tx_search/p''"
proof -
  have "parsedAddr (example_http (status_response 200)) example_client = Some (''https'', ''a'')"
    by (simp add: parsedAddr_def example_http_def example_client_def)
  from TxSearch_request [OF example_search_valid this] show ?thesis by blast
qed

text \<open>A search as it is sent, and an exchange whose result is an invariant of its decoder.\<close>

definition search_sent :: "'h client \<Rightarrow> Search \<Rightarrow> Search" where
  "search_sent c s = (Search_with_chain c s)\<lparr>s_PHeight := Search_PHeight (Search_with_chain c s)\<rparr>"

lemma exchange_keeps:
  assumes "out_result (exchange E okst l (unmarshal_at E name d zero) req) = Inr a" "keeps P d" "P zero"
  shows "P a"
  using assms(1) keepsD [OF assms(2,3)]
  by (auto simp: exchange_Inr unmarshal_at_def Unmarshal_def split: option.splits)

lemma then_check_Inr:
  "out_result (then_check f r) = Inr b \<longleftrightarrow> (\<exists>a. out_result r = Inr a \<and> f a = Inr b)"
  by (simp split: sum.split)

text \<open>
  C20. The node reads what the caller asked for: the body of a broadcast, a search and a
  summary, decoded at the other end with the same struct, is the broadcast, search (with the
  rendered height) and summary that was given, with the client's chain filled in. Empty
  lists come back as absent ones and maps sorted by key.
\<close>

theorem request_bodies_decode:
  assumes "Broadcast_ok b" "Search_ok (search_sent c s)" "Summary_ok (Summary_with_chain c sm)"
  shows "(\<forall>r req. broadcast E b cm sy c = Some r \<and> req \<in> set (out_sent r) \<longrightarrow>
      Unmarshal dec_Broadcast Broadcast_zero (req_Body req) = Some (Broadcast_norm b)) \<and>
    (\<forall>r req. TxSearch E (Some s) c = Some r \<and> req \<in> set (out_sent r) \<longrightarrow>
      Unmarshal dec_Search Search_zero (req_Body req) = Some (Search_norm (search_sent c s))) \<and>
    (\<forall>r req. TxSummary E (Some sm) c = Some r \<and> req \<in> set (out_sent r) \<longrightarrow>
      Unmarshal dec_Summary Summary_zero (req_Body req) = Some (Summary_norm (Summary_with_chain c sm)))"
proof -
  note bodies = json_headers_def set_uri_def copyHeaders_def AcquireRequest_def Let_def
  have "Unmarshal dec_Broadcast Broadcast_zero (req_Body req) = Some (Broadcast_norm b)"
    if "broadcast E b cm sy c = Some r" "req \<in> set (out_sent r)" for r req
    using that bcc.unmarshal_marshal [OF assms(1)]
    by (auto simp: broadcast_def Broadcast_ToRequest_def Broadcast_ToJSON_def bodies split: if_splits option.splits)
  moreover have "Unmarshal dec_Search Search_zero (req_Body req) = Some (Search_norm (search_sent c s))"
    if "TxSearch E (Some s) c = Some r" "req \<in> set (out_sent r)" for r req
    using that sec.unmarshal_encode [OF assms(2)]
    by (auto simp: TxSearch_def Search_ToRequest_def Search_ToJSON_def search_sent_def bodies
        split: if_splits option.splits)
  moreover have "Unmarshal dec_Summary Summary_zero (req_Body req) = Some (Summary_norm (Summary_with_chain c sm))"
    if "TxSummary E (Some sm) c = Some r" "req \<in> set (out_sent r)" for r req
    using that smc.unmarshal_marshal [OF assms(3)]
    by (auto simp: TxSummary_def Summary_ToRequest_def Summary_ToJSON_def bodies split: if_splits option.splits)
  ultimately show ?thesis by blast
qed

definition example_summary :: Summary where
  "example_summary = \<lparr>sm_RecipientAddresses = None, sm_SenderAddresses = None, sm_Type = [],
     sm_ChainName = None, sm_ChainVersion = None, sm_SignedAddresses = None\<rparr>"

theorem request_bodies_decode_witness:
  "\<exists>r req. broadcast (example_http (status_response 201)) example_broadcast False True example_client = Some r \<and>
     out_sent r = [req] \<and> Unmarshal dec_Broadcast Broadcast_zero (req_Body req) = Some example_broadcast"
proof -
  let ?E = "example_http (status_response 201)"
  have ascii: "valid_utf8 s" if "list_all (\<lambda>c. (of_char c :: nat) < 128) s" for s
    using that by (simp add: valid_utf8_def to_valid_utf8_ascii)
  have b: "Broadcast_ok example_broadcast"
    by (simp add: Broadcast_ok_def example_broadcast_def TypeTransfer_def ascii)
  have "list_all is_digit (dec_nat 42)" by (rule dec_nat_all_digits)
  then have "list_all (\<lambda>c. (of_char c :: nat) < 128) (dec_nat 42)" by (auto simp: list_all_iff is_digit_def Let_def)
  then have h: "valid_utf8 (''>= '' @ dec_nat 42)" by (intro ascii) simp
  have v: "valid_utf8 ''medusa''" "valid_utf8 ''v2''" "valid_utf8 ''r''" "valid_utf8 ''sig''" "valid_utf8 ASC"
    "valid_utf8 TypeTransfer" "valid_utf8 []"
    by (rule ascii; simp add: ASC_def TypeTransfer_def)+
  have c: "chainName example_client = ''medusa''" "chainVersion example_client = ''v2''"
    by (simp_all add: example_client_def)
  have s: "Search_ok (search_sent example_client example_search)"
    using h by (simp add: Search_ok_def search_sent_def Search_with_chain_def Search_PHeight_def example_search_def
        c v slice_ok_def map_ok_def strings_ok_def ptr_ok_def gm_wf_def EqualOrGreater_def)
  have m: "Summary_ok (Summary_with_chain example_client example_summary)"
    by (simp add: Summary_ok_def Summary_with_chain_def example_summary_def c v slice_ok_def
        map_ok_def ptr_ok_def)
  obtain r req where r: "broadcast ?E example_broadcast False True example_client = Some r" "out_sent r = [req]"
    by (simp add: broadcast_def Broadcast_ToRequest_def Broadcast_ToJSON_def Let_def
        parsedAddr_def example_http_def example_broadcast_def example_client_def
        Type_IsValid_iff TypesSlice_def)
  have "Broadcast_norm example_broadcast = example_broadcast"
    by (simp add: Broadcast_norm_def example_broadcast_def)
  then show ?thesis using request_bodies_decode [OF b s m, of ?E] r by fastforce
qed

text \<open>A response whose body is the empty object.\<close>

definition empty_response :: http_response where
  "empty_response = \<lparr>StatusCode = 200, Body = json_Marshal (JObj []), RespHeader = []\<rparr>"

lemma Unmarshal_empty: "json_Unmarshal (Body empty_response) = Some (RObj [])"
  using json_Unmarshal_text(1) [of "JObj []"] by (simp add: empty_response_def json_ok_def maxNestingDepth_def)

lemma get_empty:
  "get_TxResponse E (Body empty_response) = Inr (Response_zero (Some Transaction_zero))"
  "get_NSResponse E (Body empty_response) = Inr (Response_zero (Some NS_zero))"
  by (simp_all add: get_TxResponse_def get_NSResponse_def unmarshal_at_def Unmarshal_def Unmarshal_empty
      dec_TxResponse_def dec_NSResponse_def dec_struct_def)

lemma example_Do: "he_Do (example_http empty_response) req = Inr empty_response" "StatusCode empty_response = 200"
  by (simp_all add: example_http_def empty_response_def)

lemma example_parsedAddr: "parsedAddr (example_http resp) example_client = Some (''https'', ''a'')"
  by (simp add: parsedAddr_def example_http_def example_client_def)



text \<open>
  C28. A body that decodes but has no data: with status 200, \<^verbatim>\<open>Tx\<close> and \<^verbatim>\<open>FetchNS\<close>
  return the zero transaction and the zero name (the target they decode into), not the error
  they have for a missing transaction or name.
\<close>

theorem missing_data_result:
  assumes "parsedAddr E c = Some (scheme, host)" "i \<noteq> []" "\<And>req. he_Do E req = Inr resp" "StatusCode resp = 200"
    and "json_Unmarshal (Body resp) = Some (RObj ms)"
    and "\<forall>(k, v) \<in> set ms. foldName (unquote k) \<noteq> foldName ''data''"
    and "get_TxResponse E (Body resp) = Inr x" "get_NSResponse E (Body resp) = Inr y"
  shows "map_option out_result (Tx E i sg n v c) = Some (Inr Transaction_zero) \<and>
    map_option out_result (FetchNS E ident c) = Some (Inr NS_zero)"
proof -
  note defs = get_TxResponse_def get_NSResponse_def unmarshal_at_def Unmarshal_def dec_TxResponse_def dec_NSResponse_def
  have x: "rsp_Data x = Some Transaction_zero"
    using assms(5,7) by (auto simp: defs Response_zero_def split: option.splits dest!: Response_no_data [OF assms(6)])
  have y: "rsp_Data y = Some NS_zero"
    using assms(5,8) by (auto simp: defs Response_zero_def split: option.splits dest!: Response_no_data [OF assms(6)])
  have "map_option out_result (Tx E i sg n v c) = Some (Inr Transaction_zero)"
    using assms(1-4,7) x by (simp add: Tx_def Let_def exchange_Inl GetData_def)
  moreover have "map_option out_result (FetchNS E ident c) = Some (Inr NS_zero)"
    using assms(1,3,4,8) y by (simp add: FetchNS_def Let_def exchange_Inl)
  ultimately show ?thesis by blast
qed

theorem missing_data_result_witness:
  "map_option out_result (Tx (example_http empty_response) ''i'' ''sig'' None None example_client) =
     Some (Inr Transaction_zero)"
proof -
  from missing_data_result [OF example_parsedAddr _ example_Do Unmarshal_empty _ get_empty, of "''i''"]
  show ?thesis by simp
qed

end
