(* ===== verification/Spec2Isabelle.thy ===== *)
theory Spec2Isabelle
  imports Lifecycle Node_View Dial Http_Api
begin

text \<open>
  A verification development of the TransferChain read-node client, the Go package under
  \<^verbatim>\<open>src/\<close>. The client talks to one read node over two channels: HTTP requests
  (\<^verbatim>\<open>client.go\<close>) and a WebSocket session (\<^verbatim>\<open>websocket.go\<close>) that a goroutine
  keeps connected and over which the node delivers blocks and transactions. Both use one TLS
  configuration with certificate pinning (\<^verbatim>\<open>certificate.go\<close>).

  \<^bold>\<open>How the model corresponds to the code.\<close> A Go struct is a record with the
  same fields under a short prefix, a Go function or method is a HOL function of the same
  name. A method that runs under the client's mutex maps the client record to the client
  record; a fallible one returns the error next to the state, or a sum with \<open>Inl\<close> for
  the error. A nil slice, map or pointer is \<open>None\<close>. Byte slices are lists of 8-bit
  words, strings are byte strings, \<^verbatim>\<open>uint64\<close> and \<^verbatim>\<open>uint32\<close> are words of that
  width, \<^verbatim>\<open>int64\<close> arithmetic is written out with its wrap-around (\<open>i64\<close>). A Go
  map is an association list whose order is the unspecified iteration order. What a
  \<^verbatim>\<open>select\<close> chooses, and what the network, the clock, the random source and
  third-party packages (fasthttp, logrus, the WebSocket package) answer, is an argument. So
  are, of the standard library, hash functions, X.509, PEM and URL parsing and the wording of
  JSON errors; \<^verbatim>\<open>encoding/json\<close> in both directions, hex, base64, decimal numbers, RFC
  3339 time stamps, query escaping and canonical header keys are defined.

  \<^bold>\<open>Theories, from the bottom up.\<close>
  \<^item> \<open>Prelude\<close>: types, list lemmas, and three interfaces as locales: \<open>codec\<close>
    (an encoder, its decoder and the separators it avoids), \<open>step_system\<close> (a transition
    system with an inductive invariant), \<open>finite_map\<close> (Go's map), interpreted on
    association lists.
  \<^item> \<open>Go_Text\<close>, \<open>Go_Json\<close>: the text and JSON encodings of the standard library;
    hex, decimal and query escaping interpret \<open>codec\<close>.
  \<^item> \<open>Go_Json_Parse\<close>: the JSON scanner, with its limit on nesting, and the decoding of
    string literals; every scan consumes input, and what the encoder prints is scanned back.
  \<^item> \<open>Go_Decode\<close>: \<^verbatim>\<open>json.Unmarshal\<close> at Go's types (null, duplicate and case-folded
    field names, ranges), and the interface \<open>json_codec\<close>: an encoder and a decoder of
    one type, with what survives the wire.
  \<^item> \<open>Errors\<close>: \<^verbatim>\<open>error.go\<close>, \<^verbatim>\<open>util.go\<close>, \<^verbatim>\<open>response.go\<close>.
  \<^item> \<open>Wire_Types\<close>: \<^verbatim>\<open>transaction.go\<close>, \<^verbatim>\<open>message.go\<close>, \<^verbatim>\<open>block.go\<close>,
    \<^verbatim>\<open>mode.go\<close>, \<^verbatim>\<open>ns.go\<close>, \<^verbatim>\<open>last_block.go\<close>.
  \<^item> \<open>Requests\<close>: \<^verbatim>\<open>search.go\<close>, \<^verbatim>\<open>summary.go\<close>, \<^verbatim>\<open>broadcast.go\<close>;
    limits of a valid search, and that its height condition is unambiguous.
  \<^item> \<open>Decoding\<close>: the field tables of all structs that cross the wire; messages,
    broadcasts, searches and summaries interpret \<open>json_codec\<close>; decoders keep the types.
  \<^item> \<open>Certificate\<close>: \<^verbatim>\<open>certificate.go\<close>; exactly when a handshake is accepted.
  \<^item> \<open>Passkey\<close>: \<^verbatim>\<open>passkey.go\<close>; the instance id hashes version 4 UUIDs.
  \<^item> \<open>Authority\<close>: \<^verbatim>\<open>authority.go\<close>; the header and the signed payload are sound
    and unambiguous.
  \<^item> \<open>Client_State\<close>: the client and session structs, \<^verbatim>\<open>newClient\<close> and the
    configuration methods; the TLS settings of a constructed client.
  \<^item> \<open>Output\<close>: \<^verbatim>\<open>logger.go\<close> and \<^verbatim>\<open>transport.go\<close>, all that the client prints.
  \<^item> \<open>Subscriptions\<close>: \<^verbatim>\<open>Start\<close>, \<^verbatim>\<open>Stop\<close>, \<^verbatim>\<open>Subscribe\<close>,
    \<^verbatim>\<open>Unsubscribe\<close>, \<^verbatim>\<open>syncSubscription\<close>; the client invariant, the behaviour of
    \<^verbatim>\<open>Subscribe\<close>, and an abstract peer (addresses with signatures, type
    filter, instance id, listening) that the synchronisation refines.
  \<^item> \<open>Node_View\<close>: the peer on bytes: it decodes the frames and ends up the same.
  \<^item> \<open>Send_Queue\<close>: \<^verbatim>\<open>Write\<close>, the byte budget and the clean-up, as a method and
    as interleaved steps (\<open>send_step\<close>, an interpretation of \<open>step_system\<close>): budget,
    order, tear-down.
  \<^item> \<open>Session\<close>: \<^verbatim>\<open>runSession\<close> and \<^verbatim>\<open>serveConnection\<close>: back-off, when a
    session ends, authority and headers of every dial.
  \<^item> \<open>Dial\<close>: \<^verbatim>\<open>dialConnection\<close> as interleaved steps of dialer and context:
    cancellation closes the socket of a handshake.
  \<^item> \<open>Incoming\<close>: \<^verbatim>\<open>parseIncoming\<close> on the bytes of a message, the callbacks and
    their slots.
  \<^item> \<open>Lifecycle\<close>: all of the WebSocket side as one transition system
    (\<open>api_step\<close> for the callers, \<open>session_step\<close> for the goroutine, again an
    interpretation of \<open>step_system\<close>): the invariant in every interleaving, no lost
    change of the subscription, convergence of the peer, \<^verbatim>\<open>Stop\<close> completes.
  \<^item> \<open>Http_Api\<close>: the request methods: what is sent and how it decodes, what each
    status leads to, the types of what is returned, what is logged.
  \<^item> This theory: properties that need several components.

  \<^bold>\<open>Concurrency.\<close> The mutex makes each critical section atomic, so a step of the
  two transition systems is one critical section or one access to a channel or atomic
  counter. \<open>send_step\<close> cuts \<^verbatim>\<open>Write\<close> at every such access because it holds only
  the read lock, and blocks the clean-up while a writer holds it. Liveness is stated as the
  existence of a continuation made of the goroutine's own steps; fairness of the scheduler
  and the real-time timeouts are outside the model.

  \<^bold>\<open>Bounds.\<close> No definition uses fuel: loops over data are structural or have a
  measure, and the unbounded loop of \<^verbatim>\<open>runSession\<close> is a function of the list of what
  its rounds observe, next to the step relation, which has no bound. The subscription
  revision is a 64-bit counter that the goroutine compares for equality; the statements
  about it assume fewer than 2^64 changes.

  JSON is nested at most 10000 deep, the limit of Go's scanner.

  \<^bold>\<open>Simplifications.\<close> A number in an interface value is kept as its text once it is
  known to fit a \<^verbatim>\<open>float64\<close>, a time stamp as the RFC 3339 text that was accepted. Slice
  memory beyond the length of a slice, which Go exposes again when one field appears three
  times in an object, counts as zero.

  \<^bold>\<open>Not modelled.\<close> Imports and declarations without behaviour; the formatting of log
  entries by logrus; read and write deadlines and the ping handler, of which only the
  outcome of a read or write appears; and the clearing of buffers after use, which no result
  depends on. Every function of the package is a definition here.

  \<^bold>\<open>Next.\<close> Prove that decoded strings are valid UTF-8, and that the text of a
  raw field scans to the value it stands for.
\<close>


section \<open>Properties that span components\<close>


lemma example_cert_client:
  "\<exists>c. newClient example_env (Some None) ''https://a'' ''wss://b'' ''medusa'' ''v2'' False None
     (Some ([48], None)) = Inr c"
proof -
  have i: "createClientInstanceID (env_sha512 example_env) (env_rand example_env) =
      Inr (hex_EncodeToString (replicate 64 2))"
    unfolding createClientInstanceID_def hash_uuids_eq by (simp add: example_env_def)
  have p: "resolve_pin example_env None (Some ([48], None)) = Inr (Some (hex_EncodeToString (replicate 32 1)))"
    "env_SystemCertPool example_env = Inr ()"
    by (simp_all add: resolve_pin_def ReadAll_limited_def max_cert_size_def example_env_def Let_def)
  show ?thesis
    by (simp add: newClient_def i p check_fingerprint_def bad_http_url_def bad_ws_url_def)
qed




end
